(* ===== verification/Ditto_Prelude.thy ===== *)
theory Ditto_Prelude
  imports Main "HOL-Library.Word" "HOL-Library.Sublist"
begin

text \<open>
  Shared vocabulary of the development: bytes and Python strings, the result
  type of code that may raise, the sequencing of such code, the bit-level facts
  about integers the wire format rests on, and the generic interface of an
  encoder/decoder pair.
\<close>

unbundle bit_operations_syntax

named_theorems wire_const \<open>numeric constants of the wire format\<close>
named_theorems bind_elim \<open>inversion of sequenced computations\<close>


section \<open>Bytes, strings, results\<close>

type_synonym byte = "8 word"
type_synonym bytes = "byte list"

text \<open>A Python string is its list of code points.\<close>

type_synonym pystr = "nat list"

definition lit :: "string \<Rightarrow> pystr" where
  "lit s = map of_char s"

lemma lit_append: "lit (s @ t) = lit s @ lit t"
  by (simp add: lit_def)

text \<open>
  Code that raises returns \<open>Inl\<close> of the exception; \<open>bindR\<close> runs the second
  computation on the value of the first and stops at the first exception.
\<close>

fun bindR :: "'e + 'a \<Rightarrow> ('a \<Rightarrow> 'e + 'b) \<Rightarrow> 'e + 'b" where
  "bindR (Inl e) f = Inl e"
| "bindR (Inr x) f = f x"

lemma bindR_cong [fundef_cong]:
  "m = m' \<Longrightarrow> (\<And>x. m' = Inr x \<Longrightarrow> f x = f' x) \<Longrightarrow> bindR m f = bindR m' f'"
  by (cases m') auto

lemma bindR_eq_Inr: "bindR m f = Inr y \<longleftrightarrow> (\<exists>x. m = Inr x \<and> f x = Inr y)"
  by (cases m) auto

lemma bindR_eq_Inl: "bindR m f = Inl e \<longleftrightarrow> m = Inl e \<or> (\<exists>x. m = Inr x \<and> f x = Inl e)"
  by (cases m) auto

lemma bindR_InrE [bind_elim]:
  assumes "bindR m f = Inr y"
  obtains x where "m = Inr x" and "f x = Inr y"
  using assms by (auto simp: bindR_eq_Inr)

lemma bindR_assoc: "bindR (bindR m f) g = bindR m (\<lambda>x. bindR (f x) g)"
  by (cases m) auto

lemma bindR_Inr_right [simp]: "bindR m Inr = m"
  by (cases m) auto

lemma bindR_split:
  "P (bindR m f) \<longleftrightarrow> (\<forall>e. m = Inl e \<longrightarrow> P (Inl e)) \<and> (\<forall>x. m = Inr x \<longrightarrow> P (f x))"
  by (cases m) auto

lemma bindR_split_asm:
  "P (bindR m f) \<longleftrightarrow> \<not> ((\<exists>e. m = Inl e \<and> \<not> P (Inl e)) \<or> (\<exists>x. m = Inr x \<and> \<not> P (f x)))"
  by (cases m) auto

lemmas bindR_splits = bindR_split bindR_split_asm


section \<open>Integers, bits and bytes\<close>

lemma and_7F: "(v :: int) AND 0x7F = v mod 128"
  using take_bit_eq_mask [of 7 v] by (simp add: take_bit_eq_mod mask_eq_exp_minus_1)

lemma and_7: "(v :: int) AND 7 = v mod 8"
  using take_bit_eq_mask [of 3 v] by (simp add: take_bit_eq_mod mask_eq_exp_minus_1)

lemma and_mask64: "(v :: int) AND 0xFFFFFFFFFFFFFFFF = v mod 2 ^ 64"
  using take_bit_eq_mask [of 64 v] by (simp add: take_bit_eq_mod mask_eq_exp_minus_1)

lemma and_exp: "(v :: int) AND 2 ^ n = of_bool (bit v n) * 2 ^ n"
  by (rule bit_eqI) (auto simp: bit_simps)

lemma and_0x80: "(v :: int) AND 0x80 = (if odd (v div 128) then 0x80 else 0)"
  using and_exp [of v 7] by (simp add: bit_iff_odd)

text \<open>Or-ing disjoint bit ranges is addition.\<close>

lemma or_shifted:
  assumes "0 \<le> (lo :: int)" "lo < 2 ^ n"
  shows "lo OR push_bit n hi = lo + 2 ^ n * hi"
proof -
  have "lo = take_bit n lo"
    using assms by (simp add: take_bit_int_eq_self)
  then have "lo AND push_bit n hi = 0"
    by (metis (no_types, lifting) bit_eqI bit_and_iff bit_push_bit_iff bit_take_bit_iff bit_0_eq bot_apply bot_bool_def leD)
  then have "lo + push_bit n hi = lo OR push_bit n hi"
    by (rule disjunctive_add_eq_or)
  then show ?thesis by (simp add: push_bit_eq_mult mult.commute)
qed

lemma or_high_bit:
  assumes "0 \<le> (lo :: int)" "lo < 128"
  shows "lo OR 0x80 = lo + 128"
  using or_shifted [of lo 7 1] assms by (simp add: push_bit_eq_mult)

lemma uint_byte_bounds [simp]: "0 \<le> uint (b :: byte)" "uint (b :: byte) < 256"
  using uint_lt2p [of b] by simp_all

lemma uint_byte_of_int: "0 \<le> v \<Longrightarrow> v < 256 \<Longrightarrow> uint (word_of_int v :: byte) = v"
  by (simp add: uint_word_of_int)

lemma unat_byte_of_nat: "n < 256 \<Longrightarrow> unat (of_nat n :: byte) = n"
  by (simp add: unat_of_nat)

lemma unat_byte_less [simp]: "unat (b :: byte) < 256"
  using unsigned_less [of b] by simp

lemma byte_of_unat [simp]: "(of_nat (unat (b :: byte)) :: byte) = b"
  by simp


section \<open>Decimal rendering\<close>

text \<open>\<open>str(n)\<close> for the integers the error messages interpolate.\<close>

fun digits_nat :: "nat \<Rightarrow> pystr" where
  "digits_nat n = (if n < 10 then [48 + n] else digits_nat (n div 10) @ [48 + n mod 10])"

declare digits_nat.simps [simp del]

definition py_str_int :: "int \<Rightarrow> pystr" where
  "py_str_int v = (if v < 0 then 45 # digits_nat (nat (- v)) else digits_nat (nat v))"


section \<open>The interface of an encoder and its decoder\<close>

text \<open>
  What a client of a wire encoding may rely on: on a domain of well-formed values
  the encoder succeeds and the decoder returns the value that was encoded. It
  follows that two different values never share an encoding.
\<close>

locale codec =
  fixes valid :: "'a \<Rightarrow> bool"
    and enc :: "'a \<Rightarrow> 'e + bytes"
    and dec :: "bytes \<Rightarrow> 'e + 'a"
  assumes enc_total: "valid x \<Longrightarrow> \<exists>bs. enc x = Inr bs"
    and dec_enc: "valid x \<Longrightarrow> enc x = Inr bs \<Longrightarrow> dec bs = Inr x"
begin

lemma roundtrip: "valid x \<Longrightarrow> bindR (enc x) dec = Inr x"
  using enc_total dec_enc by fastforce

lemma injective: "valid x \<Longrightarrow> valid y \<Longrightarrow> enc x = enc y \<Longrightarrow> x = y"
  by (metis enc_total dec_enc sum.inject(2))

end

end
