(* ===== verification/Py_Text.thy ===== *)
theory Py_Text
  imports Ditto_Prelude
begin

text \<open>
  The operations of Python's \<open>str\<close> the client uses: stripping white space, the
  \<open>in\<close> test for substrings, full matches of one-character-class regular
  expressions, and the UTF-8 codec in its strict mode.
\<close>

section \<open>White space and stripping\<close>

text \<open>The code points for which \<open>str.isspace\<close> holds; \<open>strip()\<close> removes exactly these.\<close>

definition is_space :: "nat \<Rightarrow> bool" where
  "is_space c \<longleftrightarrow> (9 \<le> c \<and> c \<le> 13) \<or> (28 \<le> c \<and> c \<le> 32) \<or> c = 0x85 \<or> c = 0xA0 \<or> c = 0x1680
     \<or> (0x2000 \<le> c \<and> c \<le> 0x200A) \<or> c = 0x2028 \<or> c = 0x2029 \<or> c = 0x202F \<or> c = 0x205F \<or> c = 0x3000"

definition lstrip :: "pystr \<Rightarrow> pystr" where
  "lstrip s = dropWhile is_space s"

definition py_strip :: "pystr \<Rightarrow> pystr" where
  "py_strip s = rev (lstrip (rev (lstrip s)))"

lemma lstrip_Nil [simp]: "lstrip [] = []"
  by (simp add: lstrip_def)

lemma py_strip_Nil [simp]: "py_strip [] = []"
  by (simp add: py_strip_def lstrip_def)

lemma py_strip_decomp:
  "\<exists>pre post. s = pre @ py_strip s @ post \<and> (\<forall>c \<in> set pre \<union> set post. is_space c)"
proof -
  define t where "t = lstrip s"
  have s: "s = takeWhile is_space s @ t"
    by (simp add: t_def lstrip_def)
  have "rev t = takeWhile is_space (rev t) @ lstrip (rev t)"
    by (simp add: lstrip_def)
  then have "rev (rev t) = rev (takeWhile is_space (rev t) @ lstrip (rev t))"
    by (rule arg_cong)
  then have "t = py_strip s @ rev (takeWhile is_space (rev t))"
    by (simp add: py_strip_def t_def)
  with s show ?thesis
    by (metis UnE set_rev set_takeWhileD)
qed

lemma py_strip_blank: "py_strip s = [] \<longleftrightarrow> (\<forall>c \<in> set s. is_space c)"
proof
  assume "py_strip s = []"
  then show "\<forall>c \<in> set s. is_space c"
    using py_strip_decomp [of s] by auto
next
  assume "\<forall>c \<in> set s. is_space c"
  then show "py_strip s = []"
    by (auto simp: py_strip_def lstrip_def dest: set_dropWhileD)
qed

lemma py_strip_nonempty: "py_strip s \<noteq> [] \<Longrightarrow> s \<noteq> []"
  by auto

lemma lstrip_id: "s = [] \<or> \<not> is_space (hd s) \<Longrightarrow> lstrip s = s"
  by (cases s) (auto simp: lstrip_def)

lemma py_strip_id:
  assumes "\<forall>c \<in> set s. \<not> is_space c"
  shows "py_strip s = s"
proof -
  have "lstrip s = s" "lstrip (rev s) = rev s"
    using assms by (auto intro!: lstrip_id simp: hd_rev)
  then show ?thesis by (simp add: py_strip_def)
qed

lemma lstrip_hd: "lstrip s = [] \<or> \<not> is_space (hd (lstrip s))"
  using hd_dropWhile [of is_space s] by (auto simp: lstrip_def)

lemma lstrip_butlast: "lstrip (rev (lstrip s)) \<noteq> [] \<Longrightarrow> hd (rev (lstrip (rev (lstrip s)))) = hd (lstrip s)"
proof -
  assume ne: "lstrip (rev (lstrip s)) \<noteq> []"
  have "rev (lstrip s) = takeWhile is_space (rev (lstrip s)) @ lstrip (rev (lstrip s))"
    by (simp add: lstrip_def)
  then have "last (rev (lstrip s)) = last (lstrip (rev (lstrip s)))"
    using ne by (metis last_appendR)
  with ne show ?thesis
    by (metis hd_rev last_rev rev_is_Nil_conv rev_rev_ident)
qed

text \<open>Stripping twice is stripping once.\<close>

lemma py_strip_idem [simp]: "py_strip (py_strip s) = py_strip s"
proof -
  have 1: "lstrip (py_strip s) = py_strip s"
  proof (cases "lstrip (rev (lstrip s)) = []")
    case False
    then have "lstrip s \<noteq> []" by (auto simp: lstrip_def dest: set_dropWhileD)
    with False show ?thesis
      using lstrip_butlast [of s] lstrip_hd [of s] by (intro lstrip_id) (simp add: py_strip_def)
  qed (simp add: py_strip_def)
  have 2: "lstrip (rev (py_strip s)) = rev (py_strip s)"
    using lstrip_hd [of "rev (lstrip s)"]
    by (intro lstrip_id) (auto simp: py_strip_def)
  show ?thesis
    by (subst py_strip_def) (simp add: 1 2)
qed


section \<open>Substrings and character classes\<close>

text \<open>\<open>needle in haystack\<close>\<close>

fun py_in :: "pystr \<Rightarrow> pystr \<Rightarrow> bool" where
  "py_in needle [] = (needle = [])"
| "py_in needle (c # cs) = (take (length needle) (c # cs) = needle \<or> py_in needle cs)"

lemma take_eq_prefix: "take (length xs) ys = xs \<longleftrightarrow> prefix xs ys"
  by (metis append_eq_conv_conj prefix_def)

lemma py_in_sublist: "py_in needle hay \<longleftrightarrow> sublist needle hay"
  by (induction needle hay rule: py_in.induct)
     (simp_all add: take_eq_prefix sublist_Cons_right del: take_Suc_Cons)

text \<open>
  \<open>re.compile(r"^[...]+$").fullmatch(s)\<close> for a character class: the whole string,
  which is not empty, consists of characters of the class.
\<close>

definition fullmatch_plus :: "(nat \<Rightarrow> bool) \<Rightarrow> pystr \<Rightarrow> bool" where
  "fullmatch_plus cls s \<longleftrightarrow> s \<noteq> [] \<and> list_all cls s"


section \<open>UTF-8\<close>

text \<open>
  One code point in UTF-8, as byte values; \<open>None\<close> for a surrogate, which the strict
  codec refuses with \<open>UnicodeEncodeError\<close> (and for a number that is no code point).
\<close>

definition is_surrogate :: "nat \<Rightarrow> bool" where
  "is_surrogate c \<longleftrightarrow> 0xD800 \<le> c \<and> c \<le> 0xDFFF"

definition encodable_cp :: "nat \<Rightarrow> bool" where
  "encodable_cp c \<longleftrightarrow> c \<le> 0x10FFFF \<and> \<not> is_surrogate c"

definition encodable :: "pystr \<Rightarrow> bool" where
  "encodable s \<longleftrightarrow> list_all encodable_cp s"

definition utf8_cp :: "nat \<Rightarrow> nat list" where
  "utf8_cp c =
    (if c < 0x80 then [c]
     else if c < 0x800 then [0xC0 + c div 64, 0x80 + c mod 64]
     else if c < 0x10000 then [0xE0 + c div 4096, 0x80 + (c div 64) mod 64, 0x80 + c mod 64]
     else [0xF0 + c div 262144, 0x80 + (c div 4096) mod 64, 0x80 + (c div 64) mod 64, 0x80 + c mod 64])"

definition is_cont :: "nat \<Rightarrow> bool" where
  "is_cont b \<longleftrightarrow> 0x80 \<le> b \<and> b < 0xC0"

text \<open>The strict decoder: no overlong form, no surrogate, nothing above \<open>U+10FFFF\<close>.\<close>

fun utf8_dec :: "nat list \<Rightarrow> pystr option" where
  "utf8_dec [] = Some []"
| "utf8_dec (a # bs) =
    (if a < 0x80 then map_option ((#) a) (utf8_dec bs)
     else if a < 0xC0 then None
     else if a < 0xE0 then
       (case bs of b # rest \<Rightarrow>
          (let c = (a - 0xC0) * 64 + (b - 0x80) in
           if is_cont b \<and> 0x80 \<le> c then map_option ((#) c) (utf8_dec rest) else None)
        | _ \<Rightarrow> None)
     else if a < 0xF0 then
       (case bs of b # b' # rest \<Rightarrow>
          (let c = (a - 0xE0) * 4096 + (b - 0x80) * 64 + (b' - 0x80) in
           if is_cont b \<and> is_cont b' \<and> 0x800 \<le> c \<and> \<not> is_surrogate c
           then map_option ((#) c) (utf8_dec rest) else None)
        | _ \<Rightarrow> None)
     else if a < 0xF8 then
       (case bs of b # b' # b'' # rest \<Rightarrow>
          (let c = (a - 0xF0) * 262144 + (b - 0x80) * 4096 + (b' - 0x80) * 64 + (b'' - 0x80) in
           if is_cont b \<and> is_cont b' \<and> is_cont b'' \<and> 0x10000 \<le> c \<and> c \<le> 0x10FFFF
           then map_option ((#) c) (utf8_dec rest) else None)
        | _ \<Rightarrow> None)
     else None)"

lemma utf8_cp_bytes: "c \<le> 0x10FFFF \<Longrightarrow> b \<in> set (utf8_cp c) \<Longrightarrow> b < 256"
  by (auto simp: utf8_cp_def split: if_splits)

lemma utf8_cp_nonempty: "utf8_cp c \<noteq> []"
  by (simp add: utf8_cp_def)

text \<open>A number in radix 64, the arithmetic behind the continuation bytes.\<close>

lemma radix64_2: "(c :: nat) div 4096 * 4096 + (c div 64) mod 64 * 64 + c mod 64 = c"
proof -
  have "c div 4096 = c div 64 div 64"
    by (simp add: div_mult2_eq [symmetric])
  then show ?thesis
    using div_mult_mod_eq [of c 64] div_mult_mod_eq [of "c div 64" 64] by linarith
qed

lemma radix64_3:
  "(c :: nat) div 262144 * 262144 + (c div 4096) mod 64 * 4096 + (c div 64) mod 64 * 64 + c mod 64 = c"
proof -
  have "c div 262144 = c div 4096 div 64"
    by (simp add: div_mult2_eq [symmetric])
  then show ?thesis
    using div_mult_mod_eq [of "c div 4096" 64] radix64_2 [of c] by linarith
qed

lemma utf8_dec_cp:
  assumes "encodable_cp c"
  shows "utf8_dec (utf8_cp c @ rest) = map_option ((#) c) (utf8_dec rest)"
proof -
  have c: "c \<le> 0x10FFFF" "\<not> is_surrogate c"
    using assms by (simp_all add: encodable_cp_def)
  consider "c < 0x80" | "0x80 \<le> c" "c < 0x800" | "0x800 \<le> c" "c < 0x10000" | "0x10000 \<le> c"
    by linarith
  then show ?thesis
  proof cases
    case 1
    then show ?thesis by (simp add: utf8_cp_def)
  next
    case 2
    then show ?thesis by (simp add: utf8_cp_def is_cont_def less_mult_imp_div_less)
  next
    case 3
    then show ?thesis
      using c radix64_2 [of c] by (simp add: utf8_cp_def is_cont_def less_mult_imp_div_less)
  next
    case 4
    then show ?thesis
      using c radix64_3 [of c] by (simp add: utf8_cp_def is_cont_def less_mult_imp_div_less)
  qed
qed

lemma utf8_dec_concat:
  "encodable s \<Longrightarrow> utf8_dec (concat (map utf8_cp s)) = Some s"
  by (induction s) (simp_all add: encodable_def utf8_dec_cp)

lemma map_unat_of_nat:
  "list_all (\<lambda>b. b < 256) bs \<Longrightarrow> map (\<lambda>b. unat (of_nat b :: byte)) bs = bs"
  by (induction bs) (auto simp: unat_of_nat)

lemma utf8_concat_bytes:
  "encodable s \<Longrightarrow> list_all (\<lambda>b. b < 256) (concat (map utf8_cp s))"
  by (induction s) (auto simp: encodable_def encodable_cp_def list_all_iff dest: utf8_cp_bytes)

text \<open>The same codec on bytes.\<close>

definition utf8_bytes :: "pystr \<Rightarrow> bytes" where
  "utf8_bytes s = map of_nat (concat (map utf8_cp s))"

definition utf8_decode_opt :: "bytes \<Rightarrow> pystr option" where
  "utf8_decode_opt bs = utf8_dec (map unat bs)"

lemma utf8_roundtrip: "encodable s \<Longrightarrow> utf8_decode_opt (utf8_bytes s) = Some s"
  using map_unat_of_nat [OF utf8_concat_bytes]
  by (simp add: utf8_decode_opt_def utf8_bytes_def comp_def utf8_dec_concat)

lemma utf8_bytes_nonempty: "s \<noteq> [] \<Longrightarrow> utf8_bytes s \<noteq> []"
  by (cases s) (simp_all add: utf8_bytes_def utf8_cp_nonempty)

lemma utf8_bytes_Nil [simp]: "utf8_bytes [] = []"
  by (simp add: utf8_bytes_def)

end
