(* ===== verification/Py_Float.thy ===== *)
theory Py_Float
  imports Py_Text "HOL-Library.Log_Nat"
begin

text \<open>
  Python's \<open>float\<close>: the IEEE doubles, each finite one as a sign, a significand and a power of
  two in one normal form, so that equal representations are the same double. \<open>double_of\<close> rounds
  a decimal number to the nearest one. The lemmas say that its results are in normal form
  and that a decimal number which is a double exactly is not changed.
\<close>

section \<open>Doubles\<close>

datatype pyfloat = Finite bool nat int | Infinity bool | NaN

text \<open>
  Zero has exponent 0; a normal number has a significand of 53 bits; a subnormal one has the
  least exponent.
\<close>

definition normal_form :: "nat \<Rightarrow> int \<Rightarrow> bool" where
  "normal_form m k \<longleftrightarrow>
    m = 0 \<and> k = 0 \<or> m < 2 ^ 53 \<and> - 1074 \<le> k \<and> k \<le> 971 \<and> (2 ^ 52 \<le> m \<or> 0 < m \<and> k = - 1074)"

definition pack_double :: "bool \<Rightarrow> nat \<Rightarrow> int \<Rightarrow> pyfloat" where
  "pack_double sg q k =
    (if q = 0 then Finite sg 0 0
     else if q = 2 ^ 53 then if k \<ge> 971 then Infinity sg else Finite sg (2 ^ 52) (k + 1)
     else if k > 971 then Infinity sg
     else Finite sg q k)"

text \<open>The exponent that leaves 53 bits of \<open>num / den\<close>, at least \<open>-1074\<close>.\<close>

definition exponent_of :: "nat \<Rightarrow> nat \<Rightarrow> int" where
  "exponent_of num den =
    (let k0 = int (floorlog 2 num) - int (floorlog 2 den) - 53;
         big = (num * 2 ^ nat (- k0) \<ge> 2 ^ 53 * (den * 2 ^ nat k0))
     in max (if big then k0 + 1 else k0) (- 1074))"

text \<open>\<open>n / d\<close> to the nearest integer, a tie to the even one.\<close>

definition round_even :: "nat \<Rightarrow> nat \<Rightarrow> nat" where
  "round_even n d =
    (if 2 * (n mod d) > d \<or> 2 * (n mod d) = d \<and> odd (n div d) then n div d + 1 else n div d)"

definition round_ratio :: "bool \<Rightarrow> nat \<Rightarrow> nat \<Rightarrow> pyfloat" where
  "round_ratio sg num den =
    (let k = exponent_of num den
     in pack_double sg (round_even (num * 2 ^ nat (- k)) (den * 2 ^ nat k)) k)"

text \<open>The double nearest to \<open>m * 10 ^ e\<close>, ties to even, infinity from about \<open>2 ^ 1024\<close>.\<close>

definition double_of :: "bool \<Rightarrow> nat \<Rightarrow> int \<Rightarrow> pyfloat" where
  "double_of sg m e =
    (if m = 0 then Finite sg 0 0 else round_ratio sg (m * 10 ^ nat e) (10 ^ nat (- e)))"


section \<open>The exponent\<close>

lemma two_powi: "(2 :: real) powi k = 2 ^ nat k / 2 ^ nat (- k)"
  by (cases "k \<ge> 0") (auto simp: power_int_def divide_simps)

lemma scale_le:
  assumes "0 < den"
  shows "c * (den * 2 ^ nat k) \<le> num * 2 ^ nat (- k) \<longleftrightarrow> real c * 2 powi k \<le> real num / real den" (is ?le)
    and "num * 2 ^ nat (- k) < c * (den * 2 ^ nat k) \<longleftrightarrow> real num / real den < real c * 2 powi k" (is ?less)
proof -
  have "c * (den * 2 ^ nat k) \<le> num * 2 ^ nat (- k) \<longleftrightarrow> real (c * (den * 2 ^ nat k)) \<le> real (num * 2 ^ nat (- k))"
    by (simp only: of_nat_le_iff)
  also have "\<dots> \<longleftrightarrow> real c * 2 powi k \<le> real num / real den"
    using assms by (simp add: two_powi field_simps)
  finally show ?le .
  then show ?less by (meson not_less)
qed

lemma two_powi_add: "(2 :: real) powi a * 2 powi b = 2 powi (a + b)"
  by (simp add: power_int_add)

lemma two_powi_shift: "(2 :: real) ^ n * 2 powi k = 2 powi (int n + k)"
  using two_powi_add [of "int n" k] by (simp only: power_int_of_nat)

lemma floorlog_powi: "0 < n \<Longrightarrow> 2 powi (int (floorlog 2 n) - 1) \<le> real n \<and> real n < 2 powi int (floorlog 2 n)"
proof -
  assume n: "0 < n"
  obtain l where l: "floorlog 2 n = Suc l" using n by (cases "floorlog 2 n") (auto simp: floorlog_def)
  have "2 ^ l \<le> n" "n < 2 ^ Suc l"
    using floorlog_bounds [of n 2] n by (simp_all add: l)
  then have "real (2 ^ l) \<le> real n" "real n < real (2 ^ Suc l)"
    by (simp_all only: of_nat_le_iff of_nat_less_iff)
  then show ?thesis by (simp add: l add.commute power_int_add)
qed

lemma ratio_bounds:
  assumes "0 < num" "0 < den"
  defines "a \<equiv> int (floorlog 2 num) - int (floorlog 2 den)"
  shows "2 powi (a - 1) \<le> real num / real den" "real num / real den < 2 powi (a + 1)"
proof -
  let ?n = "int (floorlog 2 num)" and ?d = "int (floorlog 2 den)"
  have n: "2 powi (?n - 1) \<le> real num" "real num < 2 powi ?n"
    and d: "2 powi (?d - 1) \<le> real den" "real den < 2 powi ?d"
    using floorlog_powi assms by blast+
  have "2 powi (a - 1) * real den \<le> 2 powi (a - 1) * 2 powi ?d"
    using d(2) by (intro mult_left_mono) simp_all
  also have "\<dots> = 2 powi (?n - 1)"
    by (simp only: two_powi_add) (simp add: a_def)
  finally show "2 powi (a - 1) \<le> real num / real den"
    using n(1) assms(2) by (simp add: pos_le_divide_eq)
  have "2 powi ?n = (2 :: real) powi (a + 1) * 2 powi (?d - 1)"
    by (simp only: two_powi_add) (simp add: a_def)
  also have "\<dots> \<le> 2 powi (a + 1) * real den"
    using d(1) by (intro mult_left_mono) simp_all
  finally have "real num < 2 powi (a + 1) * real den"
    using n(2) by linarith
  then show "real num / real den < 2 powi (a + 1)"
    using assms(2) by (simp add: pos_divide_less_eq)
qed

lemma two_powi_less: "(2 :: real) powi a < 2 powi b \<longleftrightarrow> a < b"
  using power_int_strict_increasing [of a b "2 :: real"] power_int_increasing [of b a "2 :: real"] by force

text \<open>The exponent leaves a significand of 53 bits, or is the least one and leaves fewer.\<close>

lemma exponent_of:
  assumes "0 < num" "0 < den"
  shows "real num / real den < 2 powi (exponent_of num den + 53)"
    and "exponent_of num den = - 1074 \<or> 2 powi (exponent_of num den + 52) \<le> real num / real den"
    and "- 1074 \<le> exponent_of num den"
proof -
  define k0 where "k0 = int (floorlog 2 num) - int (floorlog 2 den) - 53"
  define x where "x = real num / real den"
  define k where "k = (if 2 powi (k0 + 53) \<le> x then k0 + 1 else k0)"
  have big: "num * 2 ^ nat (- k0) \<ge> 2 ^ 53 * (den * 2 ^ nat k0) \<longleftrightarrow> 2 powi (k0 + 53) \<le> x"
    unfolding x_def using scale_le(1) [OF assms(2), of "2 ^ 53" k0 num] two_powi_add [of 53 k0]
    by (simp add: add.commute)
  have k: "exponent_of num den = max k (- 1074)"
    unfolding exponent_of_def Let_def k0_def [symmetric] big k_def [symmetric] by (rule refl)
  have x: "2 powi (k0 + 52) \<le> x" "x < 2 powi (k0 + 54)"
    using ratio_bounds [OF assms] by (simp_all add: k0_def x_def algebra_simps)
  have *: "x < 2 powi (k + 53)" "2 powi (k + 52) \<le> x"
    using x by (auto simp: k_def algebra_simps)
  have "x < 2 powi (max k (- 1074) + 53)"
    using *(1) power_int_increasing [of "k + 53" "max k (- 1074) + 53" "2 :: real"] by linarith
  then show "real num / real den < 2 powi (exponent_of num den + 53)"
    by (simp add: k x_def)
  show "exponent_of num den = - 1074 \<or> 2 powi (exponent_of num den + 52) \<le> real num / real den"
    using *(2) by (auto simp: k x_def max_def)
  show "- 1074 \<le> exponent_of num den" by (simp add: k)
qed

text \<open>There is only one such exponent.\<close>

lemma exponent_unique:
  assumes "0 < num" "0 < den" "normal_form m k" "real num / real den = real m * 2 powi k"
  shows "exponent_of num den = k"
proof -
  let ?e = "exponent_of num den" and ?x = "real num / real den"
  have "0 < ?x" using assms(1,2) by simp
  then have m: "0 < m" using assms(4) by (cases m) auto
  have "m < 2 ^ 53" "- 1074 \<le> k" "2 ^ 52 \<le> m \<or> k = - 1074"
    using assms(3) m by (auto simp: normal_form_def)
  then have "real m < real (2 ^ 53)" "- 1074 \<le> k" "real (2 ^ 52) \<le> real m \<or> k = - 1074"
    by (simp_all only: of_nat_less_iff of_nat_le_iff)
  then have nf: "real m < 2 ^ 53" "- 1074 \<le> k" "2 ^ 52 \<le> real m \<or> k = - 1074"
    by simp_all
  have "real m * 2 powi k < 2 ^ 53 * 2 powi k" using nf(1) by (intro mult_strict_right_mono) simp_all
  then have "?x < 2 powi (53 + k)"
    unfolding assms(4) two_powi_shift of_nat_numeral .
  then have "?e = - 1074 \<or> ?e \<le> k"
    using exponent_of(2) [OF assms(1,2)] two_powi_less [of "?e + 52" "53 + k"] by auto
  moreover have "k = - 1074 \<or> k \<le> ?e"
  proof (cases "k = - 1074")
    case False
    then have "2 ^ 52 * 2 powi k \<le> real m * 2 powi k" using nf(3) by (intro mult_right_mono) simp_all
    then have "2 powi (52 + k) \<le> ?x"
      unfolding assms(4) two_powi_shift of_nat_numeral .
    then have "2 powi (52 + k) < (2 :: real) powi (?e + 53)"
      using exponent_of(1) [OF assms(1,2)] by linarith
    then show ?thesis by (simp add: two_powi_less)
  qed simp
  ultimately show ?thesis using nf(2) exponent_of(3) [OF assms(1,2)] by auto
qed


section \<open>Rounding\<close>

lemma round_even_exact: "0 < d \<Longrightarrow> round_even (m * d) d = m"
  by (simp add: round_even_def)

lemma round_even_bounds:
  assumes "0 < d"
  shows "n < c * d \<Longrightarrow> round_even n d \<le> c" and "c * d \<le> n \<Longrightarrow> c \<le> round_even n d"
proof -
  assume "n < c * d"
  then have "n div d < c" using assms by (simp add: div_less_iff_less_mult)
  then show "round_even n d \<le> c" by (auto simp: round_even_def)
next
  assume "c * d \<le> n"
  then have "c \<le> n div d" using assms by (simp add: less_eq_div_iff_mult_less_eq)
  then show "c \<le> round_even n d" by (auto simp: round_even_def)
qed

lemma round_ratio_normal:
  assumes "0 < num" "0 < den" "round_ratio sg num den = Finite s m k"
  shows "normal_form m k"
proof -
  let ?e = "exponent_of num den"
  let ?n = "num * 2 ^ nat (- ?e)" and ?d = "den * 2 ^ nat ?e"
  let ?q = "round_even ?n ?d"
  have d: "0 < ?d" using assms(2) by simp
  have "?n < 2 ^ 53 * ?d"
    using scale_le(2) [OF assms(2), of num ?e "2 ^ 53"] exponent_of(1) [OF assms(1,2)] two_powi_add [of 53 ?e]
    by (simp add: add.commute)
  then have hi: "?q \<le> 2 ^ 53" by (rule round_even_bounds(1) [OF d])
  have "?e = - 1074 \<or> 2 ^ 52 * ?d \<le> ?n"
    using scale_le(1) [OF assms(2), of "2 ^ 52" ?e num] exponent_of(2) [OF assms(1,2)] two_powi_add [of 52 ?e]
    by (simp add: add.commute)
  then have lo: "?e = - 1074 \<or> 2 ^ 52 \<le> ?q" using round_even_bounds(2) [OF d] by blast
  have "pack_double sg ?q ?e = Finite s m k"
    using assms(3) by (simp add: round_ratio_def Let_def)
  then show ?thesis
    using hi lo exponent_of(3) [OF assms(1,2)] by (auto simp: pack_double_def normal_form_def split: if_splits)
qed

text \<open>What \<open>double_of\<close> returns is in normal form.\<close>

lemma double_of_normal: "double_of sg m e = Finite s q k \<Longrightarrow> normal_form q k"
  using round_ratio_normal [of "m * 10 ^ nat e" "10 ^ nat (- e)" sg s q k]
  by (auto simp: double_of_def normal_form_def split: if_splits)

text \<open>A decimal number that is a double is read as that double.\<close>

lemma round_ratio_exact:
  assumes "0 < num" "0 < den" "normal_form m k" "real num / real den = real m * 2 powi k"
  shows "round_ratio sg num den = Finite sg m k"
proof -
  have e: "exponent_of num den = k" by (rule exponent_unique [OF assms])
  have "real (num * 2 ^ nat (- k)) = real (m * (den * 2 ^ nat k))"
    using assms(2,4) by (simp add: two_powi field_simps)
  then have q: "num * 2 ^ nat (- k) = m * (den * 2 ^ nat k)" by (simp only: of_nat_eq_iff)
  have "0 < m" using assms q by (cases m) auto
  then show ?thesis
    using assms(2,3) by (auto simp: round_ratio_def e q round_even_exact pack_double_def normal_form_def)
qed

lemma double_of_exact:
  assumes "normal_form m k"
  shows "double_of sg (m * (if 0 \<le> k then 2 ^ nat k else 5 ^ nat (- k))) (min k 0) = Finite sg m k"
proof (cases "m = 0")
  case True
  with assms show ?thesis by (simp add: double_of_def normal_form_def)
next
  case False
  let ?num = "m * (if 0 \<le> k then 2 ^ nat k else 5 ^ nat (- k))"
  have ten: "(10 :: real) ^ n = 5 ^ n * 2 ^ n" for n
    using power_mult_distrib [of "5 :: real" 2 n] by simp
  have "real ?num / real (10 ^ nat (- min k 0)) = real m * 2 powi k"
    by (cases "0 \<le> k") (simp_all add: two_powi ten)
  then have "round_ratio sg ?num (10 ^ nat (- min k 0)) = Finite sg m k"
    using False assms by (intro round_ratio_exact) simp_all
  then show ?thesis using False by (simp add: double_of_def min_def)
qed

section \<open>Comparison\<close>

text \<open>\<open>x < y\<close>; NaN is not less than anything, and nothing is less than NaN.\<close>

definition with_sign :: "bool \<Rightarrow> nat \<Rightarrow> int" where
  "with_sign sg m = (if sg then - int m else int m)"

fun float_less :: "pyfloat \<Rightarrow> pyfloat \<Rightarrow> bool" where
  "float_less (Finite s m k) (Finite t n l) \<longleftrightarrow>
    with_sign s m * 2 ^ (nat k + nat (- l)) < with_sign t n * 2 ^ (nat l + nat (- k))"
| "float_less (Finite s m k) (Infinity t) \<longleftrightarrow> \<not> t"
| "float_less (Infinity s) (Finite t n l) \<longleftrightarrow> s"
| "float_less (Infinity s) (Infinity t) \<longleftrightarrow> s \<and> \<not> t"
| "float_less _ _ \<longleftrightarrow> False"

fun float_real :: "pyfloat \<Rightarrow> real" where
  "float_real (Finite s m k) = of_int (with_sign s m) * 2 powi k"
| "float_real _ = 0"

text \<open>Finite doubles compare as the numbers they stand for.\<close>

lemma float_less_real:
  "float_less (Finite s m k) (Finite t n l) \<longleftrightarrow> float_real (Finite s m k) < float_real (Finite t n l)"
proof -
  let ?a = "with_sign s m" and ?b = "with_sign t n"
  have "?a * 2 ^ (nat k + nat (- l)) < ?b * 2 ^ (nat l + nat (- k)) \<longleftrightarrow>
      real_of_int (?a * 2 ^ (nat k + nat (- l))) < real_of_int (?b * 2 ^ (nat l + nat (- k)))"
    by (simp only: of_int_less_iff)
  also have "\<dots> \<longleftrightarrow> real_of_int ?a * 2 powi k < real_of_int ?b * 2 powi l"
    by (simp add: two_powi power_add field_simps)
  finally show ?thesis by simp
qed

end
