(* ===== verification/Py_Json.thy ===== *)
theory Py_Json
  imports Py_Float
begin

text \<open>
  The part of Python's \<open>json\<close> module the HTTP client uses: \<open>loads\<close> on a text and
  \<open>dumps\<close> of a flat dictionary of strings and integers. A text that is no JSON is
  \<open>None\<close>. The parser recurses on fuel that its text bounds; \<open>json_fuel_enough\<close>
  says that more would not change any result.
\<close>

section \<open>Values\<close>

datatype json =
    JNull
  | JBool bool
  | JInt int
  | JFloat pyfloat
  | JStr pystr
  | JList "json list"
  | JObj "(pystr \<times> json) list"

text \<open>A dictionary keeps the pairs of the text; of two with the same key the later one counts.\<close>

definition dict_get :: "(pystr \<times> json) list \<Rightarrow> string \<Rightarrow> json option" where
  "dict_get d k = map_of (rev d) (lit k)"

text \<open>\<open>bool(v)\<close>\<close>

fun truthy :: "json \<Rightarrow> bool" where
  "truthy JNull = False"
| "truthy (JBool b) = b"
| "truthy (JInt n) = (n \<noteq> 0)"
| "truthy (JFloat f) = (case f of Finite sg m e \<Rightarrow> m \<noteq> 0 | _ \<Rightarrow> True)"
| "truthy (JStr s) = (s \<noteq> [])"
| "truthy (JList xs) = (xs \<noteq> [])"
| "truthy (JObj d) = (d \<noteq> [])"


section \<open>Reading\<close>

definition j_space :: "nat \<Rightarrow> bool" where
  "j_space c \<longleftrightarrow> c = 32 \<or> c = 9 \<or> c = 10 \<or> c = 13"

definition j_ws :: "pystr \<Rightarrow> pystr" where
  "j_ws s = dropWhile j_space s"

definition unhex :: "nat \<Rightarrow> nat option" where
  "unhex c = (if 48 \<le> c \<and> c \<le> 57 then Some (c - 48)
    else if 97 \<le> c \<and> c \<le> 102 then Some (c - 87)
    else if 65 \<le> c \<and> c \<le> 70 then Some (c - 55) else None)"

definition hex4 :: "nat \<Rightarrow> nat \<Rightarrow> nat \<Rightarrow> nat \<Rightarrow> nat option" where
  "hex4 a b c d =
    (case (unhex a, unhex b, unhex c, unhex d) of
       (Some w, Some x, Some y, Some z) \<Rightarrow> Some (((w * 16 + x) * 16 + y) * 16 + z)
     | _ \<Rightarrow> None)"

text \<open>A low surrogate escape at the start of the text: its value.\<close>

fun low_escape :: "pystr \<Rightarrow> nat option" where
  "low_escape (p # q # a # b # c # d # s) =
    (if p = 92 \<and> q = 117
     then (case hex4 a b c d of
         Some u \<Rightarrow> if 0xDC00 \<le> u \<and> u \<le> 0xDFFF then Some u else None
       | None \<Rightarrow> None)
     else None)"
| "low_escape _ = None"

definition join_surrogates :: "nat \<Rightarrow> nat \<Rightarrow> nat" where
  "join_surrogates hi lo = 0x10000 + (hi - 0xD800) * 1024 + (lo - 0xDC00)"

definition j_escape :: "nat \<Rightarrow> nat option" where
  "j_escape c =
    (if c = 34 then Some 34 else if c = 92 then Some 92 else if c = 47 then Some 47
     else if c = 98 then Some 8 else if c = 102 then Some 12 else if c = 110 then Some 10
     else if c = 114 then Some 13 else if c = 116 then Some 9 else None)"

definition put_cp :: "nat \<Rightarrow> (pystr \<times> pystr) option \<Rightarrow> (pystr \<times> pystr) option" where
  "put_cp c m = map_option (\<lambda>(s, r). (c # s, r)) m"

text \<open>The text of a string behind its opening quote.\<close>

function j_string :: "pystr \<Rightarrow> (pystr \<times> pystr) option" where
  "j_string s =
    (case s of
       [] \<Rightarrow> None
     | c # cs \<Rightarrow>
         if c = 34 then Some ([], cs)
         else if c = 92 then
           (case cs of
              [] \<Rightarrow> None
            | e # es \<Rightarrow>
                if e = 117 then
                  (case es of
                     h1 # h2 # h3 # h4 # r \<Rightarrow>
                       (case hex4 h1 h2 h3 h4 of
                          None \<Rightarrow> None
                        | Some u \<Rightarrow>
                            (case (if 0xD800 \<le> u \<and> u \<le> 0xDBFF then low_escape r else None) of
                               Some lo \<Rightarrow> put_cp (join_surrogates u lo) (j_string (drop 6 r))
                             | None \<Rightarrow> put_cp u (j_string r)))
                   | _ \<Rightarrow> None)
                else (case j_escape e of None \<Rightarrow> None | Some x \<Rightarrow> put_cp x (j_string es)))
         else if c < 32 then None
         else put_cp c (j_string cs))"
  by pat_completeness auto
termination
  by (relation "measure length") auto

declare j_string.simps [simp del]

definition is_digit :: "nat \<Rightarrow> bool" where
  "is_digit c \<longleftrightarrow> 48 \<le> c \<and> c \<le> 57"

definition digits_value :: "pystr \<Rightarrow> nat" where
  "digits_value ds = foldl (\<lambda>n d. n * 10 + (d - 48)) 0 ds"

text \<open>The fraction and the exponent of a number, if there is one.\<close>

fun j_frac :: "pystr \<Rightarrow> pystr option \<times> pystr" where
  "j_frac (p # d # s) =
    (if p = 46 \<and> is_digit d then (Some (takeWhile is_digit (d # s)), dropWhile is_digit (d # s))
     else (None, p # d # s))"
| "j_frac s = (None, s)"

definition exp_sign :: "pystr \<Rightarrow> bool \<times> pystr" where
  "exp_sign s = (case s of c # cs \<Rightarrow> if c = 45 then (True, cs) else if c = 43 then (False, cs) else (False, s)
    | [] \<Rightarrow> (False, s))"

definition j_exp :: "pystr \<Rightarrow> int option \<times> pystr" where
  "j_exp s =
    (case s of
       [] \<Rightarrow> (None, s)
     | e # es \<Rightarrow>
         if e = 101 \<or> e = 69 then
           (case exp_sign es of (neg, ds) \<Rightarrow>
              let x = takeWhile is_digit ds in
              if x = [] then (None, s)
              else (Some (if neg then - int (digits_value x) else int (digits_value x)), dropWhile is_digit ds))
         else (None, s))"

definition number_value :: "bool \<Rightarrow> pystr \<Rightarrow> pystr option \<Rightarrow> int option \<Rightarrow> json" where
  "number_value neg ip fp ex =
    (case (fp, ex) of
       (None, None) \<Rightarrow> JInt (if neg then - int (digits_value ip) else int (digits_value ip))
     | _ \<Rightarrow> let fd = (case fp of None \<Rightarrow> [] | Some ds \<Rightarrow> ds); x = (case ex of None \<Rightarrow> 0 | Some n \<Rightarrow> n)
           in JFloat (double_of neg (digits_value (ip @ fd)) (x - int (length fd))))"

definition j_number :: "pystr \<Rightarrow> (json \<times> pystr) option" where
  "j_number s =
    (let neg = (case s of c # cs \<Rightarrow> c = 45 | [] \<Rightarrow> False);
         s1 = (if neg then tl s else s)
     in case s1 of
          [] \<Rightarrow> None
        | c # cs \<Rightarrow>
            if \<not> is_digit c then None
            else
              let ip = (if c = 48 then [48] else takeWhile is_digit s1);
                  s2 = (if c = 48 then cs else dropWhile is_digit s1)
              in (case j_frac s2 of (fp, s3) \<Rightarrow>
                   (case j_exp s3 of (ex, s4) \<Rightarrow> Some (number_value neg ip fp ex, s4))))"

definition j_word :: "string \<Rightarrow> pystr \<Rightarrow> pystr option" where
  "j_word w s = (if take (length w) s = lit w then Some (drop (length w) s) else None)"

text \<open>The values that are neither strings nor containers.\<close>

definition j_scalar :: "pystr \<Rightarrow> (json \<times> pystr) option" where
  "j_scalar s =
    (case j_word ''null'' s of Some r \<Rightarrow> Some (JNull, r) | None \<Rightarrow>
     case j_word ''true'' s of Some r \<Rightarrow> Some (JBool True, r) | None \<Rightarrow>
     case j_word ''false'' s of Some r \<Rightarrow> Some (JBool False, r) | None \<Rightarrow>
     case j_word ''NaN'' s of Some r \<Rightarrow> Some (JFloat NaN, r) | None \<Rightarrow>
     case j_word ''Infinity'' s of Some r \<Rightarrow> Some (JFloat (Infinity False), r) | None \<Rightarrow>
     case j_word ''-Infinity'' s of Some r \<Rightarrow> Some (JFloat (Infinity True), r) | None \<Rightarrow>
     j_number s)"

fun j_value :: "nat \<Rightarrow> pystr \<Rightarrow> (json \<times> pystr) option"
  and j_members :: "nat \<Rightarrow> pystr \<Rightarrow> ((pystr \<times> json) list \<times> pystr) option"
  and j_elements :: "nat \<Rightarrow> pystr \<Rightarrow> (json list \<times> pystr) option" where
  "j_value 0 s = None"
| "j_value (Suc n) s =
    (case s of
       [] \<Rightarrow> None
     | c # cs \<Rightarrow>
         if c = 34 then map_option (\<lambda>(x, r). (JStr x, r)) (j_string cs)
         else if c = 123 then
           (case j_ws cs of
              [] \<Rightarrow> None
            | d # ds \<Rightarrow> if d = 125 then Some (JObj [], ds)
                else map_option (\<lambda>(kvs, r). (JObj kvs, r)) (j_members n (d # ds)))
         else if c = 91 then
           (case j_ws cs of
              [] \<Rightarrow> None
            | d # ds \<Rightarrow> if d = 93 then Some (JList [], ds)
                else map_option (\<lambda>(xs, r). (JList xs, r)) (j_elements n (d # ds)))
         else j_scalar s)"
| "j_members 0 s = None"
| "j_members (Suc n) s =
    (case s of
       [] \<Rightarrow> None
     | q # qs \<Rightarrow>
         if q \<noteq> 34 then None
         else (case j_string qs of
             None \<Rightarrow> None
           | Some (k, r) \<Rightarrow>
               (case j_ws r of
                  [] \<Rightarrow> None
                | c # cs \<Rightarrow>
                    if c \<noteq> 58 then None
                    else (case j_value n (j_ws cs) of
                        None \<Rightarrow> None
                      | Some (v, r2) \<Rightarrow>
                          (case j_ws r2 of
                             [] \<Rightarrow> None
                           | d # ds \<Rightarrow>
                               if d = 125 then Some ([(k, v)], ds)
                               else if d = 44 then
                                 map_option (\<lambda>(kvs, r3). ((k, v) # kvs, r3)) (j_members n (j_ws ds))
                               else None)))))"
| "j_elements 0 s = None"
| "j_elements (Suc n) s =
    (case j_value n s of
       None \<Rightarrow> None
     | Some (v, r) \<Rightarrow>
         (case j_ws r of
            [] \<Rightarrow> None
          | d # ds \<Rightarrow>
              if d = 93 then Some ([v], ds)
              else if d = 44 then map_option (\<lambda>(vs, r2). (v # vs, r2)) (j_elements n (j_ws ds))
              else None))"

declare j_value.simps [simp del] j_members.simps [simp del] j_elements.simps [simp del]

definition json_loads :: "pystr \<Rightarrow> json option" where
  "json_loads s =
    (if take 1 s = [0xFEFF] then None
     else (case j_value (2 * length s + 1) (j_ws s) of
         None \<Rightarrow> None
       | Some (v, r) \<Rightarrow> if j_ws r = [] then Some v else None))"


section \<open>Writing\<close>

definition hex_digit :: "nat \<Rightarrow> nat" where
  "hex_digit n = (if n < 10 then 48 + n else 87 + n)"

definition u_escape :: "nat \<Rightarrow> pystr" where
  "u_escape u = [92, 117, hex_digit (u div 4096), hex_digit (u div 256 mod 16),
     hex_digit (u div 16 mod 16), hex_digit (u mod 16)]"

text \<open>\<open>ensure_ascii\<close> is on: everything outside printable ASCII is escaped.\<close>

definition esc_cp :: "nat \<Rightarrow> pystr" where
  "esc_cp c =
    (if c = 34 then [92, 34] else if c = 92 then [92, 92]
     else if c = 10 then [92, 110] else if c = 13 then [92, 114] else if c = 9 then [92, 116]
     else if c = 12 then [92, 102] else if c = 8 then [92, 98]
     else if 32 \<le> c \<and> c \<le> 126 then [c]
     else if c < 0x10000 then u_escape c
     else u_escape (0xD800 + (c - 0x10000) div 1024) @ u_escape (0xDC00 + (c - 0x10000) mod 1024))"

definition dumps_str :: "pystr \<Rightarrow> pystr" where
  "dumps_str s = 34 # concat (map esc_cp s) @ [34]"

datatype scalar = SStr pystr | SInt int

fun dumps_scalar :: "scalar \<Rightarrow> pystr" where
  "dumps_scalar (SStr s) = dumps_str s"
| "dumps_scalar (SInt n) = py_str_int n"

fun dumps_pairs :: "(pystr \<times> scalar) list \<Rightarrow> pystr" where
  "dumps_pairs [] = []"
| "dumps_pairs [(k, v)] = dumps_str k @ lit '': '' @ dumps_scalar v"
| "dumps_pairs ((k, v) # p # ps) = dumps_str k @ lit '': '' @ dumps_scalar v @ lit '', '' @ dumps_pairs (p # ps)"

definition json_dumps :: "(pystr \<times> scalar) list \<Rightarrow> pystr" where
  "json_dumps ps = lit ''{'' @ dumps_pairs ps @ lit ''}''"

section \<open>What is written is read back\<close>

lemma unhex_hex_digit: "n < 16 \<Longrightarrow> unhex (hex_digit n) = Some n"
  by (auto simp: unhex_def hex_digit_def)

lemma radix16: "(((u div 4096) * 16 + u div 256 mod 16) * 16 + u div 16 mod 16) * 16 + u mod 16 = (u :: nat)"
proof -
  have "u div 256 = u div 16 div 16" "u div 4096 = u div 16 div 16 div 16"
    by (simp_all add: div_mult2_eq [symmetric])
  then show ?thesis by (simp only: div_mult_mod_eq)
qed

lemma hex4_escape: "u < 0x10000 \<Longrightarrow>
  hex4 (hex_digit (u div 4096)) (hex_digit (u div 256 mod 16)) (hex_digit (u div 16 mod 16)) (hex_digit (u mod 16)) = Some u"
  using radix16 [of u] by (simp add: hex4_def unhex_hex_digit less_mult_imp_div_less)

lemma j_string_u_escape:
  "u < 0x10000 \<Longrightarrow> j_string (u_escape u @ t) =
    (case (if 0xD800 \<le> u \<and> u \<le> 0xDBFF then low_escape t else None) of
       Some lo \<Rightarrow> put_cp (join_surrogates u lo) (j_string (drop 6 t))
     | None \<Rightarrow> put_cp u (j_string t))"
  by (subst j_string.simps) (simp add: u_escape_def hex4_escape)

lemma low_escape_u: "0xDC00 \<le> u \<Longrightarrow> u \<le> 0xDFFF \<Longrightarrow> low_escape (u_escape u @ t) = Some u"
  by (simp add: u_escape_def hex4_escape)

lemma j_string_esc:
  assumes "encodable_cp c"
  shows "j_string (esc_cp c @ t) = put_cp c (j_string t)"
proof -
  consider "c < 127" | "127 \<le> c" "c < 0x10000" | "0x10000 \<le> c" by linarith
  then show ?thesis
  proof cases
    case 1
    then show ?thesis
      by (cases "c \<in> {34, 92, 10, 13, 9, 12, 8}"; cases "32 \<le> c")
         (auto simp: esc_cp_def j_escape_def j_string.simps [of "_ # _"] j_string_u_escape)
  next
    case 2
    with assms show ?thesis
      by (auto simp: esc_cp_def j_string_u_escape encodable_cp_def is_surrogate_def)
  next
    case 3
    let ?x = "c - 0x10000"
    have x: "?x div 1024 < 1024" "?x mod 1024 < 1024" "?x div 1024 * 1024 + ?x mod 1024 = ?x"
      using assms by (auto simp: encodable_cp_def less_mult_imp_div_less)
    have "join_surrogates (0xD800 + ?x div 1024) (0xDC00 + ?x mod 1024) = c"
      using x 3 by (simp add: join_surrogates_def)
    moreover have "esc_cp c = u_escape (0xD800 + ?x div 1024) @ u_escape (0xDC00 + ?x mod 1024)"
      using 3 by (simp add: esc_cp_def)
    moreover have "drop 6 (u_escape (0xDC00 + ?x mod 1024) @ t) = t"
      by (simp add: u_escape_def)
    ultimately show ?thesis
      using x by (simp add: j_string_u_escape low_escape_u)
  qed
qed

lemma j_string_dumps: "encodable s \<Longrightarrow> j_string (concat (map esc_cp s) @ 34 # r) = Some (s, r)"
proof (induction s)
  case Nil
  then show ?case by (simp add: j_string.simps [of "_ # _"])
next
  case (Cons c s)
  then show ?case by (simp add: j_string_esc put_cp_def encodable_def)
qed

lemma digits_nat_digits: "list_all is_digit (digits_nat n)" "digits_nat n \<noteq> []"
proof (induction n rule: digits_nat.induct)
  case (1 n)
  {
    case 1
    show ?case
      by (subst digits_nat.simps) (auto simp: is_digit_def "1.IH")
  next
    case 2
    show ?case by (subst digits_nat.simps) simp
  }
qed

lemma digits_value_snoc: "digits_value (ds @ [d]) = digits_value ds * 10 + (d - 48)"
  by (simp add: digits_value_def)

lemma digits_value_digits: "digits_value (digits_nat n) = n"
proof (induction n rule: digits_nat.induct)
  case (1 n)
  show ?case
  proof (cases "n < 10")
    case True
    then show ?thesis by (subst digits_nat.simps) (simp add: digits_value_def)
  next
    case False
    then show ?thesis by (subst digits_nat.simps) (simp add: digits_value_snoc "1.IH")
  qed
qed

lemma digits_nat_head: "hd (digits_nat n) = 48 \<longleftrightarrow> n = 0"
proof (induction n rule: digits_nat.induct)
  case (1 n)
  show ?case
    using "1.IH" digits_nat_digits(2) [of "n div 10"] by (subst digits_nat.simps) (auto simp: div_eq_0_iff)
qed

text \<open>The text behind a number: nothing that would continue it.\<close>

definition ends_number :: "pystr \<Rightarrow> bool" where
  "ends_number r \<longleftrightarrow> (case r of [] \<Rightarrow> True | c # cs \<Rightarrow> \<not> is_digit c \<and> c \<noteq> 46 \<and> c \<noteq> 101 \<and> c \<noteq> 69)"

lemma span_digits:
  assumes "list_all is_digit ds" "ends_number r"
  shows "takeWhile is_digit (ds @ r) = ds" "dropWhile is_digit (ds @ r) = r"
  using assms by (auto simp: list_all_iff ends_number_def takeWhile_append dropWhile_append split: list.splits)

lemma frac_exp_none: "ends_number r \<Longrightarrow> j_frac r = (None, r)" "ends_number r \<Longrightarrow> j_exp r = (None, r)"
  by (cases r rule: j_frac.cases; simp add: ends_number_def) (simp add: ends_number_def j_exp_def split: list.splits)

lemma j_number_digits:
  assumes "ends_number r"
  shows "j_number (digits_nat m @ r) = Some (JInt (int m), r)"
    and "j_number (45 # digits_nat m @ r) = Some (JInt (- int m), r)"
proof -
  obtain d ds where dd: "digits_nat m = d # ds" "is_digit d" "list_all is_digit ds"
    using digits_nat_digits [of m] by (cases "digits_nat m") auto
  have zero: "m = 0 \<and> ds = []" if "d = 48"
  proof -
    have "m = 0" using that digits_nat_head [of m] dd(1) by simp
    then show ?thesis using dd(1) digits_nat.simps [of 0] by simp
  qed
  have "d \<noteq> 45" using dd(2) by (auto simp: is_digit_def)
  have span: "takeWhile is_digit (d # ds @ r) = d # ds" "dropWhile is_digit (d # ds @ r) = r"
    using span_digits [of "d # ds" r] dd assms by simp_all
  have num: "digits_value (d # ds) = m" using digits_value_digits [of m] dd(1) by simp
  show "j_number (digits_nat m @ r) = Some (JInt (int m), r)" "j_number (45 # digits_nat m @ r) = Some (JInt (- int m), r)"
    using dd(1,2) zero span num \<open>d \<noteq> 45\<close> frac_exp_none [OF assms]
    by (cases "d = 48"; simp add: j_number_def number_value_def)+
qed

lemma j_word_other: "s \<noteq> [] \<Longrightarrow> w \<noteq> [] \<Longrightarrow> hd s \<noteq> of_char (hd w) \<Longrightarrow> j_word w s = None"
  by (cases s; cases w) (auto simp: j_word_def lit_def)

lemma j_scalar_int:
  assumes "ends_number r"
  shows "j_scalar (py_str_int n @ r) = Some (JInt n, r)"
proof -
  obtain d ds where dd: "digits_nat (nat \<bar>n\<bar>) = d # ds" "is_digit d"
    using digits_nat_digits [of "nat \<bar>n\<bar>"] by (cases "digits_nat (nat \<bar>n\<bar>)") auto
  show ?thesis
  proof (cases "n < 0")
    case True
    then have s: "py_str_int n @ r = 45 # d # ds @ r" using dd(1) by (simp add: py_str_int_def)
    have "j_number (45 # d # ds @ r) = Some (JInt n, r)"
      using j_number_digits(2) [OF assms, of "nat \<bar>n\<bar>"] dd(1) True by simp
    moreover have "j_word ''-Infinity'' (45 # d # ds @ r) = None"
      using dd(2) by (auto simp: j_word_def lit_def is_digit_def)
    ultimately show ?thesis unfolding s by (simp add: j_scalar_def j_word_other)
  next
    case False
    then have s: "py_str_int n @ r = d # ds @ r" using dd(1) by (simp add: py_str_int_def)
    have "j_number (d # ds @ r) = Some (JInt n, r)"
      using j_number_digits(1) [OF assms, of "nat \<bar>n\<bar>"] dd(1) False by simp
    moreover have "j_word w (d # ds @ r) = None" if "w \<noteq> []" "\<not> is_digit (of_char (hd w))" for w
      using that dd(2) by (intro j_word_other) auto
    ultimately show ?thesis unfolding s by (simp add: j_scalar_def is_digit_def)
  qed
qed

fun scalar_json :: "scalar \<Rightarrow> json" where
  "scalar_json (SStr s) = JStr s"
| "scalar_json (SInt n) = JInt n"

fun scalar_ok :: "scalar \<Rightarrow> bool" where
  "scalar_ok (SStr s) = encodable s"
| "scalar_ok (SInt n) = True"

lemma py_str_int_head: "py_str_int n @ r = c # cs \<Longrightarrow> c = 45 \<or> is_digit c"
  using digits_nat_digits [of "nat n"] by (cases "digits_nat (nat n)") (auto simp: py_str_int_def split: if_splits)

lemma j_value_scalar:
  assumes "scalar_ok v" "ends_number r"
  shows "j_value (Suc n) (dumps_scalar v @ r) = Some (scalar_json v, r)"
proof (cases v)
  case (SStr s)
  with assms show ?thesis by (simp add: j_value.simps dumps_str_def j_string_dumps)
next
  case (SInt i)
  obtain c cs where c: "py_str_int i @ r = c # cs"
    using digits_nat_digits(2) by (cases "py_str_int i @ r") (auto simp: py_str_int_def split: if_splits)
  have "c \<noteq> 34" "c \<noteq> 123" "c \<noteq> 91"
    using py_str_int_head [OF c] by (auto simp: is_digit_def)
  with j_scalar_int [OF assms(2), of i] c SInt show ?thesis by (simp add: j_value.simps)
qed

lemma j_ws_id: "s = [] \<or> \<not> j_space (hd s) \<Longrightarrow> j_ws s = s"
  by (cases s) (auto simp: j_ws_def)

lemma j_ws_space: "j_ws (32 # s) = j_ws s"
  by (simp add: j_ws_def j_space_def)

lemma dumps_scalar_head: "j_ws (dumps_scalar v @ r) = dumps_scalar v @ r"
proof (cases v)
  case (SInt i)
  obtain c cs where c: "py_str_int i @ r = c # cs"
    using digits_nat_digits(2) by (cases "py_str_int i @ r") (auto simp: py_str_int_def split: if_splits)
  with SInt py_str_int_head [OF c] show ?thesis by (simp add: j_ws_def j_space_def is_digit_def) auto
qed (simp add: dumps_str_def j_ws_def j_space_def)

lemma dumps_pairs_head: "p # ps \<noteq> [] \<Longrightarrow> \<exists>t. dumps_pairs (p # ps) = 34 # t"
  by (cases p; cases ps) (auto simp: dumps_str_def)

abbreviation pairs_json :: "(pystr \<times> scalar) list \<Rightarrow> (pystr \<times> json) list" where
  "pairs_json ps \<equiv> map (\<lambda>(k, v). (k, scalar_json v)) ps"

lemma j_members_dumps:
  "list_all (\<lambda>(k, v). encodable k \<and> scalar_ok v) ps \<Longrightarrow> ps \<noteq> [] \<Longrightarrow> length ps < n \<Longrightarrow>
   j_members n (dumps_pairs ps @ 125 # r) = Some (pairs_json ps, r)"
proof (induction ps arbitrary: n rule: dumps_pairs.induct)
  case (2 k v)
  then obtain m where n: "n = Suc (Suc m)" by (cases n; cases "n - 1") auto
  have e: "ends_number (125 # r)" by (simp add: ends_number_def is_digit_def)
  show ?case
    using 2 j_value_scalar [OF _ e, of v m]
    by (simp add: n j_members.simps(2) [of "Suc m"] dumps_str_def lit_def j_string_dumps j_ws_id j_ws_space j_space_def dumps_scalar_head)
next
  case (3 k v p ps)
  then obtain m where n: "n = Suc (Suc m)" by (cases n; cases "n - 1") auto
  let ?t = "dumps_pairs (p # ps) @ 125 # r"
  have e: "ends_number (44 # 32 # ?t)" by (simp add: ends_number_def is_digit_def)
  have ws: "j_ws (32 # ?t) = ?t"
    using dumps_pairs_head [of p ps] by (auto simp: j_ws_space j_ws_def j_space_def)
  have IH: "j_members (Suc m) ?t = Some (pairs_json (p # ps), r)"
    using 3 n by simp
  show ?case
    using 3 j_value_scalar [OF _ e, of v m] IH ws
    by (simp add: n j_members.simps(2) [of "Suc m"] dumps_str_def lit_def j_string_dumps j_ws_id j_ws_space j_space_def dumps_scalar_head)
qed simp

lemma length_dumps_pairs: "length ps \<le> length (dumps_pairs ps)"
  by (induction ps rule: dumps_pairs.induct) (auto simp: dumps_str_def lit_def)

lemma json_loads_dumps:
  assumes "list_all (\<lambda>(k, v). encodable k \<and> scalar_ok v) ps"
  shows "json_loads (json_dumps ps) = Some (JObj (pairs_json ps))"
proof -
  let ?s = "json_dumps ps"
  have s: "?s = 123 # dumps_pairs ps @ [125]" "j_ws ?s = ?s"
    by (simp_all add: json_dumps_def lit_def j_ws_def j_space_def)
  have "j_value (Suc (2 * length ?s)) ?s = Some (JObj (pairs_json ps), [])"
  proof (cases ps)
    case Nil
    then show ?thesis
      unfolding s(1) j_value.simps(2) by (simp add: j_ws_def j_space_def)
  next
    case (Cons p qs)
    obtain t where t: "dumps_pairs ps = 34 # t"
      using dumps_pairs_head [of p qs] Cons by auto
    have "length ps < 2 * length ?s" using length_dumps_pairs [of ps] by (simp add: s(1))
    then have "j_members (2 * length ?s) (34 # t @ [125]) = Some (pairs_json ps, [])"
      using j_members_dumps [OF assms, of "2 * length ?s" "[]"] Cons t by simp
    then show ?thesis
      unfolding j_value.simps(2) by (simp add: s(1) t j_ws_def j_space_def)
  qed
  then show ?thesis
    using s by (simp add: json_loads_def j_ws_def)
qed


section \<open>The fuel is enough\<close>

lemma j_ws_le: "length (j_ws s) \<le> length s"
  by (simp add: j_ws_def length_dropWhile_le)

lemma j_ws_cons: "j_ws s = c # cs \<Longrightarrow> length cs < length s"
  using j_ws_le [of s] by simp

lemma put_cp_some: "put_cp c m = Some (s, r) \<longleftrightarrow> (\<exists>s'. m = Some (s', r) \<and> s = c # s')"
  by (auto simp: put_cp_def)

lemma j_string_step:
  "j_string s = Some (x, r) \<Longrightarrow> length r < length s \<or> (\<exists>t y. length t < length s \<and> j_string t = Some (y, r))"
  by (subst (asm) j_string.simps) (fastforce simp: put_cp_some split: list.splits if_splits option.splits)

lemma j_string_shorter: "j_string s = Some (x, r) \<Longrightarrow> length r < length s"
proof (induction s arbitrary: x rule: measure_induct_rule [of length])
  case (less s)
  from j_string_step [OF less.prems] less.IH show ?case by (meson order_less_trans)
qed

lemma j_frac_le: "j_frac s = (f, r) \<Longrightarrow> length r \<le> length s"
  by (cases s rule: j_frac.cases) (auto split: if_splits intro: le_SucI length_dropWhile_le)

lemma j_exp_le: "j_exp s = (x, r) \<Longrightarrow> length r \<le> length s"
  using length_dropWhile_le [of is_digit]
  by (auto simp: j_exp_def exp_sign_def Let_def split: list.splits if_splits prod.splits intro: le_SucI order_trans)

lemma j_number_shorter: "j_number s = Some (v, r) \<Longrightarrow> length r < length s"
proof -
  assume num: "j_number s = Some (v, r)"
  define s1 where "s1 = (if (case s of c # cs \<Rightarrow> c = 45 | [] \<Rightarrow> False) then tl s else s)"
  obtain c cs where s1: "s1 = c # cs" "is_digit c"
    using num by (auto simp: j_number_def Let_def s1_def split: list.splits if_splits)
  define s2 where "s2 = (if c = 48 then cs else dropWhile is_digit s1)"
  have "length s2 < length s1"
    using s1 length_dropWhile_le [of is_digit cs] by (auto simp: s2_def)
  moreover have "length s1 \<le> length s" by (simp add: s1_def)
  moreover obtain f s3 x where "j_frac s2 = (f, s3)" "j_exp s3 = (x, r)"
    using num s1 unfolding j_number_def Let_def s1_def [symmetric] s2_def
    by (auto split: prod.splits)
  ultimately show ?thesis using j_frac_le j_exp_le by fastforce
qed

lemma j_word_shorter: "j_word w s = Some r \<Longrightarrow> w \<noteq> [] \<Longrightarrow> length r < length s"
  by (cases s; cases w) (auto simp: j_word_def lit_def split: if_splits)

lemma j_scalar_shorter: "j_scalar s = Some (v, r) \<Longrightarrow> length r < length s"
  unfolding j_scalar_def by (auto split: option.splits dest: j_number_shorter dest!: j_word_shorter)

lemma parse_shorter:
  "j_value n s = Some (v, r) \<Longrightarrow> length r < length s"
  "j_members n s = Some (kvs, r) \<Longrightarrow> length r < length s"
  "j_elements n s = Some (vs, r) \<Longrightarrow> length r < length s"
proof (induction n s and n s and n s arbitrary: v r and kvs r and vs r rule: j_value_j_members_j_elements.induct)
  case (2 n s)
  then show ?case
    by (fastforce simp: j_value.simps(2) split: list.splits if_splits dest: j_string_shorter j_scalar_shorter j_ws_cons)
next
  case (4 n s)
  then show ?case
    by (auto simp: j_members.simps(2) split: list.splits if_splits option.splits)
       (fastforce dest!: j_string_shorter j_ws_cons dest: order_less_le_trans [OF _ j_ws_le])+
next
  case (6 n s)
  then show ?case
    by (fastforce simp: j_elements.simps(2) split: list.splits if_splits option.splits dest!: j_ws_cons dest: order_less_le_trans [OF _ j_ws_le])
qed (simp_all add: j_value.simps j_members.simps j_elements.simps)

lemma fuel_step:
  "2 * length s < n \<Longrightarrow> j_value (Suc n) s = j_value n s"
  "2 * length s + 1 < n \<Longrightarrow> j_members (Suc n) s = j_members n s"
  "2 * length s + 1 < n \<Longrightarrow> j_elements (Suc n) s = j_elements n s"
proof (induction n arbitrary: s)
  case (Suc n)
  {
    case 1
    show ?case
    proof (cases s)
      case (Cons c cs)
      have "j_members (Suc n) (d # ds) = j_members n (d # ds)" "j_elements (Suc n) (d # ds) = j_elements n (d # ds)"
        if "j_ws cs = d # ds" for d ds
        using that 1 Cons j_ws_le [of cs] by (auto intro!: Suc.IH)
      then show ?thesis
        unfolding Cons j_value.simps(2) [of "Suc n" "c # cs"] j_value.simps(2) [of n "c # cs"] by (auto split: list.splits)
    qed (simp add: j_value.simps)
  next
    case 2
    show ?case
    proof (cases "\<exists>q qs k r c cs. s = q # qs \<and> j_string qs = Some (k, r) \<and> j_ws r = c # cs")
      case True
      then obtain q qs k r c cs where s: "s = q # qs" "j_string qs = Some (k, r)" "j_ws r = c # cs" by blast
      then have len: "length cs < length qs"
        using j_string_shorter [OF s(2)] j_ws_cons [OF s(3)] by simp
      have v: "j_value (Suc n) (j_ws cs) = j_value n (j_ws cs)"
        using 2 s len j_ws_le [of cs] by (intro Suc.IH(1)) simp
      have m: "j_members (Suc n) (j_ws ds) = j_members n (j_ws ds)"
        if "j_value n (j_ws cs) = Some (x, r2)" "j_ws r2 = d # ds" for x r2 d ds
        using parse_shorter(1) [OF that(1)] j_ws_cons [OF that(2)] j_ws_le [of cs] j_ws_le [of ds] 2 s len
        by (intro Suc.IH(2)) simp
      show ?thesis
        unfolding s(1) j_members.simps(2) [of "Suc n" "q # qs"] j_members.simps(2) [of n "q # qs"] using s v m by (auto split: option.splits list.splits)
    next
      case False
      then show ?thesis
        unfolding j_members.simps(2) [of "Suc n" s] j_members.simps(2) [of n s]
        by (auto split: list.splits option.splits)
    qed
  next
    case 3
    have v: "j_value (Suc n) s = j_value n s"
      using 3 by (intro Suc.IH(1)) simp
    have e: "j_elements (Suc n) (j_ws ds) = j_elements n (j_ws ds)"
      if "j_value n s = Some (x, r)" "j_ws r = d # ds" for x r d ds
      using parse_shorter(1) [OF that(1)] j_ws_cons [OF that(2)] j_ws_le [of ds] 3
      by (intro Suc.IH(3)) simp
    show ?case
      unfolding j_elements.simps(2) [of "Suc n" s] j_elements.simps(2) [of n s] using v e by (auto split: option.splits list.splits)
  }
qed simp_all

text \<open>Parsing with more fuel than \<open>json_loads\<close> gives changes nothing.\<close>

lemma json_fuel_enough: "2 * length s + 1 \<le> n \<Longrightarrow> j_value n s = j_value (2 * length s + 1) s"
  by (induction n rule: dec_induct) (simp_all add: fuel_step(1))

section \<open>Evaluating the parser\<close>

text \<open>The equations of the parser for a fuel that is a numeral, and strings without escapes.\<close>

lemma json_unfold:
  "0 < n \<Longrightarrow> j_value n s =
    (case s of
       [] \<Rightarrow> None
     | c # cs \<Rightarrow>
         if c = 34 then map_option (\<lambda>(x, r). (JStr x, r)) (j_string cs)
         else if c = 123 then
           (case j_ws cs of
              [] \<Rightarrow> None
            | d # ds \<Rightarrow> if d = 125 then Some (JObj [], ds)
                else map_option (\<lambda>(kvs, r). (JObj kvs, r)) (j_members (n - 1) (d # ds)))
         else if c = 91 then
           (case j_ws cs of
              [] \<Rightarrow> None
            | d # ds \<Rightarrow> if d = 93 then Some (JList [], ds)
                else map_option (\<lambda>(xs, r). (JList xs, r)) (j_elements (n - 1) (d # ds)))
         else j_scalar s)"
  "0 < n \<Longrightarrow> j_members n s =
    (case s of
       [] \<Rightarrow> None
     | q # qs \<Rightarrow>
         if q \<noteq> 34 then None
         else (case j_string qs of
             None \<Rightarrow> None
           | Some (k, r) \<Rightarrow>
               (case j_ws r of
                  [] \<Rightarrow> None
                | c # cs \<Rightarrow>
                    if c \<noteq> 58 then None
                    else (case j_value (n - 1) (j_ws cs) of
                        None \<Rightarrow> None
                      | Some (v, r2) \<Rightarrow>
                          (case j_ws r2 of
                             [] \<Rightarrow> None
                           | d # ds \<Rightarrow>
                               if d = 125 then Some ([(k, v)], ds)
                               else if d = 44 then
                                 map_option (\<lambda>(kvs, r3). ((k, v) # kvs, r3)) (j_members (n - 1) (j_ws ds))
                               else None)))))"
  using j_value.simps(2) [of "n - 1" s] j_members.simps(2) [of "n - 1" s] by simp_all

definition plain_cp :: "nat \<Rightarrow> bool" where
  "plain_cp c \<longleftrightarrow> 32 \<le> c \<and> c \<le> 126 \<and> c \<noteq> 34 \<and> c \<noteq> 92"

lemma j_string_plain: "list_all plain_cp s \<Longrightarrow> j_string (s @ 34 # r) = Some (s, r)"
proof -
  assume p: "list_all plain_cp s"
  then have "concat (map esc_cp s) = s" by (induction s) (simp_all add: plain_cp_def esc_cp_def)
  moreover have "encodable s" using p by (auto simp: encodable_def list_all_iff plain_cp_def encodable_cp_def is_surrogate_def)
  ultimately show ?thesis using j_string_dumps [of s r] by simp
qed

end
