(* ===== verification/Py_Codec.thy ===== *)
theory Py_Codec
  imports Py_Json
begin

text \<open>
  The other library functions of the HTTP client: base64 both ways, percent-encoding of
  a path segment, \<open>int\<close> of a string, and lower case as far as it decides the tests the
  client makes on it.
\<close>

section \<open>Base64\<close>

definition b64_char :: "nat \<Rightarrow> nat" where
  "b64_char n = (if n < 26 then 65 + n else if n < 52 then 71 + n else if n < 62 then n - 4
    else if n = 62 then 43 else 47)"

definition b64_index :: "nat \<Rightarrow> nat option" where
  "b64_index c = (if 65 \<le> c \<and> c \<le> 90 then Some (c - 65)
    else if 97 \<le> c \<and> c \<le> 122 then Some (c - 71)
    else if 48 \<le> c \<and> c \<le> 57 then Some (c + 4)
    else if c = 43 then Some 62 else if c = 47 then Some 63 else None)"

fun b64encode :: "nat list \<Rightarrow> pystr" where
  "b64encode [] = []"
| "b64encode [a] = [b64_char (a div 4), b64_char (a mod 4 * 16), 61, 61]"
| "b64encode [a, b] = [b64_char (a div 4), b64_char (a mod 4 * 16 + b div 16), b64_char (b mod 16 * 4), 61]"
| "b64encode (a # b # c # bs) =
    b64_char (a div 4) # b64_char (a mod 4 * 16 + b div 16) # b64_char (b mod 16 * 4 + c div 64)
      # b64_char (c mod 64) # b64encode bs"

text \<open>
  The lenient decoder: characters outside the alphabet are passed over; padding ends the
  data once it completes a group; an incomplete group is an error (\<open>None\<close>). The state is
  the place in the group, the bits left over, and the padding seen.
\<close>

fun b64_loop :: "pystr \<Rightarrow> nat \<Rightarrow> nat \<Rightarrow> nat \<Rightarrow> nat list option" where
  "b64_loop [] q left pads = (if q = 0 then Some [] else None)"
| "b64_loop (c # cs) q left pads =
    (if c = 61 then
       if q \<ge> 2 \<and> q + (pads + 1) \<ge> 4 then Some []
       else b64_loop cs q left (if q \<ge> 2 then pads + 1 else pads)
     else (case b64_index c of
         None \<Rightarrow> b64_loop cs q left pads
       | Some v \<Rightarrow>
           if q = 0 then b64_loop cs 1 v 0
           else if q = 1 then map_option ((#) (left * 4 + v div 16)) (b64_loop cs 2 (v mod 16) 0)
           else if q = 2 then map_option ((#) (left * 16 + v div 4)) (b64_loop cs 3 (v mod 4) 0)
           else map_option ((#) (left * 64 + v)) (b64_loop cs 0 0 0)))"

definition b64decode :: "pystr \<Rightarrow> nat list option" where
  "b64decode s = b64_loop s 0 0 0"

lemma b64_index_char: "n < 64 \<Longrightarrow> b64_index (b64_char n) = Some n"
  by (auto simp: b64_index_def b64_char_def)

lemma b64_char_not_pad: "b64_char n \<noteq> 61"
  by (auto simp: b64_char_def)

lemma b64_pad: "b64_loop (61 # cs) q left pads =
    (if q \<ge> 2 \<and> q + (pads + 1) \<ge> 4 then Some [] else b64_loop cs q left (if q \<ge> 2 then pads + 1 else pads))"
  by simp

lemma b64_value:
  "v < 64 \<Longrightarrow> b64_loop (b64_char v # cs) q left pads =
    (if q = 0 then b64_loop cs 1 v 0
     else if q = 1 then map_option ((#) (left * 4 + v div 16)) (b64_loop cs 2 (v mod 16) 0)
     else if q = 2 then map_option ((#) (left * 16 + v div 4)) (b64_loop cs 3 (v mod 4) 0)
     else map_option ((#) (left * 64 + v)) (b64_loop cs 0 0 0))"
  by (simp add: b64_char_not_pad b64_index_char)

lemma b64_parts:
  assumes "a < 256" "b < 256" "c < (256 :: nat)"
  shows "a div 4 < 64" "a mod 4 * 16 + b div 16 < 64" "b mod 16 * 4 + c div 64 < 64"
    "a mod 4 * 16 < 64" "b mod 16 * 4 < 64" "c mod 64 < 64"
    "a div 4 * 4 + (a mod 4 * 16 + b div 16) div 16 = a" "(a mod 4 * 16 + b div 16) mod 16 = b div 16"
    "b div 16 * 16 + (b mod 16 * 4 + c div 64) div 4 = b" "(b mod 16 * 4 + c div 64) mod 4 = c div 64"
    "a div 4 * 4 + a mod 4 * 16 div 16 = a" "b div 16 * 16 + b mod 16 * 4 div 4 = b"
    "c div 64 * 64 + c mod 64 = c" "b div 16 mod 16 = b div 16"
proof -
  have q: "a mod 4 < 4" "b div 16 < 16" "b mod 16 < 16" "c div 64 < 4"
    using assms by (simp_all add: less_mult_imp_div_less)
  show "a div 4 < 64" using assms by (simp add: less_mult_imp_div_less)
  show "a mod 4 * 16 + b div 16 < 64" "b mod 16 * 4 + c div 64 < 64" "a mod 4 * 16 < 64" "b mod 16 * 4 < 64"
    using q by linarith+
  show "c mod 64 < 64" "c div 64 * 64 + c mod 64 = c" "b div 16 mod 16 = b div 16" using q by simp_all
  show "a div 4 * 4 + (a mod 4 * 16 + b div 16) div 16 = a" "(a mod 4 * 16 + b div 16) mod 16 = b div 16"
    "b div 16 * 16 + (b mod 16 * 4 + c div 64) div 4 = b" "(b mod 16 * 4 + c div 64) mod 4 = c div 64"
    "a div 4 * 4 + a mod 4 * 16 div 16 = a" "b div 16 * 16 + b mod 16 * 4 div 4 = b"
    using q by (simp_all add: div_mult_self3)
qed

lemma b64_roundtrip: "list_all (\<lambda>b. b < 256) bs \<Longrightarrow> b64decode (b64encode bs) = Some bs"
  unfolding b64decode_def
proof (induction bs rule: b64encode.induct)
  case (2 a)
  then show ?case using b64_parts [of a 0 0] by (simp add: b64_value b64_pad del: b64_loop.simps(2))
next
  case (3 a b)
  then show ?case using b64_parts [of a b 0] by (simp add: b64_value b64_pad del: b64_loop.simps(2))
next
  case (4 a b c bs)
  then show ?case using b64_parts [of a b c] by (simp add: b64_value b64_pad del: b64_loop.simps(2))
qed simp


section \<open>Percent-encoding\<close>

text \<open>\<open>quote(s, safe="")\<close> keeps letters, digits and four marks and escapes every other byte.\<close>

definition unreserved :: "nat \<Rightarrow> bool" where
  "unreserved c \<longleftrightarrow> (65 \<le> c \<and> c \<le> 90) \<or> (97 \<le> c \<and> c \<le> 122) \<or> (48 \<le> c \<and> c \<le> 57)
     \<or> c = 95 \<or> c = 46 \<or> c = 45 \<or> c = 126"

definition hex_upper :: "nat \<Rightarrow> nat" where
  "hex_upper n = (if n < 10 then 48 + n else 55 + n)"

definition quote_byte :: "nat \<Rightarrow> pystr" where
  "quote_byte b = (if unreserved b then [b] else [37, hex_upper (b div 16), hex_upper (b mod 16)])"

definition quote_bytes :: "nat list \<Rightarrow> pystr" where
  "quote_bytes bs = concat (map quote_byte bs)"

text \<open>A server's reading of a path segment.\<close>

fun pct_decode :: "pystr \<Rightarrow> nat list option" where
  "pct_decode [] = Some []"
| "pct_decode (c # cs) =
    (if c = 37 then
       (case cs of
          h # l # r \<Rightarrow>
            (case (unhex h, unhex l) of
               (Some x, Some y) \<Rightarrow> map_option ((#) (x * 16 + y)) (pct_decode r)
             | _ \<Rightarrow> None)
        | _ \<Rightarrow> None)
     else map_option ((#) c) (pct_decode cs))"

lemma unhex_hex_upper: "n < 16 \<Longrightarrow> unhex (hex_upper n) = Some n"
  by (auto simp: unhex_def hex_upper_def)

lemma pct_decode_quote: "list_all (\<lambda>b. b < 256) bs \<Longrightarrow> pct_decode (quote_bytes bs) = Some bs"
proof (induction bs)
  case (Cons b bs)
  have "b div 16 < 16" using Cons.prems by (simp add: less_mult_imp_div_less)
  moreover have "\<not> unreserved 37" by (simp add: unreserved_def)
  ultimately show ?case
    using Cons by (auto simp: quote_bytes_def quote_byte_def unhex_hex_upper)
qed (simp add: quote_bytes_def)

lemma quote_bytes_chars: "list_all (\<lambda>b. b < 256) bs \<Longrightarrow> c \<in> set (quote_bytes bs) \<Longrightarrow> unreserved c \<or> c = 37"
proof (induction bs)
  case (Cons b bs)
  have "unreserved (hex_upper n)" if "n < 16" for n
    using that by (auto simp: unreserved_def hex_upper_def)
  moreover have "b div 16 < 16" using Cons.prems by (simp add: less_mult_imp_div_less)
  ultimately show ?case
    using Cons by (auto simp: quote_bytes_def quote_byte_def split: if_splits)
qed (simp add: quote_bytes_def)


section \<open>Integers from strings\<close>

text \<open>The zeros of the decimal digits of Unicode 14; nine digits follow each.\<close>

definition decimal_zeros :: "nat list" where
  "decimal_zeros = [0x30, 0x660, 0x6F0, 0x7C0, 0x966, 0x9E6, 0xA66, 0xAE6, 0xB66, 0xBE6, 0xC66, 0xCE6, 0xD66,
    0xDE6, 0xE50, 0xED0, 0xF20, 0x1040, 0x1090, 0x17E0, 0x1810, 0x1946, 0x19D0, 0x1A80, 0x1A90, 0x1B50, 0x1BB0,
    0x1C40, 0x1C50, 0xA620, 0xA8D0, 0xA900, 0xA9D0, 0xA9F0, 0xAA50, 0xABF0, 0xFF10, 0x104A0, 0x10D30, 0x11066,
    0x110F0, 0x11136, 0x111D0, 0x112F0, 0x11450, 0x114D0, 0x11650, 0x116C0, 0x11730, 0x118E0, 0x11950, 0x11C50,
    0x11D50, 0x11DA0, 0x16A60, 0x16AC0, 0x16B50, 0x1D7CE, 0x1D7D8, 0x1D7E2, 0x1D7EC, 0x1D7F6, 0x1E140, 0x1E2F0,
    0x1E950, 0x1FBF0]"

definition decimal_digit :: "nat \<Rightarrow> nat option" where
  "decimal_digit c = (case filter (\<lambda>z. z \<le> c \<and> c \<le> z + 9) decimal_zeros of [] \<Rightarrow> None | z # zs \<Rightarrow> Some (c - z))"

text \<open>\<open>int\<close> does not count the four separators among the ASCII controls as space.\<close>

definition int_space :: "nat \<Rightarrow> bool" where
  "int_space c \<longleftrightarrow> is_space c \<and> \<not> (28 \<le> c \<and> c \<le> 31)"

text \<open>Digits, single underscores between them; the flag says that a digit came last.\<close>

fun int_digits :: "pystr \<Rightarrow> bool \<Rightarrow> nat \<Rightarrow> nat option" where
  "int_digits [] after n = (if after then Some n else None)"
| "int_digits (c # cs) after n =
    (if c = 95 then if after then int_digits cs False n else None
     else (case decimal_digit c of None \<Rightarrow> None | Some d \<Rightarrow> int_digits cs True (n * 10 + d)))"

definition py_int_str :: "pystr \<Rightarrow> int option" where
  "py_int_str s =
    (let t = rev (dropWhile int_space (rev (dropWhile int_space s))) in
     case t of
       [] \<Rightarrow> None
     | c # cs \<Rightarrow>
         if c = 45 then map_option (\<lambda>n. - int n) (int_digits cs False 0)
         else if c = 43 then map_option int (int_digits cs False 0)
         else map_option int (int_digits t False 0))"


section \<open>Lower case\<close>

text \<open>
  \<open>lower\<close> on ASCII. Beyond ASCII only the Kelvin sign and the dotted capital I have lower
  cases with an ASCII letter (a k, and an i followed by a combining dot); no word the client
  looks for contains a k, or an i at its end or before anything but a letter.
\<close>

definition py_lower :: "pystr \<Rightarrow> pystr" where
  "py_lower s = map (\<lambda>c. if 65 \<le> c \<and> c \<le> 90 then c + 32 else c) s"

end
