(* ===== verification/Ditto_Types.thy ===== *)
theory Ditto_Types
  imports Py_Codec
begin

text \<open>
  The data types of \<open>types.py\<close>, the decoded-response containers of \<open>wire.py\<close>
  and the exceptions the client raises. The containers are here because the
  client turns a whole response into the text of an exception.
\<close>

section \<open>Error codes\<close>

datatype DittoErrorCode =
    NODE_INACTIVE
  | NO_QUORUM
  | KEY_NOT_FOUND
  | INTERNAL_ERROR
  | WRITE_TIMEOUT
  | VALUE_TOO_LARGE
  | KEY_LIMIT_REACHED
  | RATE_LIMITED
  | CIRCUIT_OPEN
  | NAMESPACE_QUOTA_EXCEEDED
  | AUTH_FAILED
  | UNSUPPORTED_REQUEST
  | TYPE_MISMATCH
  | OVERFLOW

text \<open>The value of each member of the \<open>str\<close> enumeration.\<close>

fun error_code_value :: "DittoErrorCode \<Rightarrow> string" where
  "error_code_value NODE_INACTIVE = ''NodeInactive''"
| "error_code_value NO_QUORUM = ''NoQuorum''"
| "error_code_value KEY_NOT_FOUND = ''KeyNotFound''"
| "error_code_value INTERNAL_ERROR = ''InternalError''"
| "error_code_value WRITE_TIMEOUT = ''WriteTimeout''"
| "error_code_value VALUE_TOO_LARGE = ''ValueTooLarge''"
| "error_code_value KEY_LIMIT_REACHED = ''KeyLimitReached''"
| "error_code_value RATE_LIMITED = ''RateLimited''"
| "error_code_value CIRCUIT_OPEN = ''CircuitOpen''"
| "error_code_value NAMESPACE_QUOTA_EXCEEDED = ''NamespaceQuotaExceeded''"
| "error_code_value AUTH_FAILED = ''AuthFailed''"
| "error_code_value UNSUPPORTED_REQUEST = ''UnsupportedRequest''"
| "error_code_value TYPE_MISMATCH = ''TypeMismatch''"
| "error_code_value OVERFLOW = ''Overflow''"

text \<open>The members in declaration order make the type enumerable.\<close>

definition all_error_codes :: "DittoErrorCode list" where
  "all_error_codes = [NODE_INACTIVE, NO_QUORUM, KEY_NOT_FOUND, INTERNAL_ERROR, WRITE_TIMEOUT,
     VALUE_TOO_LARGE, KEY_LIMIT_REACHED, RATE_LIMITED, CIRCUIT_OPEN, NAMESPACE_QUOTA_EXCEEDED,
     AUTH_FAILED, UNSUPPORTED_REQUEST, TYPE_MISMATCH, OVERFLOW]"

lemma all_error_codes_UNIV: "set all_error_codes = UNIV"
proof -
  have "c \<in> set all_error_codes" for c
    by (cases c) (simp_all add: all_error_codes_def)
  then show ?thesis by auto
qed

lemma distinct_all_error_codes: "distinct all_error_codes"
  by (simp add: all_error_codes_def)

instantiation DittoErrorCode :: enum
begin

definition enum_DittoErrorCode :: "DittoErrorCode list" where
  "enum_DittoErrorCode = all_error_codes"

definition enum_all_DittoErrorCode :: "(DittoErrorCode \<Rightarrow> bool) \<Rightarrow> bool" where
  "enum_all_DittoErrorCode P = list_all P all_error_codes"

definition enum_ex_DittoErrorCode :: "(DittoErrorCode \<Rightarrow> bool) \<Rightarrow> bool" where
  "enum_ex_DittoErrorCode P = list_ex P all_error_codes"

instance
  by standard
     (auto simp: enum_DittoErrorCode_def enum_all_DittoErrorCode_def enum_ex_DittoErrorCode_def
        all_error_codes_UNIV distinct_all_error_codes list_all_iff list_ex_iff)

end

text \<open>No two codes share a value, so a value names its code.\<close>

lemma error_code_value_inj: "error_code_value c = error_code_value d \<Longrightarrow> c = d"
  by (cases c; cases d) simp_all


section \<open>Results of the public operations\<close>

text \<open>
  The annotations of a data class are not enforced. Where the HTTP client stores a value of
  the JSON body as it came, the type of the field is a parameter.
\<close>

record 'v DittoGetResult =
  get_value :: bytes
  get_version :: 'v

record 'v DittoSetResult =
  set_version :: 'v

record 'v DittoDeleteByPatternResult =
  dbp_deleted :: 'v

record 'v DittoSetTtlByPatternResult =
  stbp_updated :: 'v

record DittoSetNxResult =
  snx_created :: bool
  snx_version :: int

record DittoCounterResult =
  ctr_value :: int
  ctr_version :: int

record DittoWatchEvent =
  we_key :: pystr
  we_value :: "bytes option"
  we_version :: int


record DittoStatsResult =
  st_node_id :: json
  st_status :: json
  st_is_primary :: json
  st_committed_index :: json
  st_key_count :: json
  st_memory_used_bytes :: json
  st_memory_max_bytes :: json
  st_evictions :: json
  st_hit_count :: json
  st_miss_count :: json
  st_uptime_secs :: json
  st_value_size_limit_bytes :: json
  st_max_keys_limit :: json
  st_compression_enabled :: json
  st_compression_threshold_bytes :: json
  st_node_name :: json
  st_backup_dir_bytes :: json


section \<open>Decoded responses\<close>

text \<open>
  One constructor per container class. The containers carry a type name as their
  first field; it is the same for every value of a class, except for \<open>Simple\<close>,
  whose only content it is.
\<close>

datatype ClientResponse =
    RValue pystr bytes int
  | ROk int
  | RSimple string
  | RError DittoErrorCode pystr
  | RWatchEvent pystr "bytes option" int
  | RPatternDeleted int
  | RPatternTtlUpdated int
  | RSetNx bool int
  | RCounter int int

fun resp_type :: "ClientResponse \<Rightarrow> string" where
  "resp_type (RValue key value version) = ''Value''"
| "resp_type (ROk version) = ''Ok''"
| "resp_type (RSimple type) = type"
| "resp_type (RError code message) = ''Error''"
| "resp_type (RWatchEvent key value version) = ''WatchEvent''"
| "resp_type (RPatternDeleted deleted) = ''PatternDeleted''"
| "resp_type (RPatternTtlUpdated updated) = ''PatternTtlUpdated''"
| "resp_type (RSetNx created version) = ''SetNx''"
| "resp_type (RCounter value version) = ''Counter''"


section \<open>Exceptions\<close>

text \<open>
  The message of an exception is a text, \<open>str(resp)\<close> of a decoded response, which is
  kept as the response itself, or a value of a JSON body. The code of a \<open>DittoError\<close> is a
  member of the enumeration or the text the server sent.
\<close>

datatype exc_text = Text pystr | StrOf ClientResponse | JsonValue json

datatype err_code = Code DittoErrorCode | CodeText pystr

text \<open>
  \<open>OSError\<close> carries the \<open>errno\<close> attribute (\<open>None\<close> for a timeout);
  \<open>ConnectionError\<close> is the subclass of \<open>OSError\<close> the client raises itself.
  \<open>UnicodeEncodeError\<close>, \<open>UnicodeDecodeError\<close>, \<open>JSONDecodeError\<close> and
  \<open>binascii.Error\<close> are subclasses of \<open>ValueError\<close>.
\<close>

datatype py_exc =
    ValueError pystr
  | UnicodeEncodeError
  | UnicodeDecodeError
  | JSONDecodeError
  | BinasciiError
  | TypeError
  | KeyError
  | OverflowError
  | StructError
  | IndexError
  | AssertionError
  | AttributeError
  | RuntimeError pystr
  | OSError "int option"
  | ConnectionError pystr
  | DittoError err_code exc_text

type_synonym 'a result = "py_exc + 'a"

text \<open>\<open>except (OSError, ConnectionError)\<close>\<close>

fun is_os_error :: "py_exc \<Rightarrow> bool" where
  "is_os_error (OSError e) = True"
| "is_os_error (ConnectionError m) = True"
| "is_os_error _ = False"

text \<open>\<open>except ValueError\<close>\<close>

fun is_value_error :: "py_exc \<Rightarrow> bool" where
  "is_value_error (ValueError m) = True"
| "is_value_error UnicodeEncodeError = True"
| "is_value_error UnicodeDecodeError = True"
| "is_value_error JSONDecodeError = True"
| "is_value_error BinasciiError = True"
| "is_value_error _ = False"

text \<open>\<open>str.encode("utf-8")\<close> and \<open>bytes.decode("utf-8")\<close> with their exceptions.\<close>

definition py_encode :: "pystr \<Rightarrow> bytes result" where
  "py_encode s = (if encodable s then Inr (utf8_bytes s) else Inl UnicodeEncodeError)"

definition py_decode :: "bytes \<Rightarrow> pystr result" where
  "py_decode bs = (case utf8_decode_opt bs of None \<Rightarrow> Inl UnicodeDecodeError | Some s \<Rightarrow> Inr s)"

lemma py_encode_encodable [simp]: "encodable s \<Longrightarrow> py_encode s = Inr (utf8_bytes s)"
  by (simp add: py_encode_def)

lemma py_decode_utf8_bytes [simp]: "encodable s \<Longrightarrow> py_decode (utf8_bytes s) = Inr s"
  by (simp add: py_decode_def utf8_roundtrip)

interpretation utf8: codec encodable py_encode py_decode
  by unfold_locales (auto simp: py_encode_def)


text \<open>A value to store is a text or bytes.\<close>

datatype py_value = StrVal pystr | BytesVal bytes

definition raw_value :: "py_value \<Rightarrow> bytes result" where
  "raw_value v = (case v of StrVal s \<Rightarrow> py_encode s | BytesVal b \<Rightarrow> Inr b)"


section \<open>Methods\<close>

text \<open>A method: its result or exception, and the state it leaves.\<close>

type_synonym ('s, 'a) meth = "'s \<Rightarrow> 'a result \<times> 's"

definition thenS :: "('s, 'a) meth \<Rightarrow> ('a \<Rightarrow> ('s, 'b) meth) \<Rightarrow> ('s, 'b) meth" where
  "thenS m f s = (case m s of (Inl e, s') \<Rightarrow> (Inl e, s') | (Inr x, s') \<Rightarrow> f x s')"

definition raiseS :: "py_exc \<Rightarrow> ('s, 'a) meth" where
  "raiseS e s = (Inl e, s)"

definition returnS :: "'a \<Rightarrow> ('s, 'a) meth" where
  "returnS x s = (Inr x, s)"

definition liftR :: "'a result \<Rightarrow> ('s, 'a) meth" where
  "liftR r s = (r, s)"

end
