(* ===== verification/Wire_Const.thy ===== *)
theory Wire_Const
  imports Ditto_Types
begin

text \<open>
  The numbers of \<open>wire.py\<close>: protocol version, field numbers of the envelope,
  of the request and response variants and of the inner messages, wire types,
  and the table of error codes.
\<close>

subsection \<open>Protocol version\<close>

definition PROTOCOL_VERSION :: int where [wire_const]: "PROTOCOL_VERSION = 1"

subsection \<open>Envelope\<close>

definition ENV_VERSION :: int where [wire_const]: "ENV_VERSION = 1"

definition ENV_CLIENT_REQUEST :: int where [wire_const]: "ENV_CLIENT_REQUEST = 2"

definition ENV_CLIENT_RESPONSE :: int where [wire_const]: "ENV_CLIENT_RESPONSE = 3"

subsection \<open>Variants of \<open>ClientRequest\<close>\<close>

definition REQ_GET :: int where [wire_const]: "REQ_GET = 1"

definition REQ_SET :: int where [wire_const]: "REQ_SET = 2"

definition REQ_DELETE :: int where [wire_const]: "REQ_DELETE = 3"

definition REQ_PING :: int where [wire_const]: "REQ_PING = 4"

definition REQ_AUTH :: int where [wire_const]: "REQ_AUTH = 5"

definition REQ_WATCH :: int where [wire_const]: "REQ_WATCH = 6"

definition REQ_UNWATCH :: int where [wire_const]: "REQ_UNWATCH = 7"

definition REQ_DELETE_BY_PATTERN :: int where [wire_const]: "REQ_DELETE_BY_PATTERN = 8"

definition REQ_SET_TTL_BY_PATTERN :: int where [wire_const]: "REQ_SET_TTL_BY_PATTERN = 9"

definition REQ_SET_NX :: int where [wire_const]: "REQ_SET_NX = 10"

definition REQ_INCR :: int where [wire_const]: "REQ_INCR = 11"

subsection \<open>Variants of \<open>ClientResponse\<close>\<close>

definition RESP_VALUE :: int where [wire_const]: "RESP_VALUE = 1"

definition RESP_OK :: int where [wire_const]: "RESP_OK = 2"

definition RESP_DELETED :: int where [wire_const]: "RESP_DELETED = 3"

definition RESP_NOT_FOUND :: int where [wire_const]: "RESP_NOT_FOUND = 4"

definition RESP_PONG :: int where [wire_const]: "RESP_PONG = 5"

definition RESP_AUTH_OK :: int where [wire_const]: "RESP_AUTH_OK = 6"

definition RESP_ERROR :: int where [wire_const]: "RESP_ERROR = 7"

definition RESP_WATCHING :: int where [wire_const]: "RESP_WATCHING = 8"

definition RESP_UNWATCHED :: int where [wire_const]: "RESP_UNWATCHED = 9"

definition RESP_WATCH_EVENT :: int where [wire_const]: "RESP_WATCH_EVENT = 10"

definition RESP_PATTERN_DELETED :: int where [wire_const]: "RESP_PATTERN_DELETED = 11"

definition RESP_PATTERN_TTL_UPDATED :: int where [wire_const]: "RESP_PATTERN_TTL_UPDATED = 12"

definition RESP_SET_NX :: int where [wire_const]: "RESP_SET_NX = 13"

definition RESP_COUNTER :: int where [wire_const]: "RESP_COUNTER = 14"

subsection \<open>Wire types\<close>

definition WT_VARINT :: int where [wire_const]: "WT_VARINT = 0"

definition WT_LD :: int where [wire_const]: "WT_LD = 2"

subsection \<open>Fields of the inner messages\<close>

definition KN_KEY :: int where [wire_const]: "KN_KEY = 1"

definition KN_NAMESPACE :: int where [wire_const]: "KN_NAMESPACE = 2"

definition PN_PATTERN :: int where [wire_const]: "PN_PATTERN = 1"

definition PN_NAMESPACE :: int where [wire_const]: "PN_NAMESPACE = 2"

definition SR_KEY :: int where [wire_const]: "SR_KEY = 1"

definition SR_VALUE :: int where [wire_const]: "SR_VALUE = 2"

definition SR_TTL_SECS :: int where [wire_const]: "SR_TTL_SECS = 3"

definition SR_NAMESPACE :: int where [wire_const]: "SR_NAMESPACE = 4"

definition STBP_PATTERN :: int where [wire_const]: "STBP_PATTERN = 1"

definition STBP_TTL_SECS :: int where [wire_const]: "STBP_TTL_SECS = 2"

definition STBP_NAMESPACE :: int where [wire_const]: "STBP_NAMESPACE = 3"

definition INCR_KEY :: int where [wire_const]: "INCR_KEY = 1"

definition INCR_DELTA :: int where [wire_const]: "INCR_DELTA = 2"

definition INCR_TTL_SECS_ON_CREATE :: int where [wire_const]: "INCR_TTL_SECS_ON_CREATE = 3"

definition INCR_NAMESPACE :: int where [wire_const]: "INCR_NAMESPACE = 4"

definition SNX_CREATED :: int where [wire_const]: "SNX_CREATED = 1"

definition SNX_VERSION :: int where [wire_const]: "SNX_VERSION = 2"

definition CTR_VALUE :: int where [wire_const]: "CTR_VALUE = 1"

definition CTR_VERSION :: int where [wire_const]: "CTR_VERSION = 2"

definition AUTH_TOKEN :: int where [wire_const]: "AUTH_TOKEN = 1"

definition VAL_KEY :: int where [wire_const]: "VAL_KEY = 1"

definition VAL_VALUE :: int where [wire_const]: "VAL_VALUE = 2"

definition VAL_VERSION :: int where [wire_const]: "VAL_VERSION = 3"

definition VR_VERSION :: int where [wire_const]: "VR_VERSION = 1"

definition ERR_CODE :: int where [wire_const]: "ERR_CODE = 1"

definition ERR_MESSAGE :: int where [wire_const]: "ERR_MESSAGE = 2"

definition WE_KEY :: int where [wire_const]: "WE_KEY = 1"

definition WE_VALUE :: int where [wire_const]: "WE_VALUE = 2"

definition WE_VERSION :: int where [wire_const]: "WE_VERSION = 3"

definition COUNT_FIELD :: int where [wire_const]: "COUNT_FIELD = 1"

definition OPT_VALUE :: int where [wire_const]: "OPT_VALUE = 1"

subsection \<open>Error codes by wire number\<close>

definition ERROR_CODE_NAMES :: "DittoErrorCode list" where
  "ERROR_CODE_NAMES = [
     NODE_INACTIVE,
     NO_QUORUM,
     KEY_NOT_FOUND,
     INTERNAL_ERROR,
     WRITE_TIMEOUT,
     VALUE_TOO_LARGE,
     KEY_LIMIT_REACHED,
     RATE_LIMITED,
     CIRCUIT_OPEN,
     NAMESPACE_QUOTA_EXCEEDED,
     AUTH_FAILED,
     UNSUPPORTED_REQUEST,
     TYPE_MISMATCH,
     OVERFLOW]"

lemma ERROR_CODE_NAMES_complete: "ERROR_CODE_NAMES = Enum.enum"
  by (simp add: ERROR_CODE_NAMES_def enum_DittoErrorCode_def all_error_codes_def)

lemma length_ERROR_CODE_NAMES [simp]: "length ERROR_CODE_NAMES = 14"
  by (simp add: ERROR_CODE_NAMES_def)

lemma REQ_positive [simp]:
  "0 < REQ_GET" "0 < REQ_SET" "0 < REQ_DELETE" "0 < REQ_PING" "0 < REQ_AUTH" "0 < REQ_WATCH"
  "0 < REQ_UNWATCH" "0 < REQ_DELETE_BY_PATTERN" "0 < REQ_SET_TTL_BY_PATTERN" "0 < REQ_SET_NX"
  "0 < REQ_INCR"
  by (simp_all add: wire_const)

end
