(* ===== verification/Wire_Encode.thy ===== *)
theory Wire_Encode
  imports Wire_Const
begin

text \<open>
  The encoding half of \<open>wire.py\<close>: varints, fields, inner messages, request
  frames and the frame builders of the server side, each returning its bytes or
  the exception it raises.
\<close>

section \<open>Low-level encoders\<close>

function encode_varint_loop :: "int \<Rightarrow> bytes \<Rightarrow> bytes" where
  "encode_varint_loop value out =
    (if value \<ge> 0x80
     then encode_varint_loop (drop_bit 7 value) (out @ [word_of_int ((value AND 0x7F) OR 0x80)])
     else out @ [word_of_int value])"
  by pat_completeness auto
termination
  by (relation "measure (\<lambda>(v, out). nat v)") (auto simp: drop_bit_eq_div)

declare encode_varint_loop.simps [simp del]

definition encode_varint :: "int \<Rightarrow> bytes result" where
  "encode_varint value =
    (if value < 0 then Inl (ValueError (lit ''negative varint not supported''))
     else Inr (encode_varint_loop value []))"

definition encode_tag :: "int \<Rightarrow> int \<Rightarrow> bytes result" where
  "encode_tag field wire = encode_varint (push_bit 3 field OR wire)"

definition ld_field_always :: "int \<Rightarrow> bytes \<Rightarrow> bytes result" where
  "ld_field_always field payload =
    bindR (encode_tag field WT_LD) (\<lambda>tag.
    bindR (encode_varint (int (length payload))) (\<lambda>len. Inr (tag @ len @ payload)))"

definition ld_field :: "int \<Rightarrow> bytes \<Rightarrow> bytes result" where
  "ld_field field payload =
    (if payload = [] then Inr []
     else bindR (encode_tag field WT_LD) (\<lambda>tag.
       bindR (encode_varint (int (length payload))) (\<lambda>len. Inr (tag @ len @ payload))))"

definition string_field :: "int \<Rightarrow> pystr \<Rightarrow> bytes result" where
  "string_field field value =
    (if value = [] then Inr []
     else bindR (py_encode value) (\<lambda>raw.
       bindR (encode_tag field WT_LD) (\<lambda>tag.
       bindR (encode_varint (int (length raw))) (\<lambda>len. Inr (tag @ len @ raw)))))"

definition bytes_field :: "int \<Rightarrow> bytes \<Rightarrow> bytes result" where
  "bytes_field field value =
    (if value = [] then Inr []
     else bindR (encode_tag field WT_LD) (\<lambda>tag.
       bindR (encode_varint (int (length value))) (\<lambda>len. Inr (tag @ len @ value))))"

definition uint64_field :: "int \<Rightarrow> int \<Rightarrow> bytes result" where
  "uint64_field field value =
    (if value = 0 then Inr []
     else bindR (encode_tag field WT_VARINT) (\<lambda>tag.
       bindR (encode_varint value) (\<lambda>v. Inr (tag @ v))))"

definition int64_field :: "int \<Rightarrow> int \<Rightarrow> bytes result" where
  "int64_field field value =
    bindR (encode_tag field WT_VARINT) (\<lambda>tag.
    bindR (encode_varint (value AND 0xFFFFFFFFFFFFFFFF)) (\<lambda>v. Inr (tag @ v)))"

definition enum_field :: "int \<Rightarrow> int \<Rightarrow> bytes result" where
  "enum_field field value =
    (if value = 0 then Inr []
     else bindR (encode_tag field WT_VARINT) (\<lambda>tag.
       bindR (encode_varint value) (\<lambda>v. Inr (tag @ v))))"


section \<open>Inner messages\<close>

text \<open>\<open>b"".join(parts)\<close>, the parts being computed from left to right.\<close>

fun join_parts :: "bytes result list \<Rightarrow> bytes result" where
  "join_parts [] = Inr []"
| "join_parts (p # ps) = bindR p (\<lambda>b. bindR (join_parts ps) (\<lambda>bs. Inr (b @ bs)))"

definition encode_optional_string :: "pystr \<Rightarrow> bytes result" where
  "encode_optional_string value = string_field OPT_VALUE value"

definition encode_optional_uint64 :: "int \<Rightarrow> bytes result" where
  "encode_optional_uint64 value = uint64_field OPT_VALUE value"

definition has_namespace :: "pystr option \<Rightarrow> bool" where
  "has_namespace ns = (case ns of None \<Rightarrow> False | Some s \<Rightarrow> py_strip s \<noteq> [])"

text \<open>The optional namespace part that four request messages append.\<close>

definition namespace_part :: "int \<Rightarrow> pystr option \<Rightarrow> bytes result list" where
  "namespace_part field ns =
    (if has_namespace ns then [bindR (encode_optional_string (the ns)) (ld_field field)] else [])"

text \<open>The optional time-to-live part that three request messages append.\<close>

definition ttl_part :: "int \<Rightarrow> int \<Rightarrow> bytes result list" where
  "ttl_part field ttl_secs =
    (if ttl_secs > 0 then [bindR (encode_optional_uint64 ttl_secs) (ld_field field)] else [])"

definition encode_key_namespace :: "pystr \<Rightarrow> pystr option \<Rightarrow> bytes result" where
  "encode_key_namespace key ns =
    join_parts ([string_field KN_KEY key] @ namespace_part KN_NAMESPACE ns)"

definition encode_pattern_namespace :: "pystr \<Rightarrow> pystr option \<Rightarrow> bytes result" where
  "encode_pattern_namespace pattern ns =
    join_parts ([string_field PN_PATTERN pattern] @ namespace_part PN_NAMESPACE ns)"

definition encode_set_request :: "pystr \<Rightarrow> bytes \<Rightarrow> int \<Rightarrow> pystr option \<Rightarrow> bytes result" where
  "encode_set_request key value ttl_secs ns =
    join_parts ([string_field SR_KEY key, bytes_field SR_VALUE value]
      @ ttl_part SR_TTL_SECS ttl_secs
      @ namespace_part SR_NAMESPACE ns)"

definition encode_incr_request :: "pystr \<Rightarrow> int \<Rightarrow> int \<Rightarrow> pystr option \<Rightarrow> bytes result" where
  "encode_incr_request key delta ttl_secs_on_create ns =
    join_parts ([string_field INCR_KEY key, int64_field INCR_DELTA delta]
      @ ttl_part INCR_TTL_SECS_ON_CREATE ttl_secs_on_create
      @ namespace_part INCR_NAMESPACE ns)"

definition encode_set_ttl_by_pattern_request :: "pystr \<Rightarrow> int \<Rightarrow> pystr option \<Rightarrow> bytes result" where
  "encode_set_ttl_by_pattern_request pattern ttl_secs ns =
    join_parts ([string_field STBP_PATTERN pattern]
      @ ttl_part STBP_TTL_SECS ttl_secs
      @ namespace_part STBP_NAMESPACE ns)"

definition encode_auth_request :: "pystr \<Rightarrow> bytes result" where
  "encode_auth_request token = string_field AUTH_TOKEN token"


section \<open>Frames\<close>

text \<open>\<open>struct.pack(">I", n)\<close> and \<open>struct.unpack(">I", header)\<close>\<close>

definition pack_be32 :: "int \<Rightarrow> bytes result" where
  "pack_be32 n =
    (if 0 \<le> n \<and> n < 2 ^ 32
     then Inr [word_of_int (drop_bit 24 n), word_of_int (drop_bit 16 n), word_of_int (drop_bit 8 n),
               word_of_int n]
     else Inl StructError)"

fun unpack_be32 :: "bytes \<Rightarrow> int result" where
  "unpack_be32 [a, b, c, d] =
    Inr (uint a * 16777216 + uint b * 65536 + uint c * 256 + uint d)"
| "unpack_be32 _ = Inl StructError"

definition wrap_client_request :: "int \<Rightarrow> bytes \<Rightarrow> bytes result" where
  "wrap_client_request variant_field inner =
    bindR (ld_field_always variant_field inner) (\<lambda>request_bytes.
    bindR (enum_field ENV_VERSION PROTOCOL_VERSION) (\<lambda>v.
    bindR (ld_field_always ENV_CLIENT_REQUEST request_bytes) (\<lambda>r.
    let envelope_bytes = v @ r in
    bindR (pack_be32 (int (length envelope_bytes))) (\<lambda>hdr. Inr (hdr @ envelope_bytes)))))"

definition encode_get :: "pystr \<Rightarrow> pystr option \<Rightarrow> bytes result" where
  "encode_get key ns = bindR (encode_key_namespace key ns) (wrap_client_request REQ_GET)"

definition encode_set :: "pystr \<Rightarrow> bytes \<Rightarrow> int \<Rightarrow> pystr option \<Rightarrow> bytes result" where
  "encode_set key value ttl_secs ns =
    bindR (encode_set_request key value ttl_secs ns) (wrap_client_request REQ_SET)"

definition encode_delete :: "pystr \<Rightarrow> pystr option \<Rightarrow> bytes result" where
  "encode_delete key ns = bindR (encode_key_namespace key ns) (wrap_client_request REQ_DELETE)"

definition encode_set_nx :: "pystr \<Rightarrow> bytes \<Rightarrow> int \<Rightarrow> pystr option \<Rightarrow> bytes result" where
  "encode_set_nx key value ttl_secs ns =
    bindR (encode_set_request key value ttl_secs ns) (wrap_client_request REQ_SET_NX)"

definition encode_incr :: "pystr \<Rightarrow> int \<Rightarrow> int \<Rightarrow> pystr option \<Rightarrow> bytes result" where
  "encode_incr key delta ttl_secs_on_create ns =
    bindR (encode_incr_request key delta ttl_secs_on_create ns) (wrap_client_request REQ_INCR)"

definition encode_ping :: "bytes result" where
  "encode_ping = wrap_client_request REQ_PING []"

definition encode_auth :: "pystr \<Rightarrow> bytes result" where
  "encode_auth token = bindR (encode_auth_request token) (wrap_client_request REQ_AUTH)"

definition encode_watch :: "pystr \<Rightarrow> pystr option \<Rightarrow> bytes result" where
  "encode_watch key ns = bindR (encode_key_namespace key ns) (wrap_client_request REQ_WATCH)"

definition encode_unwatch :: "pystr \<Rightarrow> pystr option \<Rightarrow> bytes result" where
  "encode_unwatch key ns = bindR (encode_key_namespace key ns) (wrap_client_request REQ_UNWATCH)"

definition encode_delete_by_pattern :: "pystr \<Rightarrow> pystr option \<Rightarrow> bytes result" where
  "encode_delete_by_pattern pattern ns =
    bindR (encode_pattern_namespace pattern ns) (wrap_client_request REQ_DELETE_BY_PATTERN)"

definition encode_set_ttl_by_pattern :: "pystr \<Rightarrow> int \<Rightarrow> pystr option \<Rightarrow> bytes result" where
  "encode_set_ttl_by_pattern pattern ttl_secs ns =
    bindR (encode_set_ttl_by_pattern_request pattern ttl_secs ns)
      (wrap_client_request REQ_SET_TTL_BY_PATTERN)"


section \<open>Frames of the server side\<close>

definition frame_client_response :: "int \<Rightarrow> bytes \<Rightarrow> bytes result" where
  "frame_client_response variant_field inner =
    bindR (ld_field_always variant_field inner) (\<lambda>response_bytes.
    bindR (enum_field ENV_VERSION PROTOCOL_VERSION) (\<lambda>v.
    bindR (ld_field_always ENV_CLIENT_RESPONSE response_bytes) (\<lambda>r.
    let envelope_bytes = v @ r in
    bindR (pack_be32 (int (length envelope_bytes))) (\<lambda>hdr. Inr (hdr @ envelope_bytes)))))"

definition encode_error_response_inner :: "int \<Rightarrow> pystr \<Rightarrow> bytes result" where
  "encode_error_response_inner code_idx message =
    join_parts [enum_field ERR_CODE code_idx, string_field ERR_MESSAGE message]"

definition encode_version_response_inner :: "int \<Rightarrow> bytes result" where
  "encode_version_response_inner version = uint64_field VR_VERSION version"

definition encode_set_nx_response_inner :: "bool \<Rightarrow> int \<Rightarrow> bytes result" where
  "encode_set_nx_response_inner created version =
    join_parts [uint64_field SNX_CREATED (if created then 1 else 0), uint64_field SNX_VERSION version]"

definition encode_counter_response_inner :: "int \<Rightarrow> int \<Rightarrow> bytes result" where
  "encode_counter_response_inner value version =
    join_parts [int64_field CTR_VALUE value, uint64_field CTR_VERSION version]"

definition encode_watch_event_inner :: "pystr \<Rightarrow> bytes option \<Rightarrow> int \<Rightarrow> bytes result" where
  "encode_watch_event_inner key value version =
    join_parts ([string_field WE_KEY key]
      @ (case value of None \<Rightarrow> []
         | Some v \<Rightarrow> [bindR (bytes_field OPT_VALUE v) (ld_field_always WE_VALUE)])
      @ [uint64_field WE_VERSION version])"

end
