(* ===== verification/Wire_Layout.thy ===== *)
theory Wire_Layout
  imports Wire_Encode
begin

text \<open>
  The reference layout of the format, independent of how the code writes it: a
  varint is a number in radix 128, least significant digit first; a message is a
  list of numbered fields. The lemmas say that every encoder of \<open>wire.py\<close> writes
  exactly the layout of its message, and when it raises instead.
\<close>

named_theorems layout \<open>encoders in terms of the reference layout\<close>


section \<open>Varints\<close>

function varint :: "int \<Rightarrow> bytes" where
  "varint v = (if v < 128 then [word_of_int v] else word_of_int (v mod 128 + 128) # varint (v div 128))"
  by pat_completeness auto
termination
  by (relation "measure nat") auto

declare varint.simps [simp del]

lemma varint_small: "v < 128 \<Longrightarrow> varint v = [word_of_int v]"
  by (simp add: varint.simps)

lemma varint_large: "128 \<le> v \<Longrightarrow> varint v = word_of_int (v mod 128 + 128) # varint (v div 128)"
  by (subst varint.simps) simp

lemma varint_nonempty [simp]: "varint v \<noteq> []"
  by (subst varint.simps) simp

lemma encode_varint_loop_eq: "encode_varint_loop v out = out @ varint v"
proof (induction v out rule: encode_varint_loop.induct)
  case (1 v out)
  show ?case
  proof (cases "128 \<le> v")
    case True
    have "(v AND 0x7F) OR 0x80 = v mod 128 + 128"
      by (simp add: and_7F or_high_bit)
    with True 1 show ?thesis
      by (simp add: encode_varint_loop.simps [of v out] varint_large drop_bit_eq_div)
  next
    case False
    then show ?thesis
      by (simp add: encode_varint_loop.simps [of v out] varint_small)
  qed
qed

lemma encode_varint_eq [layout]: "0 \<le> v \<Longrightarrow> encode_varint v = Inr (varint v)"
  by (simp add: encode_varint_def encode_varint_loop_eq)

lemma div_128_less: "(v :: int) div 128 < k \<longleftrightarrow> v < 128 * k"
  using div_mult_mod_eq [of v 128] pos_mod_bound [of 128 v] pos_mod_sign [of 128 v]
  by (intro iffI; linarith)

text \<open>A varint of \<open>n\<close> bytes holds \<open>7 * n\<close> bits.\<close>

lemma length_varint_le: "0 \<le> v \<Longrightarrow> 0 < n \<Longrightarrow> length (varint v) \<le> n \<longleftrightarrow> v < 2 ^ (7 * n)"
proof (induction v arbitrary: n rule: varint.induct)
  case (1 v)
  obtain m where n: "n = Suc m"
    using "1.prems" by (cases n) auto
  have pow: "(2 :: int) ^ (7 * Suc m) = 128 * 2 ^ (7 * m)"
    by (simp add: power_add)
  show ?case
  proof (cases "v < 128")
    case True
    have "(128 :: int) \<le> 128 * 2 ^ (7 * m)" by simp
    with True have "v < 2 ^ (7 * Suc m)" unfolding pow by linarith
    with True n show ?thesis by (simp add: varint_small)
  next
    case False
    show ?thesis
    proof (cases m)
      case 0
      with False n show ?thesis by (simp add: varint_large)
    next
      case (Suc k)
      have "length (varint (v div 128)) \<le> m \<longleftrightarrow> v div 128 < 2 ^ (7 * m)"
        using "1.IH" [OF False, of m] False Suc by simp
      also have "\<dots> \<longleftrightarrow> v < 128 * 2 ^ (7 * m)"
        by (rule div_128_less)
      finally show ?thesis
        using False n pow by (simp add: varint_large)
    qed
  qed
qed


section \<open>Fields and messages\<close>

datatype wire_field = VarintField int int | LdField int bytes

fun field_bytes :: "wire_field \<Rightarrow> bytes" where
  "field_bytes (VarintField f v) = varint (8 * f) @ varint v"
| "field_bytes (LdField f p) = varint (8 * f + 2) @ varint (int (length p)) @ p"

definition msg_bytes :: "wire_field list \<Rightarrow> bytes" where
  "msg_bytes fs = concat (map field_bytes fs)"

lemma msg_bytes_simps [simp]:
  "msg_bytes [] = []"
  "msg_bytes (f # fs) = field_bytes f @ msg_bytes fs"
  "msg_bytes (fs @ gs) = msg_bytes fs @ msg_bytes gs"
  by (simp_all add: msg_bytes_def)

lemma field_bytes_nonempty [simp]: "field_bytes f \<noteq> []"
  by (cases f) simp_all

lemma msg_bytes_empty: "msg_bytes fs = [] \<longleftrightarrow> fs = []"
  by (cases fs) simp_all

text \<open>Fields the format omits at their default value.\<close>

definition str_part :: "int \<Rightarrow> pystr \<Rightarrow> wire_field list" where
  "str_part f s = (if s = [] then [] else [LdField f (utf8_bytes s)])"

definition raw_part :: "int \<Rightarrow> bytes \<Rightarrow> wire_field list" where
  "raw_part f b = (if b = [] then [] else [LdField f b])"

definition num_part :: "int \<Rightarrow> int \<Rightarrow> wire_field list" where
  "num_part f v = (if v = 0 then [] else [VarintField f v])"

lemma encode_tag_eq [layout]:
  "0 \<le> f \<Longrightarrow> encode_tag f WT_LD = Inr (varint (8 * f + 2))"
  "0 \<le> f \<Longrightarrow> encode_tag f WT_VARINT = Inr (varint (8 * f))"
  using or_shifted [of 2 3 f] or_shifted [of 0 3 f]
  by (simp_all add: encode_tag_def wire_const encode_varint_eq or.commute add.commute)

lemma ld_field_always_eq [layout]:
  "0 \<le> f \<Longrightarrow> ld_field_always f p = Inr (field_bytes (LdField f p))"
  by (simp add: ld_field_always_def layout)

lemma ld_field_eq [layout]: "0 \<le> f \<Longrightarrow> ld_field f p = Inr (msg_bytes (raw_part f p))"
  by (simp add: ld_field_def layout raw_part_def)

lemma bytes_field_eq [layout]: "0 \<le> f \<Longrightarrow> bytes_field f p = Inr (msg_bytes (raw_part f p))"
  by (simp add: bytes_field_def layout raw_part_def)

lemma string_field_eq [layout]:
  "0 \<le> f \<Longrightarrow> encodable s \<Longrightarrow> string_field f s = Inr (msg_bytes (str_part f s))"
  by (simp add: string_field_def layout str_part_def)

lemma uint64_field_eq [layout]:
  "0 \<le> f \<Longrightarrow> 0 \<le> v \<Longrightarrow> uint64_field f v = Inr (msg_bytes (num_part f v))"
  by (simp add: uint64_field_def layout num_part_def)

lemma enum_field_eq [layout]:
  "0 \<le> f \<Longrightarrow> 0 \<le> v \<Longrightarrow> enum_field f v = Inr (msg_bytes (num_part f v))"
  by (simp add: enum_field_def layout num_part_def)

lemma int64_field_eq [layout]:
  "0 \<le> f \<Longrightarrow> int64_field f v = Inr (msg_bytes [VarintField f (v mod 2 ^ 64)])"
  by (simp add: int64_field_def and_mask64 layout del: and_numerals)

lemma string_field_bad: "\<not> encodable s \<Longrightarrow> string_field f s = Inl UnicodeEncodeError"
  by (auto simp: string_field_def py_encode_def encodable_def)

lemma join_parts_Inr [layout]:
  "join_parts (map Inr bs) = Inr (concat bs)"
  by (induction bs) simp_all

lemma join_parts_append:
  "join_parts (ps @ qs) = bindR (join_parts ps) (\<lambda>a. bindR (join_parts qs) (\<lambda>b. Inr (a @ b)))"
  by (induction ps) (simp_all add: bindR_assoc)


section \<open>Request messages\<close>

text \<open>
  A namespace is sent when it is given and not blank, and then it is sent as it was
  given; a time to live when it is positive.
\<close>

definition ns_part :: "int \<Rightarrow> pystr option \<Rightarrow> wire_field list" where
  "ns_part f ns = (if has_namespace ns then [LdField f (msg_bytes (str_part OPT_VALUE (the ns)))] else [])"

definition ttl_fields :: "int \<Rightarrow> int \<Rightarrow> wire_field list" where
  "ttl_fields f ttl = (if ttl > 0 then [LdField f (msg_bytes [VarintField OPT_VALUE ttl])] else [])"

definition encodable_ns :: "pystr option \<Rightarrow> bool" where
  "encodable_ns ns \<longleftrightarrow> (has_namespace ns \<longrightarrow> encodable (the ns))"

lemma encodable_ns_None [simp]: "encodable_ns None"
  by (simp add: encodable_ns_def has_namespace_def)

lemma has_namespace_nonempty: "has_namespace ns \<Longrightarrow> the ns \<noteq> []"
  by (auto simp: has_namespace_def split: option.splits)

lemma namespace_part_eq [layout]:
  "0 \<le> f \<Longrightarrow> encodable_ns ns \<Longrightarrow> namespace_part f ns = map (\<lambda>x. Inr (field_bytes x)) (ns_part f ns)"
  by (auto simp: namespace_part_def ns_part_def encode_optional_string_def encodable_ns_def layout
      wire_const str_part_def raw_part_def dest: has_namespace_nonempty)

lemma ttl_part_eq [layout]:
  "0 \<le> f \<Longrightarrow> ttl_part f ttl = map (\<lambda>x. Inr (field_bytes x)) (ttl_fields f ttl)"
  by (auto simp: ttl_part_def ttl_fields_def encode_optional_uint64_def layout wire_const
      num_part_def raw_part_def)

lemma join_fields [layout]: "join_parts (map (\<lambda>x. Inr (field_bytes x)) fs) = Inr (msg_bytes fs)"
  by (induction fs) simp_all

definition key_namespace_msg :: "pystr \<Rightarrow> pystr option \<Rightarrow> wire_field list" where
  "key_namespace_msg key ns = str_part KN_KEY key @ ns_part KN_NAMESPACE ns"

definition pattern_namespace_msg :: "pystr \<Rightarrow> pystr option \<Rightarrow> wire_field list" where
  "pattern_namespace_msg pattern ns = str_part PN_PATTERN pattern @ ns_part PN_NAMESPACE ns"

definition set_request_msg :: "pystr \<Rightarrow> bytes \<Rightarrow> int \<Rightarrow> pystr option \<Rightarrow> wire_field list" where
  "set_request_msg key value ttl ns =
    str_part SR_KEY key @ raw_part SR_VALUE value @ ttl_fields SR_TTL_SECS ttl @ ns_part SR_NAMESPACE ns"

definition incr_request_msg :: "pystr \<Rightarrow> int \<Rightarrow> int \<Rightarrow> pystr option \<Rightarrow> wire_field list" where
  "incr_request_msg key delta ttl ns =
    str_part INCR_KEY key @ [VarintField INCR_DELTA (delta mod 2 ^ 64)]
      @ ttl_fields INCR_TTL_SECS_ON_CREATE ttl @ ns_part INCR_NAMESPACE ns"

definition set_ttl_request_msg :: "pystr \<Rightarrow> int \<Rightarrow> pystr option \<Rightarrow> wire_field list" where
  "set_ttl_request_msg pattern ttl ns =
    str_part STBP_PATTERN pattern @ ttl_fields STBP_TTL_SECS ttl @ ns_part STBP_NAMESPACE ns"

lemma encode_key_namespace_eq [layout]:
  "encodable key \<Longrightarrow> encodable_ns ns \<Longrightarrow>
   encode_key_namespace key ns = Inr (msg_bytes (key_namespace_msg key ns))"
  by (simp add: encode_key_namespace_def key_namespace_msg_def layout wire_const)

lemma encode_pattern_namespace_eq [layout]:
  "encodable pattern \<Longrightarrow> encodable_ns ns \<Longrightarrow>
   encode_pattern_namespace pattern ns = Inr (msg_bytes (pattern_namespace_msg pattern ns))"
  by (simp add: encode_pattern_namespace_def pattern_namespace_msg_def layout wire_const)

lemma encode_set_request_eq [layout]:
  "encodable key \<Longrightarrow> encodable_ns ns \<Longrightarrow>
   encode_set_request key value ttl ns = Inr (msg_bytes (set_request_msg key value ttl ns))"
  by (simp add: encode_set_request_def set_request_msg_def layout wire_const join_parts_append)

lemma encode_incr_request_eq [layout]:
  "encodable key \<Longrightarrow> encodable_ns ns \<Longrightarrow>
   encode_incr_request key delta ttl ns = Inr (msg_bytes (incr_request_msg key delta ttl ns))"
  by (simp add: encode_incr_request_def incr_request_msg_def layout wire_const join_parts_append)

lemma encode_set_ttl_by_pattern_request_eq [layout]:
  "encodable pattern \<Longrightarrow> encodable_ns ns \<Longrightarrow>
   encode_set_ttl_by_pattern_request pattern ttl ns = Inr (msg_bytes (set_ttl_request_msg pattern ttl ns))"
  by (simp add: encode_set_ttl_by_pattern_request_def set_ttl_request_msg_def layout wire_const
      join_parts_append)

lemma encode_auth_request_eq [layout]:
  "encodable token \<Longrightarrow> encode_auth_request token = Inr (msg_bytes (str_part AUTH_TOKEN token))"
  by (simp add: encode_auth_request_def layout wire_const)


section \<open>Envelopes and frames\<close>

definition envelope :: "int \<Rightarrow> int \<Rightarrow> bytes \<Rightarrow> bytes" where
  "envelope side variant inner =
    msg_bytes [VarintField ENV_VERSION PROTOCOL_VERSION, LdField side (msg_bytes [LdField variant inner])]"

definition be32 :: "int \<Rightarrow> bytes" where
  "be32 n = [word_of_int (drop_bit 24 n), word_of_int (drop_bit 16 n), word_of_int (drop_bit 8 n), word_of_int n]"

text \<open>A payload fits a frame when its length fits the 32-bit prefix.\<close>

definition fits_frame :: "bytes \<Rightarrow> bool" where
  "fits_frame payload \<longleftrightarrow> int (length payload) < 2 ^ 32"

definition frame :: "bytes \<Rightarrow> bytes" where
  "frame payload = be32 (int (length payload)) @ payload"

lemma length_be32 [simp]: "length (be32 n) = 4"
  by (simp add: be32_def)

lemma pack_be32_eq [layout]: "0 \<le> n \<Longrightarrow> n < 2 ^ 32 \<Longrightarrow> pack_be32 n = Inr (be32 n)"
  by (simp add: pack_be32_def be32_def)

lemma uint_byte_of_drop: "uint (word_of_int (drop_bit k n) :: byte) = (n div 2 ^ k) mod 256"
  by (simp add: uint_word_of_int drop_bit_eq_div)

lemma radix256: "0 \<le> (n :: int) \<Longrightarrow> n < 2 ^ 32 \<Longrightarrow>
  (n div 16777216) mod 256 * 16777216 + (n div 65536) mod 256 * 65536 + (n div 256) mod 256 * 256 + n mod 256 = n"
proof -
  assume n: "0 \<le> n" "n < 2 ^ 32"
  have "n div 16777216 < 256" "0 \<le> n div 16777216" using n by auto
  then have top: "(n div 16777216) mod 256 = n div 16777216" by simp
  have 1: "n div 65536 div 256 = n div 16777216" "n div 256 div 256 = n div 65536"
    by (simp_all add: zdiv_zmult2_eq [symmetric])
  show ?thesis
    using div_mult_mod_eq [of "n div 65536" 256] div_mult_mod_eq [of "n div 256" 256]
      div_mult_mod_eq [of n 256]
    unfolding top 1 by linarith
qed

lemma unpack_be32_eq [layout]: "0 \<le> n \<Longrightarrow> n < 2 ^ 32 \<Longrightarrow> unpack_be32 (be32 n) = Inr n"
proof -
  assume n: "0 \<le> n" "n < 2 ^ 32"
  have low: "uint (word_of_int n :: byte) = n mod 256"
    using uint_byte_of_drop [of 0 n] by simp
  have pow: "(2 :: int) ^ 24 = 16777216" "(2 :: int) ^ 16 = 65536" "(2 :: int) ^ 8 = 256"
    by simp_all
  show ?thesis
    unfolding be32_def unpack_be32.simps uint_byte_of_drop low pow radix256 [OF n] ..
qed

lemma wrap_client_request_eq:
  "0 \<le> variant \<Longrightarrow> wrap_client_request variant inner =
    (if fits_frame (envelope ENV_CLIENT_REQUEST variant inner)
     then Inr (frame (envelope ENV_CLIENT_REQUEST variant inner)) else Inl StructError)"
  by (simp add: wrap_client_request_def layout wire_const envelope_def num_part_def fits_frame_def
      frame_def pack_be32_def be32_def Let_def)

lemma frame_client_response_eq:
  "0 \<le> variant \<Longrightarrow> frame_client_response variant inner =
    (if fits_frame (envelope ENV_CLIENT_RESPONSE variant inner)
     then Inr (frame (envelope ENV_CLIENT_RESPONSE variant inner)) else Inl StructError)"
  by (simp add: frame_client_response_def layout wire_const envelope_def num_part_def fits_frame_def
      frame_def pack_be32_def be32_def Let_def)

end
