(* ===== verification/Wire_Reader.thy ===== *)
theory Wire_Reader
  imports Wire_Layout
begin

text \<open>
  The cursor class of \<open>wire.py\<close>: a buffer with an offset and an end, read by
  varints, tags and length-delimited slices. The cursor is then shown to implement a
  parser on the list of bytes that are left, which is how the rest of the development
  reasons about it.
\<close>

section \<open>The cursor and its operations\<close>

record reader =
  buf :: bytes
  off :: nat
  rend :: nat

definition new_reader :: "bytes \<Rightarrow> nat \<Rightarrow> nat option \<Rightarrow> reader" where
  "new_reader b i e = \<lparr>buf = b, off = i, rend = (case e of Some n \<Rightarrow> n | None \<Rightarrow> length b)\<rparr>"

text \<open>\<open>_Reader(buf)\<close>, the only form the decoders use.\<close>

abbreviation reader_of :: "bytes \<Rightarrow> reader" where
  "reader_of b \<equiv> new_reader b 0 None"

definition remaining :: "reader \<Rightarrow> int" where
  "remaining r = int (rend r) - int (off r)"

function read_varint_loop :: "reader \<Rightarrow> int \<Rightarrow> nat \<Rightarrow> (int \<times> reader) result" where
  "read_varint_loop r res shift =
    (if off r < rend r then
       (if off r < length (buf r) then
          let b = uint (buf r ! off r);
              r' = r\<lparr>off := off r + 1\<rparr>;
              res' = res OR push_bit shift (b AND 0x7F)
          in if b AND 0x80 = 0 then Inr (res', r')
             else if shift + 7 > 70 then Inl (ValueError (lit ''varint too long''))
             else read_varint_loop r' res' (shift + 7)
        else Inl IndexError)
     else Inl (ValueError (lit ''truncated varint'')))"
  by pat_completeness auto
termination
  by (relation "measure (\<lambda>(r, res, shift). rend r - off r)") auto

declare read_varint_loop.simps [simp del]

definition read_varint :: "reader \<Rightarrow> (int \<times> reader) result" where
  "read_varint r = read_varint_loop r 0 0"

definition signed64 :: "int \<Rightarrow> int" where
  "signed64 v = (if v \<ge> 2 ^ 63 then v - 2 ^ 64 else v)"

definition read_int64 :: "reader \<Rightarrow> (int \<times> reader) result" where
  "read_int64 r = bindR (read_varint r) (\<lambda>(v, r'). Inr (signed64 v, r'))"

definition read_tag :: "reader \<Rightarrow> ((int \<times> int) \<times> reader) result" where
  "read_tag r = bindR (read_varint r) (\<lambda>(t, r'). Inr ((drop_bit 3 t, t AND 0x7), r'))"

definition read_ld :: "reader \<Rightarrow> (bytes \<times> reader) result" where
  "read_ld r = bindR (read_varint r) (\<lambda>(len, r').
    if int (off r') + len > int (rend r') then Inl (ValueError (lit ''truncated length-delimited field''))
    else Inr (take (nat len) (drop (off r') (buf r')), r'\<lparr>off := off r' + nat len\<rparr>))"

definition skip :: "int \<Rightarrow> reader \<Rightarrow> reader result" where
  "skip wire r =
    (if wire = WT_VARINT then bindR (read_varint r) (\<lambda>(v, r'). Inr r')
     else if wire = WT_LD then bindR (read_ld r) (\<lambda>(v, r'). Inr r')
     else if wire = 1 then Inr (r\<lparr>off := off r + 8\<rparr>)
     else if wire = 5 then Inr (r\<lparr>off := off r + 4\<rparr>)
     else Inl (ValueError (lit ''unsupported wire type: '' @ py_str_int wire)))"


section \<open>The bytes that are left\<close>

definition rest :: "reader \<Rightarrow> bytes" where
  "rest r = take (rend r - off r) (drop (off r) (buf r))"

definition reader_ok :: "reader \<Rightarrow> bool" where
  "reader_ok r \<longleftrightarrow> rend r \<le> length (buf r)"

text \<open>\<open>r'\<close> is \<open>r\<close> with its offset moved forward.\<close>

definition moved :: "reader \<Rightarrow> reader \<Rightarrow> bool" where
  "moved r r' \<longleftrightarrow> buf r' = buf r \<and> rend r' = rend r \<and> off r \<le> off r'"

lemma reader_of_ok [simp]: "reader_ok (reader_of b)"
  by (simp add: reader_ok_def new_reader_def)

lemma rest_reader_of [simp]: "rest (reader_of b) = b"
  by (simp add: rest_def new_reader_def)

lemma length_rest: "reader_ok r \<Longrightarrow> length (rest r) = rend r - off r"
  by (simp add: reader_ok_def rest_def)

lemma remaining_pos: "reader_ok r \<Longrightarrow> remaining r > 0 \<longleftrightarrow> rest r \<noteq> []"
  using length_rest [of r] by (cases "rest r") (auto simp: remaining_def)

lemma rest_advance: "rest (r\<lparr>off := off r + n\<rparr>) = drop n (rest r)"
  by (simp add: rest_def drop_take add.commute)

lemma rest_Cons: "reader_ok r \<Longrightarrow> off r < rend r \<Longrightarrow> rest r = buf r ! off r # rest (r\<lparr>off := off r + 1\<rparr>)"
  by (simp add: rest_def reader_ok_def Cons_nth_drop_Suc [symmetric] Suc_diff_Suc [symmetric])

lemma rest_Nil: "\<not> off r < rend r \<Longrightarrow> rest r = []"
  by (simp add: rest_def)

lemma moved_refl [simp]: "moved r r"
  by (simp add: moved_def)

lemma moved_trans [trans]: "moved a b \<Longrightarrow> moved b c \<Longrightarrow> moved a c"
  by (auto simp: moved_def)

lemma moved_ok: "moved r r' \<Longrightarrow> reader_ok r \<Longrightarrow> reader_ok r'"
  by (simp add: moved_def reader_ok_def)


lemma reader_after:
  "reader_ok r \<Longrightarrow> moved r r' \<Longrightarrow> off r' \<le> rend r' \<Longrightarrow> r' = r\<lparr>off := rend r - length (rest r')\<rparr>"
  by (cases r; cases r') (auto simp: moved_def reader_ok_def rest_def)


section \<open>Parsing a list of bytes\<close>

text \<open>The same operations on the bytes that are left, in plain arithmetic.\<close>

fun p_varint_loop :: "bytes \<Rightarrow> int \<Rightarrow> nat \<Rightarrow> (int \<times> bytes) result" where
  "p_varint_loop [] res shift = Inl (ValueError (lit ''truncated varint''))"
| "p_varint_loop (b # bs) res shift =
    (if uint b < 128 then Inr (res + 2 ^ shift * uint b, bs)
     else if shift + 7 > 70 then Inl (ValueError (lit ''varint too long''))
     else p_varint_loop bs (res + 2 ^ shift * (uint b - 128)) (shift + 7))"

definition p_varint :: "bytes \<Rightarrow> (int \<times> bytes) result" where
  "p_varint bs = p_varint_loop bs 0 0"

definition p_int64 :: "bytes \<Rightarrow> (int \<times> bytes) result" where
  "p_int64 bs = bindR (p_varint bs) (\<lambda>(v, bs'). Inr (signed64 v, bs'))"

definition p_tag :: "bytes \<Rightarrow> ((int \<times> int) \<times> bytes) result" where
  "p_tag bs = bindR (p_varint bs) (\<lambda>(t, bs'). Inr ((t div 8, t mod 8), bs'))"

definition p_ld :: "bytes \<Rightarrow> (bytes \<times> bytes) result" where
  "p_ld bs = bindR (p_varint bs) (\<lambda>(len, bs').
    if len > int (length bs') then Inl (ValueError (lit ''truncated length-delimited field''))
    else Inr (take (nat len) bs', drop (nat len) bs'))"

definition p_skip :: "int \<Rightarrow> bytes \<Rightarrow> bytes result" where
  "p_skip wire bs =
    (if wire = 0 then bindR (p_varint bs) (\<lambda>(v, bs'). Inr bs')
     else if wire = 2 then bindR (p_ld bs) (\<lambda>(v, bs'). Inr bs')
     else if wire = 1 then Inr (drop 8 bs)
     else if wire = 5 then Inr (drop 4 bs)
     else Inl (ValueError (lit ''unsupported wire type: '' @ py_str_int wire)))"

definition view :: "('a \<times> reader) result \<Rightarrow> ('a \<times> bytes) result" where
  "view m = bindR m (\<lambda>(x, r). Inr (x, rest r))"

lemma view_simps [simp]: "view (Inl e) = Inl e" "view (Inr (x, r)) = Inr (x, rest r)"
  by (simp_all add: view_def)

text \<open>
  The contract of a reading operation: it computes what the list parser computes on
  the bytes left, and only moves the offset, strictly forward.
\<close>

locale reader_op =
  fixes op :: "reader \<Rightarrow> ('a \<times> reader) result"
    and p :: "bytes \<Rightarrow> ('a \<times> bytes) result"
  assumes refines: "reader_ok r \<Longrightarrow> view (op r) = p (rest r)"
    and moves: "op r = Inr (x, r') \<Longrightarrow> moved r r' \<and> off r < off r' \<and> off r' \<le> rend r'"
begin

lemma parsed: "reader_ok r \<Longrightarrow> op r = Inr (x, r') \<Longrightarrow> p (rest r) = Inr (x, rest r')"
  using refines [of r] by simp

lemma raised: "reader_ok r \<Longrightarrow> op r = Inl e \<longleftrightarrow> p (rest r) = Inl e"
  using refines [of r] by (cases "op r") (auto simp: view_def)

lemma keeps_ok: "reader_ok r \<Longrightarrow> op r = Inr (x, r') \<Longrightarrow> reader_ok r'"
  using moves moved_ok by blast

lemma returns:
  assumes "reader_ok r" and "p (rest r) = Inr (x, bs)"
  obtains r' where "op r = Inr (x, r')" and "rest r' = bs"
  using assms refines [of r] by (cases "op r") auto

lemma returns_exact:
  assumes "reader_ok r" and "p (rest r) = Inr (x, bs)"
  shows "op r = Inr (x, r\<lparr>off := rend r - length bs\<rparr>)"
proof -
  obtain r' where r': "op r = Inr (x, r')" "rest r' = bs"
    using returns [OF assms] by blast
  with moves [OF r'(1)] reader_after [OF assms(1), of r'] show ?thesis by simp
qed

text \<open>Sequencing: what follows may be computed on the list instead.\<close>

lemma bind_view:
  assumes "reader_ok r"
    and "\<And>x r'. op r = Inr (x, r') \<Longrightarrow> reader_ok r' \<Longrightarrow> f (x, r') = g (x, rest r')"
  shows "bindR (op r) f = bindR (p (rest r)) g"
proof (cases "op r")
  case (Inl e)
  with assms(1) show ?thesis by (metis raised bindR.simps(1))
next
  case (Inr y)
  obtain x r' where y: "y = (x, r')" by (cases y)
  with Inr assms show ?thesis
    using parsed [of r x r'] keeps_ok [of r x r'] by simp
qed

end


section \<open>The cursor implements the parser\<close>

lemma read_varint_loop_moves:
  "read_varint_loop r res shift = Inr (v, r') \<Longrightarrow> moved r r' \<and> off r < off r' \<and> off r' \<le> rend r'"
proof (induction r res shift rule: read_varint_loop.induct)
  case (1 r res shift)
  show ?case
  proof (cases "off r < rend r \<and> off r < length (buf r)")
    case True
    then show ?thesis
      using "1.prems" "1.IH" [OF _ _ refl refl refl]
      by (subst (asm) read_varint_loop.simps) (auto simp: Let_def moved_def split: if_splits)
  next
    case False
    then show ?thesis
      using "1.prems" by (subst (asm) read_varint_loop.simps) (auto split: if_splits)
  qed
qed

lemma byte_split: "uint (b :: byte) AND 0x7F = (if uint b < 128 then uint b else uint b - 128)"
  "uint (b :: byte) AND 0x80 = 0 \<longleftrightarrow> uint b < 128"
proof -
  have b: "0 \<le> uint b" "uint b < 256" by simp_all
  have "uint b div 128 = (if uint b < 128 then 0 else 1)"
    using b int_div_pos_eq [of "uint b" 128 1 "uint b - 128"] by simp
  then show "uint b AND 0x7F = (if uint b < 128 then uint b else uint b - 128)"
    "uint b AND 0x80 = 0 \<longleftrightarrow> uint b < 128"
    using div_mult_mod_eq [of "uint b" 128] by (auto simp: and_7F and_0x80)
qed

lemma or_digit:
  assumes "0 \<le> res" "res < 2 ^ shift" "0 \<le> d" "d < (128 :: int)"
  shows "res OR push_bit shift d = res + 2 ^ shift * d"
    and "0 \<le> res + 2 ^ shift * d" and "res + 2 ^ shift * d < 2 ^ (shift + 7)"
proof -
  show "res OR push_bit shift d = res + 2 ^ shift * d"
    using assms by (simp add: or_shifted)
  show "0 \<le> res + 2 ^ shift * d" using assms by simp
  have "2 ^ shift * d \<le> 2 ^ shift * (127 :: int)"
    using assms by (intro mult_left_mono) auto
  moreover have "(2 :: int) ^ (shift + 7) = 128 * 2 ^ shift" by (simp add: power_add)
  ultimately show "res + 2 ^ shift * d < 2 ^ (shift + 7)"
    using assms by linarith
qed

lemma read_varint_loop_view:
  "reader_ok r \<Longrightarrow> 0 \<le> res \<Longrightarrow> res < 2 ^ shift \<Longrightarrow>
   view (read_varint_loop r res shift) = p_varint_loop (rest r) res shift"
proof (induction r res shift rule: read_varint_loop.induct)
  case (1 r res shift)
  show ?case
  proof (cases "off r < rend r")
    case False
    then show ?thesis
      by (subst read_varint_loop.simps) (simp add: rest_Nil)
  next
    case True
    define b where "b = buf r ! off r"
    define r' where "r' = r\<lparr>off := off r + 1\<rparr>"
    define d where "d = (if uint b < 128 then uint b else uint b - 128)"
    have len: "off r < length (buf r)"
      using True "1.prems" by (simp add: reader_ok_def)
    have d: "0 \<le> d" "d < 128" using uint_byte_bounds [of b] by (auto simp: d_def)
    note digit = or_digit [OF "1.prems"(2,3) d]
    have ok': "reader_ok r'"
      using "1.prems"(1) by (simp add: r'_def reader_ok_def)
    have rest: "rest r = b # rest r'"
      using rest_Cons [OF "1.prems"(1) True] by (simp add: b_def r'_def)
    have IH: "view (read_varint_loop r' (res + 2 ^ shift * d) (shift + 7))
        = p_varint_loop (rest r') (res + 2 ^ shift * d) (shift + 7)"
      if "\<not> uint b < 128" "\<not> shift + 7 > 70"
      using "1.IH" [OF True len b_def [THEN arg_cong [where f = uint]] r'_def refl] that digit ok' "1.prems"
      by (simp add: byte_split d_def)
    have res': "res OR push_bit shift (uint b AND 0x7F) = res + 2 ^ shift * d"
      using digit(1) by (simp only: byte_split d_def)
    have "read_varint_loop r res shift =
        (if uint b < 128 then Inr (res + 2 ^ shift * d, r')
         else if shift + 7 > 70 then Inl (ValueError (lit ''varint too long''))
         else read_varint_loop r' (res + 2 ^ shift * d) (shift + 7))"
      unfolding read_varint_loop.simps [of r res shift] Let_def b_def [symmetric] r'_def [symmetric]
        res' byte_split(2) using True len by simp
    with IH show ?thesis
      by (simp add: rest d_def)
  qed
qed

interpretation varint_reader: reader_op read_varint p_varint
  by unfold_locales
     (auto simp: read_varint_def p_varint_def read_varint_loop_view dest: read_varint_loop_moves)

lemma p_varint_nonneg:
  "0 \<le> res \<Longrightarrow> p_varint_loop bs res shift = Inr (v, bs') \<Longrightarrow> 0 \<le> v"
  by (induction bs res shift rule: p_varint_loop.induct) (auto split: if_splits)

lemma read_varint_nonneg:
  "reader_ok r \<Longrightarrow> read_varint r = Inr (v, r') \<Longrightarrow> 0 \<le> v"
  using varint_reader.parsed [of r v r'] by (auto simp: p_varint_def dest: p_varint_nonneg [rotated])

interpretation int64_reader: reader_op read_int64 p_int64
proof unfold_locales
  show "view (read_int64 r) = p_int64 (rest r)" if "reader_ok r" for r
    unfolding view_def read_int64_def p_int64_def bindR_assoc
    by (rule varint_reader.bind_view [OF that]) simp
qed (auto simp: read_int64_def bindR_eq_Inr dest: varint_reader.moves)

interpretation tag_reader: reader_op read_tag p_tag
proof unfold_locales
  show "view (read_tag r) = p_tag (rest r)" if "reader_ok r" for r
    unfolding view_def read_tag_def p_tag_def bindR_assoc
    by (rule varint_reader.bind_view [OF that]) (simp add: drop_bit_eq_div and_7)
qed (auto simp: read_tag_def bindR_eq_Inr dest: varint_reader.moves)

lemma read_ld_view:
  assumes "reader_ok r" "off r \<le> rend r" "0 \<le> len"
  shows "bindR (if int (off r) + len > int (rend r)
      then Inl (ValueError (lit ''truncated length-delimited field''))
      else Inr (take (nat len) (drop (off r) (buf r)), r\<lparr>off := off r + nat len\<rparr>))
      (\<lambda>(x, r). Inr (x, rest r)) =
    (if len > int (length (rest r)) then Inl (ValueError (lit ''truncated length-delimited field''))
     else Inr (take (nat len) (rest r), drop (nat len) (rest r)))"
proof -
  have "int (length (rest r)) = int (rend r) - int (off r)"
    using assms by (simp add: length_rest)
  moreover have "take (nat len) (rest r) = take (nat len) (drop (off r) (buf r))"
    if "int (off r) + len \<le> int (rend r)"
    using that by (simp add: rest_def min_absorb1)
  ultimately show ?thesis
    by (auto simp: rest_advance)
qed

interpretation ld_reader: reader_op read_ld p_ld
proof unfold_locales
  show "view (read_ld r) = p_ld (rest r)" if "reader_ok r" for r
    unfolding view_def read_ld_def p_ld_def bindR_assoc
  proof (rule varint_reader.bind_view [OF that])
    fix len r'
    assume "read_varint r = Inr (len, r')" "reader_ok r'"
    then show "bindR (case (len, r') of (len, r') \<Rightarrow>
          if int (rend r') < int (off r') + len
          then Inl (ValueError (lit ''truncated length-delimited field''))
          else Inr (take (nat len) (drop (off r') (buf r')), r'\<lparr>off := off r' + nat len\<rparr>))
          (\<lambda>(x, r). Inr (x, rest r)) =
        (case (len, rest r') of (len, bs') \<Rightarrow>
          if int (length bs') < len then Inl (ValueError (lit ''truncated length-delimited field''))
          else Inr (take (nat len) bs', drop (nat len) bs'))"
      using read_ld_view [of r' len] read_varint_nonneg [OF that] varint_reader.moves
      unfolding prod.case by blast
  qed
next
  show "moved r r' \<and> off r < off r' \<and> off r' \<le> rend r'" if "read_ld r = Inr (x, r')" for r x r'
    using that by (auto simp: read_ld_def bindR_eq_Inr moved_def split: if_splits
        dest!: varint_reader.moves)
qed


section \<open>Skipping\<close>

text \<open>
  Skipping moves forward too, but a fixed-width field is skipped without a look at
  the end of the buffer: the offset may pass it, and then nothing is left.
\<close>

lemma skip_moves: "skip wire r = Inr r' \<Longrightarrow> moved r r'"
  by (auto simp: skip_def bindR_eq_Inr moved_def split: if_splits
      dest: varint_reader.moves ld_reader.moves)

lemma skip_view: "reader_ok r \<Longrightarrow> bindR (skip wire r) (\<lambda>r'. Inr (rest r')) = p_skip wire (rest r)"
  unfolding skip_def p_skip_def
  by (auto simp: wire_const rest_advance bindR_assoc
      intro!: varint_reader.bind_view ld_reader.bind_view)

lemma skip_bind_view:
  assumes "reader_ok r" and "\<And>r'. skip wire r = Inr r' \<Longrightarrow> reader_ok r' \<Longrightarrow> f r' = g (rest r')"
  shows "bindR (skip wire r) f = bindR (p_skip wire (rest r)) g"
  using assms skip_view [of r wire, symmetric] by (cases "skip wire r") (auto dest: skip_moves moved_ok)


section \<open>Parsing what the encoders write\<close>

lemma p_varint_loop_varint:
  "0 \<le> v \<Longrightarrow> v < 2 ^ (7 * (11 - k)) \<Longrightarrow> k \<le> 10 \<Longrightarrow>
   p_varint_loop (varint v @ bs) res (7 * k) = Inr (res + 2 ^ (7 * k) * v, bs)"
proof (induction v arbitrary: k res rule: varint.induct)
  case (1 v)
  show ?case
  proof (cases "v < 128")
    case True
    with "1.prems" show ?thesis
      by (simp add: varint_small uint_byte_of_int)
  next
    case False
    have k: "k < 10"
    proof (rule ccontr)
      assume "\<not> k < 10"
      with "1.prems" False show False by simp
    qed
    then have split: "11 - k = Suc (11 - Suc k)" by simp
    have pow: "(2 :: int) ^ (7 * (11 - k)) = 128 * 2 ^ (7 * (11 - Suc k))"
      unfolding split by (simp add: power_add)
    have "v div 128 < 2 ^ (7 * (11 - Suc k))"
      using "1.prems" pow by (simp add: div_128_less)
    then have IH: "p_varint_loop (varint (v div 128) @ bs) res' (7 * Suc k)
        = Inr (res' + 2 ^ (7 * Suc k) * (v div 128), bs)" for res'
      using "1.IH" [OF False, of "Suc k"] "1.prems" k False by simp
    define b :: byte where "b = word_of_int (v mod 128 + 128)"
    have head: "uint b = v mod 128 + 128"
      unfolding b_def using pos_mod_bound [of 128 v] by (intro uint_byte_of_int) auto
    have large: "varint v = b # varint (v div 128)"
      using False by (simp only: varint_large b_def not_less)
    have "2 ^ (7 * k) * (v mod 128) + 2 ^ (7 * k) * (128 * (v div 128)) = 2 ^ (7 * k) * v"
      by (simp only: distrib_left [symmetric] mod_mult_div_eq)
    moreover have "(2 :: int) ^ (7 * Suc k) = 2 ^ (7 * k) * 128"
      by (simp add: power_add)
    ultimately have sum: "2 ^ (7 * k) * (v mod 128) + 2 ^ (7 * Suc k) * (v div 128) = 2 ^ (7 * k) * v"
      by (simp only: mult.assoc)
    show ?thesis
      using IH [of "res + 2 ^ (7 * k) * (v mod 128)"] k False
      by (simp add: large head sum [symmetric] add.commute add.left_commute)
  qed
qed

lemma p_varint_varint [simp]:
  "0 \<le> v \<Longrightarrow> v < 2 ^ 77 \<Longrightarrow> p_varint (varint v @ bs) = Inr (v, bs)"
  using p_varint_loop_varint [of v 0 bs 0] by (simp add: p_varint_def)

lemma p_tag_varint [simp]:
  "0 \<le> f \<Longrightarrow> f < 2 ^ 60 \<Longrightarrow> p_tag (varint (8 * f) @ bs) = Inr ((f, 0), bs)"
  "0 \<le> f \<Longrightarrow> f < 2 ^ 60 \<Longrightarrow> p_tag (varint (8 * f + 2) @ bs) = Inr ((f, 2), bs)"
  by (simp_all add: p_tag_def)

lemma p_ld_varint [simp]:
  "int (length p) < 2 ^ 77 \<Longrightarrow> p_ld (varint (int (length p)) @ p @ bs) = Inr (p, bs)"
  by (simp add: p_ld_def)

lemma p_int64_varint [simp]:
  "0 \<le> v \<Longrightarrow> v < 2 ^ 77 \<Longrightarrow> p_int64 (varint v @ bs) = Inr (signed64 v, bs)"
  by (simp add: p_int64_def)

lemma signed64_mod:
  assumes "- (2 ^ 63) \<le> v" "v < 2 ^ 63"
  shows "signed64 (v mod 2 ^ 64) = v"
proof (cases "0 \<le> v")
  case True
  with assms show ?thesis by (simp add: signed64_def)
next
  case False
  then have "v mod 2 ^ 64 = v + 2 ^ 64"
    using assms by (intro int_mod_pos_eq [where q = "-1"]) auto
  with False assms show ?thesis by (simp add: signed64_def)
qed

section \<open>Properties of the cursor\<close>

text \<open>
  C37: \<open>_encode_varint\<close> writes every unsigned 64-bit value in at most ten bytes, in
  the least number of seven-bit groups that hold it, and \<open>read_varint\<close> reads the value
  back, stopping right behind it whatever follows.
\<close>

theorem varint_roundtrip:
  assumes "0 \<le> v" "v < 2 ^ 64"
  shows "\<exists>bs. encode_varint v = Inr bs \<and> length bs \<le> 10 \<and>
    (\<forall>n > 0. length bs \<le> n \<longleftrightarrow> v < 2 ^ (7 * n)) \<and>
    read_varint (reader_of (bs @ ys)) = Inr (v, (reader_of (bs @ ys))\<lparr>off := length bs\<rparr>)"
proof -
  have "read_varint (reader_of (varint v @ ys)) =
      Inr (v, (reader_of (varint v @ ys))\<lparr>off := length (varint v)\<rparr>)"
    using varint_reader.returns_exact [of "reader_of (varint v @ ys)" v ys] assms
    by (simp add: new_reader_def reader_ok_def rest_def)
  moreover have "length (varint v) \<le> 10"
    using assms length_varint_le [of v 10] by simp
  ultimately show ?thesis
    using assms length_varint_le [OF assms(1)] by (simp add: encode_varint_eq)
qed

theorem varint_roundtrip_witness:
  "\<exists>bs. encode_varint 300 = Inr bs \<and> length bs \<le> 10 \<and>
    (\<forall>n > 0. length bs \<le> n \<longleftrightarrow> (300 :: int) < 2 ^ (7 * n)) \<and>
    read_varint (reader_of (bs @ [7])) = Inr (300, (reader_of (bs @ [7]))\<lparr>off := length bs\<rparr>)"
  using varint_roundtrip [of 300 "[7]"] by simp

text \<open>
  A signed 64-bit value, negative ones included, written by \<open>_int64_field\<close> comes
  back from \<open>read_tag\<close> and \<open>read_int64\<close> as it was; the field is always written, a
  negative value in ten varint bytes.
\<close>

theorem int64_roundtrip:
  assumes "- (2 ^ 63) \<le> v" "v < 2 ^ 63" "0 \<le> field" "field < 2 ^ 60"
  shows "\<exists>bs r r'. int64_field field v = Inr bs \<and> bs \<noteq> [] \<and>
    read_tag (reader_of bs) = Inr ((field, WT_VARINT), r) \<and> read_int64 r = Inr (v, r') \<and> remaining r' = 0 \<and>
    (v < 0 \<longleftrightarrow> remaining r = 10)"
proof -
  let ?u = "v mod 2 ^ 64" and ?t = "varint (8 * field)"
  let ?r = "(reader_of (?t @ varint ?u))\<lparr>off := length ?t\<rparr>"
  let ?r' = "?r\<lparr>off := length ?t + length (varint ?u)\<rparr>"
  have u: "0 \<le> ?u" "?u < 2 ^ 64" by simp_all
  have tag: "read_varint (reader_of (?t @ varint ?u)) = Inr (8 * field, ?r)"
    using varint_reader.returns_exact [of "reader_of (?t @ varint ?u)" "8 * field" "varint ?u"] assms
    by (simp add: new_reader_def reader_ok_def rest_def)
  have val: "read_varint ?r = Inr (?u, ?r')"
    using varint_reader.returns_exact [of ?r ?u "[]"] u p_varint_varint [of ?u "[]"]
    by (simp add: new_reader_def reader_ok_def rest_def)
  have neg: "length (varint ?u) = 10 \<longleftrightarrow> v < 0"
  proof (cases "v < 0")
    case True
    then have "?u = v + 2 ^ 64"
      using assms by (intro int_mod_pos_eq [where q = "-1"]) auto
    with assms u have "\<not> length (varint ?u) \<le> 9" "length (varint ?u) \<le> 10"
      using length_varint_le [OF u(1), of 9] length_varint_le [OF u(1), of 10] by simp_all
    with True show ?thesis by simp
  next
    case False
    with assms u length_varint_le [OF u(1), of 9] show ?thesis by simp
  qed
  have "read_tag (reader_of (?t @ varint ?u)) = Inr ((field, WT_VARINT), ?r)"
    using tag by (simp add: read_tag_def drop_bit_eq_div and_7 wire_const)
  moreover have "read_int64 ?r = Inr (v, ?r')"
    using val signed64_mod [OF assms(1,2)] by (simp add: read_int64_def)
  moreover have "remaining ?r' = 0" "remaining ?r = int (length (varint ?u))"
    by (simp_all add: remaining_def new_reader_def)
  ultimately show ?thesis
    using neg assms(3) by (intro exI [of _ "?t @ varint ?u"] exI [of _ ?r] exI [of _ ?r']) (simp add: int64_field_eq)
qed

theorem int64_roundtrip_witness:
  "\<exists>bs r r'. int64_field 2 (-5) = Inr bs \<and> bs \<noteq> [] \<and>
    read_tag (reader_of bs) = Inr ((2, WT_VARINT), r) \<and> read_int64 r = Inr (-5, r') \<and> remaining r' = 0 \<and>
    ((-5 :: int) < 0 \<longleftrightarrow> remaining r = 10)"
  using int64_roundtrip [of "-5" 2] by simp

text \<open>
  Eleven-byte varints are accepted, so \<open>read_int64\<close> can return a value that is
  not a signed 64-bit integer.
\<close>

theorem read_int64_overlong:
  "let buffer = [0x80, 0x80, 0x80, 0x80, 0x80, 0x80, 0x80, 0x80, 0x80, 0x80, 0x01] in
    read_int64 (reader_of buffer) = Inr (2 ^ 70 - 2 ^ 64, (reader_of buffer)\<lparr>off := 11\<rparr>)"
proof -
  let ?b = "[0x80, 0x80, 0x80, 0x80, 0x80, 0x80, 0x80, 0x80, 0x80, 0x80, 0x01] :: bytes"
  have "p_varint ?b = Inr (2 ^ 70, [])"
    by (simp add: p_varint_def)
  then have "read_varint (reader_of ?b) = Inr (2 ^ 70, (reader_of ?b)\<lparr>off := 11\<rparr>)"
    using varint_reader.returns_exact [of "reader_of ?b" "2 ^ 70" "[]"]
    by (simp add: new_reader_def reader_ok_def rest_def)
  then show ?thesis by (simp add: read_int64_def signed64_def)
qed

end
