(* ===== verification/Wire_Decode.thy ===== *)
theory Wire_Decode
  imports Wire_Reader
begin

text \<open>
  The decoding half of \<open>wire.py\<close>. All inner decoders run the same loop, reading a tag
  and then, depending on field number and wire type, a varint, a signed varint, a
  length-delimited slice, or skipping the field. The loop is \<open>fields_loop\<close>; what a
  decoder does with each field is its handler, a table from field number and wire type
  to an action on the values decoded so far.
\<close>

section \<open>The field loop\<close>

datatype 's field_action =
    TakeVarint "int \<Rightarrow> 's \<Rightarrow> 's"
  | TakeInt64 "int \<Rightarrow> 's \<Rightarrow> 's"
  | TakeLd "bytes \<Rightarrow> 's \<Rightarrow> 's result"
  | SkipField

type_synonym 's handler = "int \<Rightarrow> int \<Rightarrow> 's field_action"

lemmas reader_moves = varint_reader.moves int64_reader.moves tag_reader.moves ld_reader.moves skip_moves

function fields_loop :: "'s handler \<Rightarrow> reader \<Rightarrow> 's \<Rightarrow> 's result" where
  "fields_loop h r s =
    (if remaining r > 0 then
       bindR (read_tag r) (\<lambda>(tag, r1). case tag of (field, wire) \<Rightarrow>
         (case h field wire of
            TakeVarint f \<Rightarrow> bindR (read_varint r1) (\<lambda>(v, r2). fields_loop h r2 (f v s))
          | TakeInt64 f \<Rightarrow> bindR (read_int64 r1) (\<lambda>(v, r2). fields_loop h r2 (f v s))
          | TakeLd f \<Rightarrow> bindR (read_ld r1) (\<lambda>(b, r2). bindR (f b s) (\<lambda>s'. fields_loop h r2 s'))
          | SkipField \<Rightarrow> bindR (skip wire r1) (\<lambda>r2. fields_loop h r2 s)))
     else Inr s)"
  by pat_completeness auto
termination
  by (relation "measure (\<lambda>(h, r, s). rend r - off r)")
     (auto simp: remaining_def moved_def dest!: reader_moves)

declare fields_loop.simps [simp del]


section \<open>Inner decoders\<close>

fun value_step :: "(pystr \<times> bytes \<times> int) handler" where
  "value_step field wire =
    (if field = VAL_KEY \<and> wire = WT_LD then
       TakeLd (\<lambda>b (key, value, version). bindR (py_decode b) (\<lambda>k. Inr (k, value, version)))
     else if field = VAL_VALUE \<and> wire = WT_LD then
       TakeLd (\<lambda>b (key, value, version). Inr (key, b, version))
     else if field = VAL_VERSION \<and> wire = WT_VARINT then
       TakeVarint (\<lambda>v (key, value, version). (key, value, v))
     else SkipField)"

definition decode_value_response :: "bytes \<Rightarrow> ClientResponse result" where
  "decode_value_response b =
    bindR (fields_loop value_step (reader_of b) ([], [], 0))
      (\<lambda>(key, value, version). Inr (RValue key value version))"

fun ok_step :: "int handler" where
  "ok_step field wire =
    (if field = VR_VERSION \<and> wire = WT_VARINT then TakeVarint (\<lambda>v version. v) else SkipField)"

definition decode_ok_response :: "bytes \<Rightarrow> ClientResponse result" where
  "decode_ok_response b =
    bindR (fields_loop ok_step (reader_of b) 0) (\<lambda>version. Inr (ROk version))"

fun error_step :: "(int \<times> pystr) handler" where
  "error_step field wire =
    (if field = ERR_CODE \<and> wire = WT_VARINT then TakeVarint (\<lambda>v (code_idx, message). (v, message))
     else if field = ERR_MESSAGE \<and> wire = WT_LD then
       TakeLd (\<lambda>b (code_idx, message). bindR (py_decode b) (\<lambda>m. Inr (code_idx, m)))
     else SkipField)"

definition error_code_of :: "int \<Rightarrow> DittoErrorCode" where
  "error_code_of code_idx =
    (if 0 \<le> code_idx \<and> code_idx < int (length ERROR_CODE_NAMES)
     then ERROR_CODE_NAMES ! nat code_idx else INTERNAL_ERROR)"

definition decode_error_response :: "bytes \<Rightarrow> ClientResponse result" where
  "decode_error_response b =
    bindR (fields_loop error_step (reader_of b) (0, []))
      (\<lambda>(code_idx, message). Inr (RError (error_code_of code_idx) message))"

fun optional_bytes_step :: "bytes handler" where
  "optional_bytes_step field wire =
    (if field = OPT_VALUE \<and> wire = WT_LD then TakeLd (\<lambda>b out. Inr b) else SkipField)"

definition decode_optional_bytes :: "bytes \<Rightarrow> bytes result" where
  "decode_optional_bytes b = fields_loop optional_bytes_step (reader_of b) []"

fun watch_event_step :: "(pystr \<times> bytes option \<times> int) handler" where
  "watch_event_step field wire =
    (if field = WE_KEY \<and> wire = WT_LD then
       TakeLd (\<lambda>b (key, value, version). bindR (py_decode b) (\<lambda>k. Inr (k, value, version)))
     else if field = WE_VALUE \<and> wire = WT_LD then
       TakeLd (\<lambda>b (key, value, version). bindR (decode_optional_bytes b) (\<lambda>v. Inr (key, Some v, version)))
     else if field = WE_VERSION \<and> wire = WT_VARINT then
       TakeVarint (\<lambda>v (key, value, version). (key, value, v))
     else SkipField)"

definition decode_watch_event :: "bytes \<Rightarrow> ClientResponse result" where
  "decode_watch_event b =
    bindR (fields_loop watch_event_step (reader_of b) ([], None, 0))
      (\<lambda>(key, value, version). Inr (RWatchEvent key value version))"

fun set_nx_step :: "(bool \<times> int) handler" where
  "set_nx_step field wire =
    (if field = SNX_CREATED \<and> wire = WT_VARINT then TakeVarint (\<lambda>v (created, version). (v \<noteq> 0, version))
     else if field = SNX_VERSION \<and> wire = WT_VARINT then TakeVarint (\<lambda>v (created, version). (created, v))
     else SkipField)"

definition decode_set_nx_response :: "bytes \<Rightarrow> ClientResponse result" where
  "decode_set_nx_response b =
    bindR (fields_loop set_nx_step (reader_of b) (False, 0))
      (\<lambda>(created, version). Inr (RSetNx created version))"

fun counter_step :: "(int \<times> int) handler" where
  "counter_step field wire =
    (if field = CTR_VALUE \<and> wire = WT_VARINT then TakeInt64 (\<lambda>v (value, version). (v, version))
     else if field = CTR_VERSION \<and> wire = WT_VARINT then TakeVarint (\<lambda>v (value, version). (value, v))
     else SkipField)"

definition decode_counter_response :: "bytes \<Rightarrow> ClientResponse result" where
  "decode_counter_response b =
    bindR (fields_loop counter_step (reader_of b) (0, 0))
      (\<lambda>(value, version). Inr (RCounter value version))"

fun count_step :: "int handler" where
  "count_step field wire =
    (if field = COUNT_FIELD \<and> wire = WT_VARINT then TakeVarint (\<lambda>v count. v) else SkipField)"

definition decode_count :: "bytes \<Rightarrow> int result" where
  "decode_count b = fields_loop count_step (reader_of b) 0"


section \<open>The response envelope\<close>

fun response_env_step :: "(bytes option \<times> int) handler" where
  "response_env_step field wire =
    (if field = ENV_VERSION \<and> wire = WT_VARINT then TakeVarint (\<lambda>v (resp, version). (resp, v))
     else if field = ENV_CLIENT_RESPONSE \<and> wire = WT_LD then TakeLd (\<lambda>b (resp, version). Inr (Some b, version))
     else SkipField)"

text \<open>
  The dispatch on the variant: the decoder of a known one, or \<open>None\<close>, on which the
  loop goes on to the next field.
\<close>

definition dispatch_response :: "int \<Rightarrow> bytes \<Rightarrow> ClientResponse result option" where
  "dispatch_response field inner =
    (if field = RESP_VALUE then Some (decode_value_response inner)
     else if field = RESP_OK then Some (decode_ok_response inner)
     else if field = RESP_DELETED then Some (Inr (RSimple ''Deleted''))
     else if field = RESP_NOT_FOUND then Some (Inr (RSimple ''NotFound''))
     else if field = RESP_PONG then Some (Inr (RSimple ''Pong''))
     else if field = RESP_AUTH_OK then Some (Inr (RSimple ''AuthOk''))
     else if field = RESP_ERROR then Some (decode_error_response inner)
     else if field = RESP_WATCHING then Some (Inr (RSimple ''Watching''))
     else if field = RESP_UNWATCHED then Some (Inr (RSimple ''Unwatched''))
     else if field = RESP_WATCH_EVENT then Some (decode_watch_event inner)
     else if field = RESP_PATTERN_DELETED then
       Some (bindR (decode_count inner) (\<lambda>n. Inr (RPatternDeleted n)))
     else if field = RESP_PATTERN_TTL_UPDATED then
       Some (bindR (decode_count inner) (\<lambda>n. Inr (RPatternTtlUpdated n)))
     else if field = RESP_SET_NX then Some (decode_set_nx_response inner)
     else if field = RESP_COUNTER then Some (decode_counter_response inner)
     else None)"

function response_loop :: "reader \<Rightarrow> ClientResponse result" where
  "response_loop r =
    (if remaining r > 0 then
       bindR (read_tag r) (\<lambda>(tag, r1). case tag of (field, wire) \<Rightarrow>
         if wire \<noteq> WT_LD then bindR (skip wire r1) (\<lambda>r2. response_loop r2)
         else bindR (read_ld r1) (\<lambda>(inner, r2).
           (case dispatch_response field inner of
              Some resp \<Rightarrow> resp
            | None \<Rightarrow> response_loop r2)))
     else Inl (ValueError (lit ''ClientResponse oneof has no active field'')))"
  by pat_completeness auto
termination
  by (relation "measure (\<lambda>r. rend r - off r)")
     (auto simp: remaining_def moved_def dest!: reader_moves)

declare response_loop.simps [simp del]

definition decode_response :: "bytes \<Rightarrow> ClientResponse result" where
  "decode_response b =
    bindR (fields_loop response_env_step (reader_of b) (None, 0)) (\<lambda>(response_bytes, version).
      if version \<noteq> 0 \<and> version \<noteq> PROTOCOL_VERSION
      then Inl (ValueError (lit ''unsupported protocol version: '' @ py_str_int version))
      else (case response_bytes of
          None \<Rightarrow> Inl (ValueError (lit ''Envelope is missing client_response payload''))
        | Some rb \<Rightarrow> response_loop (reader_of rb)))"


section \<open>The request envelope\<close>

fun request_env_step :: "bytes option handler" where
  "request_env_step field wire =
    (if field = ENV_CLIENT_REQUEST \<and> wire = WT_LD then TakeLd (\<lambda>b req. Inr (Some b)) else SkipField)"

function request_loop :: "reader \<Rightarrow> (int \<times> bytes) result" where
  "request_loop r =
    (if remaining r > 0 then
       bindR (read_tag r) (\<lambda>(tag, r1). case tag of (field, wire) \<Rightarrow>
         if wire \<noteq> WT_LD then bindR (skip wire r1) (\<lambda>r2. request_loop r2)
         else bindR (read_ld r1) (\<lambda>(inner, r2). Inr (field, inner)))
     else Inl (ValueError (lit ''ClientRequest oneof has no active field'')))"
  by pat_completeness auto
termination
  by (relation "measure (\<lambda>r. rend r - off r)")
     (auto simp: remaining_def moved_def dest!: reader_moves)

declare request_loop.simps [simp del]

definition decode_client_request_variant :: "bytes \<Rightarrow> (int \<times> bytes) result" where
  "decode_client_request_variant b =
    bindR (fields_loop request_env_step (reader_of b) None) (\<lambda>request_bytes.
      (case request_bytes of
          None \<Rightarrow> Inl (ValueError (lit ''Envelope is missing client_request payload''))
        | Some rb \<Rightarrow> request_loop (reader_of rb)))"

section \<open>The field numbers by name\<close>

text \<open>The tables with which the tests name the variants.\<close>

definition REQUEST_FIELDS :: "(string \<times> int) list" where
  "REQUEST_FIELDS =
    [(''GET'', REQ_GET), (''SET'', REQ_SET), (''DELETE'', REQ_DELETE), (''PING'', REQ_PING),
     (''AUTH'', REQ_AUTH), (''WATCH'', REQ_WATCH), (''UNWATCH'', REQ_UNWATCH),
     (''DELETE_BY_PATTERN'', REQ_DELETE_BY_PATTERN),
     (''SET_TTL_BY_PATTERN'', REQ_SET_TTL_BY_PATTERN),
     (''SET_NX'', REQ_SET_NX),
     (''INCR'', REQ_INCR)]"

definition RESPONSE_FIELDS :: "(string \<times> int) list" where
  "RESPONSE_FIELDS =
    [(''VALUE'', RESP_VALUE), (''OK'', RESP_OK), (''DELETED'', RESP_DELETED),
     (''NOT_FOUND'', RESP_NOT_FOUND), (''PONG'', RESP_PONG), (''AUTH_OK'', RESP_AUTH_OK),
     (''ERROR'', RESP_ERROR), (''WATCHING'', RESP_WATCHING), (''UNWATCHED'', RESP_UNWATCHED),
     (''WATCH_EVENT'', RESP_WATCH_EVENT), (''PATTERN_DELETED'', RESP_PATTERN_DELETED),
     (''PATTERN_TTL_UPDATED'', RESP_PATTERN_TTL_UPDATED),
     (''SET_NX'', RESP_SET_NX), (''COUNTER'', RESP_COUNTER)]"

text \<open>The table of responses names exactly the variants that the decoder knows.\<close>

lemma response_fields_known: "dispatch_response field inner \<noteq> None \<longleftrightarrow> field \<in> snd ` set RESPONSE_FIELDS"
  by (simp add: dispatch_response_def RESPONSE_FIELDS_def)

lemma fields_distinct: "distinct (map snd REQUEST_FIELDS)" "distinct (map snd RESPONSE_FIELDS)"
  by (simp_all add: REQUEST_FIELDS_def RESPONSE_FIELDS_def wire_const)


section \<open>The loop as a transition system\<close>

text \<open>One turn of the loop: the cursor and the values decoded so far, before and after a field.\<close>

inductive field_turn :: "'s handler \<Rightarrow> reader \<times> 's \<Rightarrow> reader \<times> 's \<Rightarrow> bool" for h where
  varint: "remaining r > 0 \<Longrightarrow> read_tag r = Inr ((field, wire), r1) \<Longrightarrow> h field wire = TakeVarint f \<Longrightarrow>
    read_varint r1 = Inr (v, r2) \<Longrightarrow> field_turn h (r, s) (r2, f v s)"
| int64: "remaining r > 0 \<Longrightarrow> read_tag r = Inr ((field, wire), r1) \<Longrightarrow> h field wire = TakeInt64 f \<Longrightarrow>
    read_int64 r1 = Inr (v, r2) \<Longrightarrow> field_turn h (r, s) (r2, f v s)"
| ld: "remaining r > 0 \<Longrightarrow> read_tag r = Inr ((field, wire), r1) \<Longrightarrow> h field wire = TakeLd g \<Longrightarrow>
    read_ld r1 = Inr (b, r2) \<Longrightarrow> g b s = Inr s' \<Longrightarrow> field_turn h (r, s) (r2, s')"
| skipped: "remaining r > 0 \<Longrightarrow> read_tag r = Inr ((field, wire), r1) \<Longrightarrow> h field wire = SkipField \<Longrightarrow>
    skip wire r1 = Inr r2 \<Longrightarrow> field_turn h (r, s) (r2, s)"

inductive_simps field_turn_simps: "field_turn h (r, s) x"

lemma field_turn_moves: "field_turn h (r, s) (r', s') \<Longrightarrow> rend r' = rend r \<and> off r < off r' \<and> off r < rend r"
  by (auto simp: field_turn_simps remaining_def moved_def dest!: reader_moves)

lemma field_turns_bound: "(field_turn h ^^ n) (r, s) (r', s') \<Longrightarrow> n \<le> rend r - off r \<and> rend r' = rend r"
proof (induction n arbitrary: r s)
  case (Suc n)
  then obtain r1 s1 where "field_turn h (r, s) (r1, s1)" "(field_turn h ^^ n) (r1, s1) (r', s')"
    by (metis relpowp_Suc_E2 surj_pair)
  then show ?case using Suc.IH [of r1 s1] field_turn_moves [of h r s r1 s1] by auto
qed simp

lemma fields_loop_turn: "field_turn h (r, s) (r', s') \<Longrightarrow> fields_loop h r s = fields_loop h r' s'"
  by (subst fields_loop.simps) (auto simp: field_turn_simps)

lemma fields_loop_turns: "(field_turn h ^^ n) (r, s) (r', s') \<Longrightarrow> fields_loop h r s = fields_loop h r' s'"
proof (induction n arbitrary: r s)
  case (Suc n)
  then obtain r1 s1 where "field_turn h (r, s) (r1, s1)" "(field_turn h ^^ n) (r1, s1) (r', s')"
    by (metis relpowp_Suc_E2 surj_pair)
  then show ?case using Suc.IH fields_loop_turn by metis
qed simp

lemma fields_loop_runs: "fields_loop h r s = Inr x \<Longrightarrow> \<exists>n r'. (field_turn h ^^ n) (r, s) (r', x) \<and> \<not> remaining r' > 0"
proof (induction h r s rule: fields_loop.induct)
  case (1 h r s)
  show ?case
  proof (cases "remaining r > 0")
    case False
    then show ?thesis using "1.prems" by (auto simp: fields_loop.simps [of h r s] intro!: exI [of _ 0])
  next
    case True
    have more: "\<exists>n r'. (field_turn h ^^ n) (r, s) (r', x) \<and> \<not> remaining r' > 0"
      if "field_turn h (r, s) (r2, s2)" "\<exists>n r'. (field_turn h ^^ n) (r2, s2) (r', x) \<and> \<not> remaining r' > 0" for r2 s2
      using that relpowp_Suc_I2 by metis
    obtain field wire r1 where tag: "read_tag r = Inr ((field, wire), r1)"
      using True "1.prems" by (auto simp: fields_loop.simps [of h r s] bindR_eq_Inr)
    show ?thesis
    proof (cases "h field wire")
      case (TakeVarint f)
      then obtain v r2 where "read_varint r1 = Inr (v, r2)" "fields_loop h r2 (f v s) = Inr x"
        using True tag "1.prems" by (auto simp: fields_loop.simps [of h r s] bindR_eq_Inr)
      then show ?thesis using "1.IH"(1) [OF True tag refl refl TakeVarint] more field_turn.varint [of r field wire r1 h f v r2 s] True tag TakeVarint by blast
    next
      case (TakeInt64 f)
      then obtain v r2 where "read_int64 r1 = Inr (v, r2)" "fields_loop h r2 (f v s) = Inr x"
        using True tag "1.prems" by (auto simp: fields_loop.simps [of h r s] bindR_eq_Inr)
      then show ?thesis using "1.IH"(2) [OF True tag refl refl TakeInt64] more field_turn.int64 [of r field wire r1 h f v r2 s] True tag TakeInt64 by blast
    next
      case (TakeLd g)
      then obtain b r2 s2 where "read_ld r1 = Inr (b, r2)" "g b s = Inr s2" "fields_loop h r2 s2 = Inr x"
        using True tag "1.prems" by (auto simp: fields_loop.simps [of h r s] bindR_eq_Inr)
      then show ?thesis using "1.IH"(3) [OF True tag refl refl TakeLd] more field_turn.ld [of r field wire r1 h g b r2 s s2] True tag TakeLd by blast
    next
      case SkipField
      then obtain r2 where "skip wire r1 = Inr r2" "fields_loop h r2 s = Inr x"
        using True tag "1.prems" by (auto simp: fields_loop.simps [of h r s] bindR_eq_Inr)
      then show ?thesis using "1.IH"(4) [OF True tag refl refl SkipField] more field_turn.skipped [of r field wire r1 h r2 s] True tag SkipField by blast
    qed
  qed
qed

text \<open>
  C34: whatever the bytes and the handler, the loop that every decoder of \<open>wire.py\<close> runs ends: no run
  of its turns is longer than the number of bytes that are left. It returns a value exactly if a
  run of that many turns or fewer reaches the end of the message with that value.
\<close>

theorem decoder_loop_ends:
  "{n. \<exists>x. (field_turn h ^^ n) (r, s) x} \<subseteq> {.. rend r - off r} \<and>
   (fields_loop h r s = Inr x \<longleftrightarrow>
     (\<exists>n r'. n \<le> rend r - off r \<and> (field_turn h ^^ n) (r, s) (r', x) \<and> remaining r' \<le> 0))"
proof -
  have "n \<le> rend r - off r" if "(field_turn h ^^ n) (r, s) y" for n y
    using that field_turns_bound [of n h r s "fst y" "snd y"] by simp
  moreover have "fields_loop h r s = Inr x" if "(field_turn h ^^ n) (r, s) (r', x)" "remaining r' \<le> 0" for n r'
    using fields_loop_turns [OF that(1)] that(2) by (simp add: fields_loop.simps [of h r' x])
  ultimately show ?thesis using fields_loop_runs [of h r s x] by (auto simp: not_less)
qed

end
