(* ===== verification/Wire_Parse.thy ===== *)
theory Wire_Parse
  imports Wire_Decode
begin

text \<open>
  The decoders as parsers of a list of bytes, and what they make of a well-formed
  message: the field loop implements a parser on the bytes that are left, and on the
  bytes of a list of fields it runs the handler over the fields in order. The handler
  contract \<open>msg_handler\<close> gives, once for all decoders, that unknown fields are
  ignored and that only \<open>ValueError\<close> is raised on malformed input.
\<close>

section \<open>The field loop on lists\<close>

lemma p_varint_loop_shorter: "p_varint_loop bs res shift = Inr (v, bs') \<Longrightarrow> length bs' < length bs"
  by (induction bs res shift rule: p_varint_loop.induct) (auto split: if_splits)

lemma p_varint_shorter: "p_varint bs = Inr (v, bs') \<Longrightarrow> length bs' < length bs"
  by (auto simp: p_varint_def dest: p_varint_loop_shorter)

lemma p_int64_shorter: "p_int64 bs = Inr (v, bs') \<Longrightarrow> length bs' < length bs"
  by (auto simp: p_int64_def bindR_eq_Inr dest: p_varint_shorter)

lemma p_tag_shorter: "p_tag bs = Inr (t, bs') \<Longrightarrow> length bs' < length bs"
  by (auto simp: p_tag_def bindR_eq_Inr dest: p_varint_shorter)

lemma p_ld_shorter: "p_ld bs = Inr (b, bs') \<Longrightarrow> length bs' < length bs"
  by (auto simp: p_ld_def bindR_eq_Inr dest!: p_varint_shorter split: if_splits)

lemma p_skip_shorter: "p_skip wire bs = Inr bs' \<Longrightarrow> length bs' \<le> length bs"
  by (auto simp: p_skip_def bindR_eq_Inr dest!: p_varint_shorter p_ld_shorter split: if_splits)

lemmas p_shorter = p_varint_shorter p_int64_shorter p_tag_shorter p_ld_shorter p_skip_shorter

function p_fields :: "'s handler \<Rightarrow> bytes \<Rightarrow> 's \<Rightarrow> 's result" where
  "p_fields h bs s =
    (if bs \<noteq> [] then
       bindR (p_tag bs) (\<lambda>(tag, b1). case tag of (field, wire) \<Rightarrow>
         (case h field wire of
            TakeVarint f \<Rightarrow> bindR (p_varint b1) (\<lambda>(v, b2). p_fields h b2 (f v s))
          | TakeInt64 f \<Rightarrow> bindR (p_int64 b1) (\<lambda>(v, b2). p_fields h b2 (f v s))
          | TakeLd f \<Rightarrow> bindR (p_ld b1) (\<lambda>(b, b2). bindR (f b s) (\<lambda>s'. p_fields h b2 s'))
          | SkipField \<Rightarrow> bindR (p_skip wire b1) (\<lambda>b2. p_fields h b2 s)))
     else Inr s)"
  by pat_completeness auto
termination
  by (relation "measure (\<lambda>(h, bs, s). length bs)") (auto dest!: p_shorter)

declare p_fields.simps [simp del]

lemma p_fields_Nil [simp]: "p_fields h [] s = Inr s"
  by (simp add: p_fields.simps)

theorem fields_loop_refines: "reader_ok r \<Longrightarrow> fields_loop h r s = p_fields h (rest r) s"
proof (induction h r s rule: fields_loop.induct)
  case (1 h r s)
  show ?case
  proof (cases "remaining r > 0")
    case False
    with "1.prems" show ?thesis
      by (subst fields_loop.simps) (simp add: remaining_pos)
  next
    case True
    have "fields_loop h r s = bindR (read_tag r) (\<lambda>(tag, r1). case tag of (field, wire) \<Rightarrow>
         (case h field wire of
            TakeVarint f \<Rightarrow> bindR (read_varint r1) (\<lambda>(v, r2). fields_loop h r2 (f v s))
          | TakeInt64 f \<Rightarrow> bindR (read_int64 r1) (\<lambda>(v, r2). fields_loop h r2 (f v s))
          | TakeLd f \<Rightarrow> bindR (read_ld r1) (\<lambda>(b, r2). bindR (f b s) (\<lambda>s'. fields_loop h r2 s'))
          | SkipField \<Rightarrow> bindR (skip wire r1) (\<lambda>r2. fields_loop h r2 s)))"
      using True by (subst fields_loop.simps) simp
    also have "\<dots> = bindR (p_tag (rest r)) (\<lambda>(tag, b1). case tag of (field, wire) \<Rightarrow>
         (case h field wire of
            TakeVarint f \<Rightarrow> bindR (p_varint b1) (\<lambda>(v, b2). p_fields h b2 (f v s))
          | TakeInt64 f \<Rightarrow> bindR (p_int64 b1) (\<lambda>(v, b2). p_fields h b2 (f v s))
          | TakeLd f \<Rightarrow> bindR (p_ld b1) (\<lambda>(b, b2). bindR (f b s) (\<lambda>s'. p_fields h b2 s'))
          | SkipField \<Rightarrow> bindR (p_skip wire b1) (\<lambda>b2. p_fields h b2 s)))"
    proof (rule tag_reader.bind_view [OF "1.prems"], goal_cases)
      case (1 tag r1)
      note IH = "1.IH" [OF True 1(1) refl]
      show ?case
        using 1(2) IH
        by (cases tag) (auto split: field_action.split intro!: varint_reader.bind_view int64_reader.bind_view
            ld_reader.bind_view skip_bind_view bindR_cong)
    qed
    also have "\<dots> = p_fields h (rest r) s"
      using True "1.prems" by (subst (5) p_fields.simps) (simp add: remaining_pos)
    finally show ?thesis .
  qed
qed


section \<open>Running a handler over fields\<close>

fun run_field :: "'s handler \<Rightarrow> wire_field \<Rightarrow> 's \<Rightarrow> 's result" where
  "run_field h (VarintField f v) s =
    (case h f 0 of
       TakeVarint g \<Rightarrow> Inr (g v s)
     | TakeInt64 g \<Rightarrow> Inr (g (signed64 v) s)
     | _ \<Rightarrow> Inr s)"
| "run_field h (LdField f p) s = (case h f 2 of TakeLd g \<Rightarrow> g p s | _ \<Rightarrow> Inr s)"

fun run_fields :: "'s handler \<Rightarrow> wire_field list \<Rightarrow> 's \<Rightarrow> 's result" where
  "run_fields h [] s = Inr s"
| "run_fields h (x # xs) s = bindR (run_field h x s) (run_fields h xs)"

lemma run_fields_append: "run_fields h (xs @ ys) s = bindR (run_fields h xs s) (run_fields h ys)"
  by (induction xs arbitrary: s) (simp_all add: bindR_assoc cong: bindR_cong)

text \<open>Field numbers, varints and payload lengths within what the cursor can read back.\<close>

fun wf_field :: "wire_field \<Rightarrow> bool" where
  "wf_field (VarintField f v) \<longleftrightarrow> 0 \<le> f \<and> f < 2 ^ 60 \<and> 0 \<le> v \<and> v < 2 ^ 77"
| "wf_field (LdField f p) \<longleftrightarrow> 0 \<le> f \<and> f < 2 ^ 60 \<and> int (length p) < 2 ^ 77"

definition value_error :: "py_exc \<Rightarrow> bool" where
  "value_error e \<longleftrightarrow> e = UnicodeDecodeError \<or> (\<exists>m. e = ValueError m)"

lemma value_error_simps [simp]: "value_error (ValueError m)" "value_error UnicodeDecodeError"
  by (simp_all add: value_error_def)

lemma py_decode_error: "py_decode b = Inl e \<Longrightarrow> value_error e"
  by (auto simp: py_decode_def split: option.splits)

lemma p_varint_loop_error: "p_varint_loop bs res shift = Inl e \<Longrightarrow> value_error e"
  by (induction bs res shift rule: p_varint_loop.induct) (auto split: if_splits)

lemma p_varint_error: "p_varint bs = Inl e \<Longrightarrow> value_error e"
  by (auto simp: p_varint_def dest: p_varint_loop_error)

lemma p_int64_error: "p_int64 bs = Inl e \<Longrightarrow> value_error e"
  by (auto simp: p_int64_def bindR_eq_Inl dest: p_varint_error)

lemma p_tag_error: "p_tag bs = Inl e \<Longrightarrow> value_error e"
  by (auto simp: p_tag_def bindR_eq_Inl dest: p_varint_error)

lemma p_ld_error: "p_ld bs = Inl e \<Longrightarrow> value_error e"
  by (auto simp: p_ld_def bindR_eq_Inl split: if_splits dest: p_varint_error)

lemma p_skip_error: "p_skip wire bs = Inl e \<Longrightarrow> value_error e"
  by (auto simp: p_skip_def bindR_eq_Inl split: if_splits dest: p_varint_error p_ld_error)

lemmas p_errors = p_varint_error p_int64_error p_tag_error p_ld_error p_skip_error

text \<open>
  The contract of a handler: varints are taken only from varint fields, slices only
  from length-delimited ones, every other wire type is skipped, and an action raises
  nothing but \<open>ValueError\<close>.
\<close>

locale msg_handler =
  fixes h :: "'s handler"
  assumes varint_kind: "h f 0 \<noteq> TakeLd g"
    and ld_kind: "h f 2 \<noteq> TakeVarint g'" "h f 2 \<noteq> TakeInt64 g'"
    and other_kind: "w \<noteq> 0 \<Longrightarrow> w \<noteq> 2 \<Longrightarrow> h f w = SkipField"
    and action_error: "h f w = TakeLd g \<Longrightarrow> g b s = Inl e \<Longrightarrow> value_error e"
begin

lemma p_fields_field:
  assumes "wf_field x"
  shows "p_fields h (field_bytes x @ bs) s = bindR (run_field h x s) (p_fields h bs)"
proof (cases x)
  case (VarintField f v)
  have "p_tag (field_bytes x @ bs) = Inr ((f, 0), varint v @ bs)"
    using VarintField assms by simp
  then show ?thesis
    using VarintField assms
    by (subst p_fields.simps) (cases "h f 0", simp_all add: p_skip_def varint_kind)
next
  case (LdField f p)
  have "p_tag (field_bytes x @ bs) = Inr ((f, 2), varint (int (length p)) @ p @ bs)"
    using LdField assms by simp
  then show ?thesis
    using LdField assms
    by (subst p_fields.simps) (cases "h f 2", simp_all add: p_skip_def ld_kind)
qed

lemma p_fields_msg:
  "list_all wf_field fs \<Longrightarrow> p_fields h (msg_bytes fs @ bs) s = bindR (run_fields h fs s) (p_fields h bs)"
  by (induction fs arbitrary: s) (simp_all add: p_fields_field bindR_assoc cong: bindR_cong)

lemma parse_msg: "list_all wf_field fs \<Longrightarrow> p_fields h (msg_bytes fs) s = run_fields h fs s"
  using p_fields_msg [of fs "[]" s] p_fields_Nil [of h] by (simp cong: bindR_cong)

text \<open>Decoding the bytes of a message runs the handler over its fields.\<close>

lemma decode_msg:
  "list_all wf_field fs \<Longrightarrow> fields_loop h (reader_of (msg_bytes fs)) s = run_fields h fs s"
  by (simp add: fields_loop_refines parse_msg)

text \<open>A field the handler skips has no effect, wherever it stands.\<close>

lemma unknown_varint: "h f 0 = SkipField \<Longrightarrow>
    run_fields h (xs @ VarintField f v # ys) s = run_fields h (xs @ ys) s"
  by (simp add: run_fields_append cong: bindR_cong)

lemma unknown_ld: "h f 2 = SkipField \<Longrightarrow>
    run_fields h (xs @ LdField f p # ys) s = run_fields h (xs @ ys) s"
  by (simp add: run_fields_append cong: bindR_cong)

text \<open>On any input at all, the loop raises nothing but \<open>ValueError\<close>.\<close>

lemma p_fields_error: "p_fields h' bs s = Inl e \<Longrightarrow> h' = h \<Longrightarrow> value_error e"
proof (induction h' bs s rule: p_fields.induct)
  case (1 h' bs s)
  show ?case
  proof (cases "bs = []")
    case True
    with "1.prems" show ?thesis by simp
  next
    case False
    show ?thesis
    proof (cases "p_tag bs")
      case (Inl e')
      with "1.prems" False show ?thesis
        by (subst (asm) p_fields.simps) (auto dest: p_tag_error)
    next
      case (Inr t)
      then obtain f w b1 where tag: "p_tag bs = Inr ((f, w), b1)" by (cases t) auto
      note IH = "1.IH" [OF False tag refl refl]
      show ?thesis
        using "1.prems" False tag IH
        by (subst (asm) p_fields.simps)
           (auto simp: bindR_eq_Inl split: field_action.splits dest: p_errors action_error)
    qed
  qed
qed

lemma loop_error: "fields_loop h (reader_of bs) s = Inl e \<Longrightarrow> value_error e"
  by (simp add: fields_loop_refines) (rule p_fields_error [OF _ refl])

end


section \<open>The decoders meet the handler contract\<close>

interpretation value_msg: msg_handler value_step
  by unfold_locales (auto simp: wire_const bindR_eq_Inl split: if_splits prod.splits dest: py_decode_error)

interpretation ok_msg: msg_handler ok_step
  by unfold_locales (auto simp: wire_const split: if_splits)

interpretation error_msg: msg_handler error_step
  by unfold_locales (auto simp: wire_const bindR_eq_Inl split: if_splits prod.splits dest: py_decode_error)

interpretation optional_bytes_msg: msg_handler optional_bytes_step
  by unfold_locales (auto simp: wire_const split: if_splits)

lemma decode_optional_bytes_error: "decode_optional_bytes b = Inl e \<Longrightarrow> value_error e"
  by (simp add: decode_optional_bytes_def optional_bytes_msg.loop_error)

interpretation watch_event_msg: msg_handler watch_event_step
  by unfold_locales
     (auto simp: wire_const bindR_eq_Inl split: if_splits prod.splits
       dest: py_decode_error decode_optional_bytes_error)

interpretation set_nx_msg: msg_handler set_nx_step
  by unfold_locales (auto simp: wire_const split: if_splits)

interpretation counter_msg: msg_handler counter_step
  by unfold_locales (auto simp: wire_const split: if_splits)

interpretation count_msg: msg_handler count_step
  by unfold_locales (auto simp: wire_const split: if_splits)

interpretation response_env: msg_handler response_env_step
  by unfold_locales (auto simp: wire_const split: if_splits prod.splits)

interpretation request_env: msg_handler request_env_step
  by unfold_locales (auto simp: wire_const split: if_splits)


section \<open>The variant loops on lists\<close>

function p_response :: "bytes \<Rightarrow> ClientResponse result" where
  "p_response bs =
    (if bs \<noteq> [] then
       bindR (p_tag bs) (\<lambda>(tag, b1). case tag of (field, wire) \<Rightarrow>
         if wire \<noteq> 2 then bindR (p_skip wire b1) (\<lambda>b2. p_response b2)
         else bindR (p_ld b1) (\<lambda>(inner, b2).
           (case dispatch_response field inner of
              Some resp \<Rightarrow> resp
            | None \<Rightarrow> p_response b2)))
     else Inl (ValueError (lit ''ClientResponse oneof has no active field'')))"
  by pat_completeness auto
termination
  by (relation "measure length") (auto dest!: p_shorter)

declare p_response.simps [simp del]

lemma p_response_Nil [simp]:
  "p_response [] = Inl (ValueError (lit ''ClientResponse oneof has no active field''))"
  by (subst p_response.simps) simp

lemma response_loop_refines: "reader_ok r \<Longrightarrow> response_loop r = p_response (rest r)"
proof (induction r rule: response_loop.induct)
  case (1 r)
  show ?case
  proof (cases "remaining r > 0")
    case False
    with "1.prems" show ?thesis
      by (simp add: response_loop.simps [of r] remaining_pos)
  next
    case True
    then have ne: "rest r \<noteq> []" using "1.prems" by (simp add: remaining_pos)
    show ?thesis
      unfolding response_loop.simps [of r] p_response.simps [of "rest r"]
        if_P [OF True] if_P [OF ne]
    proof (rule tag_reader.bind_view [OF "1.prems"], goal_cases)
      case (1 tag r1)
      note IH = "1.IH" [OF True 1(1) refl]
      show ?case
        using 1(2) IH
        by (cases tag) (auto simp: wire_const split: option.split
            intro!: ld_reader.bind_view skip_bind_view)
    qed
  qed
qed

function p_request :: "bytes \<Rightarrow> (int \<times> bytes) result" where
  "p_request bs =
    (if bs \<noteq> [] then
       bindR (p_tag bs) (\<lambda>(tag, b1). case tag of (field, wire) \<Rightarrow>
         if wire \<noteq> 2 then bindR (p_skip wire b1) (\<lambda>b2. p_request b2)
         else bindR (p_ld b1) (\<lambda>(inner, b2). Inr (field, inner)))
     else Inl (ValueError (lit ''ClientRequest oneof has no active field'')))"
  by pat_completeness auto
termination
  by (relation "measure length") (auto dest!: p_shorter)

declare p_request.simps [simp del]

lemma p_request_Nil [simp]:
  "p_request [] = Inl (ValueError (lit ''ClientRequest oneof has no active field''))"
  by (subst p_request.simps) simp

lemma request_loop_refines: "reader_ok r \<Longrightarrow> request_loop r = p_request (rest r)"
proof (induction r rule: request_loop.induct)
  case (1 r)
  show ?case
  proof (cases "remaining r > 0")
    case False
    with "1.prems" show ?thesis
      by (simp add: request_loop.simps [of r] remaining_pos)
  next
    case True
    then have ne: "rest r \<noteq> []" using "1.prems" by (simp add: remaining_pos)
    show ?thesis
      unfolding request_loop.simps [of r] p_request.simps [of "rest r"]
        if_P [OF True] if_P [OF ne]
    proof (rule tag_reader.bind_view [OF "1.prems"], goal_cases)
      case (1 tag r1)
      note IH = "1.IH" [OF True 1(1) refl]
      show ?case
        using 1(2) IH
        by (cases tag) (auto simp: wire_const intro!: ld_reader.bind_view skip_bind_view)
    qed
  qed
qed

lemma p_response_field:
  "wf_field (LdField f p) \<Longrightarrow> p_response (field_bytes (LdField f p) @ bs) =
    (case dispatch_response f p of Some resp \<Rightarrow> resp | None \<Rightarrow> p_response bs)"
  by (subst p_response.simps) simp

lemma p_response_varint:
  "wf_field (VarintField f v) \<Longrightarrow> p_response (field_bytes (VarintField f v) @ bs) = p_response bs"
  by (subst p_response.simps) (simp add: p_skip_def)

lemma p_request_field:
  "wf_field (LdField f p) \<Longrightarrow> p_request (field_bytes (LdField f p) @ bs) = Inr (f, p)"
  by (subst p_request.simps) simp


section \<open>Malformed input\<close>

lemma dispatch_error: "dispatch_response f p = Some (Inl e) \<Longrightarrow> value_error e"
  by (auto simp: dispatch_response_def decode_value_response_def decode_ok_response_def
      decode_error_response_def decode_watch_event_def decode_count_def decode_set_nx_response_def
      decode_counter_response_def bindR_eq_Inl split: if_splits prod.splits
      dest: value_msg.loop_error ok_msg.loop_error error_msg.loop_error watch_event_msg.loop_error
        count_msg.loop_error set_nx_msg.loop_error counter_msg.loop_error)

lemma p_response_error: "p_response bs = Inl e \<Longrightarrow> value_error e"
proof (induction bs rule: p_response.induct)
  case (1 bs)
  show ?case
  proof (cases "bs = []")
    case True
    with "1.prems" show ?thesis by auto
  next
    case False
    show ?thesis
    proof (cases "p_tag bs")
      case (Inl e')
      with "1.prems" False show ?thesis
        by (subst (asm) p_response.simps) (auto dest: p_tag_error)
    next
      case (Inr t)
      then obtain f w b1 where tag: "p_tag bs = Inr ((f, w), b1)" by (cases t) auto
      note IH = "1.IH" [OF False tag refl refl]
      show ?thesis
        using "1.prems" False tag IH
        by (subst (asm) p_response.simps)
           (auto simp: bindR_eq_Inl split: if_splits option.splits dest: p_errors dispatch_error;
            metis dispatch_error option.exhaust)
    qed
  qed
qed

lemma decode_response_error: "decode_response b = Inl e \<Longrightarrow> value_error e"
  by (auto simp: decode_response_def bindR_eq_Inl response_loop_refines
      split: if_splits option.splits prod.splits dest: response_env.loop_error p_response_error)

lemma p_request_error: "p_request bs = Inl e \<Longrightarrow> value_error e"
proof (induction bs rule: p_request.induct)
  case (1 bs)
  show ?case
  proof (cases "bs = [] \<or> (\<exists>e'. p_tag bs = Inl e')")
    case True
    with "1.prems" show ?thesis
      by (subst (asm) p_request.simps) (auto split: if_splits dest: p_tag_error)
  next
    case False
    then obtain f w b1 where ne: "bs \<noteq> []" and tag: "p_tag bs = Inr ((f, w), b1)"
      by (cases "p_tag bs") auto
    show ?thesis
      using "1.prems" ne tag "1.IH" [OF ne tag refl refl]
      by (subst (asm) p_request.simps) (auto simp: bindR_eq_Inl split: if_splits dest: p_errors)
  qed
qed

lemma decode_request_error: "decode_client_request_variant b = Inl e \<Longrightarrow> value_error e"
  by (auto simp: decode_client_request_variant_def bindR_eq_Inl request_loop_refines
      split: option.splits dest: request_env.loop_error p_request_error)


section \<open>Properties of the decoders\<close>

text \<open>
  C24: the cursor loop of the decoders, run on any buffer, computes what the reference
  parser computes on its bytes as a list.
\<close>

theorem loop_parses_bytes: "fields_loop h (reader_of b) s = p_fields h b s"
  by (simp add: fields_loop_refines)

text \<open>
  C14: on any byte string at all, \<open>decode_response\<close> and
  \<open>decode_client_request_variant\<close> return a message or raise \<open>ValueError\<close> (of
  which \<open>UnicodeDecodeError\<close> is a subclass), never another exception, such as an index
  out of range.
\<close>

theorem decoders_raise_value_error:
  "decode_response b = Inl e \<or> decode_client_request_variant b = Inl e \<Longrightarrow> value_error e"
  by (auto dest: decode_response_error decode_request_error)

theorem decoders_raise_value_error_witness:
  "value_error (ValueError (lit ''truncated varint''))"
proof (rule decoders_raise_value_error [of "[0x08, 0x80]"])
  have "decode_response [0x08, 0x80] = Inl (ValueError (lit ''truncated varint''))"
    by (simp add: decode_response_def fields_loop_refines p_fields.simps p_tag_def p_varint_def wire_const)
  then show "decode_response [0x08, 0x80] = Inl (ValueError (lit ''truncated varint'')) \<or>
      decode_client_request_variant [0x08, 0x80] = Inl (ValueError (lit ''truncated varint''))" ..
qed

text \<open>
  C36: fields a newer server adds are ignored: a field with a number above those of the
  schema, of either wire type and at any place of a well-formed message, does not change what
  any of the message decoders returns.
\<close>

theorem new_fields_ignored:
  assumes "list_all wf_field (xs @ x # ys)" "case x of VarintField f v \<Rightarrow> 4 \<le> f | LdField f p \<Rightarrow> 4 \<le> f"
  shows "decode_value_response (msg_bytes (xs @ x # ys)) = decode_value_response (msg_bytes (xs @ ys)) \<and>
    decode_ok_response (msg_bytes (xs @ x # ys)) = decode_ok_response (msg_bytes (xs @ ys)) \<and>
    decode_error_response (msg_bytes (xs @ x # ys)) = decode_error_response (msg_bytes (xs @ ys)) \<and>
    decode_watch_event (msg_bytes (xs @ x # ys)) = decode_watch_event (msg_bytes (xs @ ys)) \<and>
    decode_count (msg_bytes (xs @ x # ys)) = decode_count (msg_bytes (xs @ ys)) \<and>
    decode_set_nx_response (msg_bytes (xs @ x # ys)) = decode_set_nx_response (msg_bytes (xs @ ys)) \<and>
    decode_counter_response (msg_bytes (xs @ x # ys)) = decode_counter_response (msg_bytes (xs @ ys))"
proof -
  have wf: "list_all wf_field (xs @ ys)" using assms(1) by simp
  show ?thesis
    using assms(2)
    unfolding decode_value_response_def decode_ok_response_def decode_error_response_def
      decode_watch_event_def decode_count_def decode_set_nx_response_def decode_counter_response_def
      value_msg.decode_msg [OF assms(1)] value_msg.decode_msg [OF wf]
      ok_msg.decode_msg [OF assms(1)] ok_msg.decode_msg [OF wf]
      error_msg.decode_msg [OF assms(1)] error_msg.decode_msg [OF wf]
      watch_event_msg.decode_msg [OF assms(1)] watch_event_msg.decode_msg [OF wf]
      count_msg.decode_msg [OF assms(1)] count_msg.decode_msg [OF wf]
      set_nx_msg.decode_msg [OF assms(1)] set_nx_msg.decode_msg [OF wf]
      counter_msg.decode_msg [OF assms(1)] counter_msg.decode_msg [OF wf]
    by (cases x)
       (simp_all add: value_msg.unknown_varint value_msg.unknown_ld ok_msg.unknown_varint ok_msg.unknown_ld
          error_msg.unknown_varint error_msg.unknown_ld watch_event_msg.unknown_varint watch_event_msg.unknown_ld
          count_msg.unknown_varint count_msg.unknown_ld set_nx_msg.unknown_varint set_nx_msg.unknown_ld
          counter_msg.unknown_varint counter_msg.unknown_ld wire_const)
qed

theorem new_fields_ignored_witness:
  "decode_ok_response (msg_bytes [VarintField 9 1, VarintField 1 7]) = decode_ok_response (msg_bytes [VarintField 1 7])"
  using new_fields_ignored [of "[]" "VarintField 9 1" "[VarintField 1 7]"] by simp

text \<open>
  A response variant the client does not know is passed over, and decoding goes on
  with the fields behind it.
\<close>

theorem unknown_variant_skipped:
  assumes "0 \<le> f" "f < 2 ^ 60" "dispatch_response f p = None" "int (length p) < 2 ^ 32"
  shows "response_loop (reader_of (field_bytes (LdField f p) @ bs)) = response_loop (reader_of bs)"
  using assms p_response_field [of f p bs] by (simp add: response_loop_refines del: field_bytes.simps)

theorem unknown_variant_skipped_witness:
  "response_loop (reader_of (field_bytes (LdField 99 [1, 2]) @ field_bytes (LdField 5 []))) =
    response_loop (reader_of (field_bytes (LdField 5 [])))"
  by (rule unknown_variant_skipped) (simp_all add: dispatch_response_def wire_const)

text \<open>
  \<open>skip\<close> moves over a fixed-width field without looking whether it is there: a
  message that ends inside a 64-bit or 32-bit field is accepted as if it were complete.
\<close>

theorem truncated_fixed_accepted:
  "decode_ok_response [0x08, 0x05, 0x11] = Inr (ROk 5) \<and> decode_ok_response [0x08, 0x05, 0x15, 0xFF] = Inr (ROk 5)"
  by (simp add: decode_ok_response_def fields_loop_refines p_fields.simps p_tag_def p_varint_def p_skip_def wire_const)

end
