(* ===== verification/Wire_Response.thy ===== *)
theory Wire_Response
  imports Wire_Parse
begin

text \<open>
  Responses across the wire: a server that writes a response with the frame builders of
  \<open>wire.py\<close> is understood by \<open>decode_response\<close>, for every response and every value
  in range.
\<close>

section \<open>Responses as the server writes them\<close>

text \<open>The wire number of an error code is its position in the table.\<close>

fun index_in :: "'a list \<Rightarrow> 'a \<Rightarrow> nat" where
  "index_in [] y = 0"
| "index_in (x # xs) y = (if x = y then 0 else Suc (index_in xs y))"

definition error_index :: "DittoErrorCode \<Rightarrow> int" where
  "error_index c = int (index_in ERROR_CODE_NAMES c)"

lemma error_code_of_index [simp]: "error_code_of (error_index c) = c"
  by (cases c) (simp_all add: error_code_of_def error_index_def ERROR_CODE_NAMES_def)

lemma error_index_bounds: "0 \<le> error_index c" "error_index c < 14"
  by (cases c; simp add: error_index_def ERROR_CODE_NAMES_def)+

definition simple_variant :: "string \<Rightarrow> int" where
  "simple_variant t =
    (if t = ''Deleted'' then RESP_DELETED else if t = ''NotFound'' then RESP_NOT_FOUND
     else if t = ''Pong'' then RESP_PONG else if t = ''AuthOk'' then RESP_AUTH_OK
     else if t = ''Watching'' then RESP_WATCHING else RESP_UNWATCHED)"

text \<open>
  Variant and payload, with the payload builders of the code where it has one (it has
  none for \<open>Value\<close> and the two counts, whose fields are written out).
\<close>

fun response_inner :: "ClientResponse \<Rightarrow> int \<times> bytes result" where
  "response_inner (RValue k v n) =
    (RESP_VALUE, join_parts [string_field VAL_KEY k, bytes_field VAL_VALUE v, uint64_field VAL_VERSION n])"
| "response_inner (ROk n) = (RESP_OK, encode_version_response_inner n)"
| "response_inner (RSimple t) = (simple_variant t, Inr [])"
| "response_inner (RError c m) = (RESP_ERROR, encode_error_response_inner (error_index c) m)"
| "response_inner (RWatchEvent k v n) = (RESP_WATCH_EVENT, encode_watch_event_inner k v n)"
| "response_inner (RPatternDeleted n) = (RESP_PATTERN_DELETED, uint64_field COUNT_FIELD n)"
| "response_inner (RPatternTtlUpdated n) = (RESP_PATTERN_TTL_UPDATED, uint64_field COUNT_FIELD n)"
| "response_inner (RSetNx c n) = (RESP_SET_NX, encode_set_nx_response_inner c n)"
| "response_inner (RCounter v n) = (RESP_COUNTER, encode_counter_response_inner v n)"

definition server_frame :: "ClientResponse \<Rightarrow> bytes result" where
  "server_frame resp =
    (case response_inner resp of (variant, inner) \<Rightarrow> bindR inner (frame_client_response variant))"

fun response_layout :: "ClientResponse \<Rightarrow> int \<times> wire_field list" where
  "response_layout (RValue k v n) =
    (RESP_VALUE, str_part VAL_KEY k @ raw_part VAL_VALUE v @ num_part VAL_VERSION n)"
| "response_layout (ROk n) = (RESP_OK, num_part VR_VERSION n)"
| "response_layout (RSimple t) = (simple_variant t, [])"
| "response_layout (RError c m) = (RESP_ERROR, num_part ERR_CODE (error_index c) @ str_part ERR_MESSAGE m)"
| "response_layout (RWatchEvent k v n) =
    (RESP_WATCH_EVENT, str_part WE_KEY k
      @ (case v of None \<Rightarrow> [] | Some b \<Rightarrow> [LdField WE_VALUE (msg_bytes (raw_part OPT_VALUE b))])
      @ num_part WE_VERSION n)"
| "response_layout (RPatternDeleted n) = (RESP_PATTERN_DELETED, num_part COUNT_FIELD n)"
| "response_layout (RPatternTtlUpdated n) = (RESP_PATTERN_TTL_UPDATED, num_part COUNT_FIELD n)"
| "response_layout (RSetNx c n) =
    (RESP_SET_NX, num_part SNX_CREATED (if c then 1 else 0) @ num_part SNX_VERSION n)"
| "response_layout (RCounter v n) =
    (RESP_COUNTER, VarintField CTR_VALUE (v mod 2 ^ 64) # num_part CTR_VERSION n)"

definition u64 :: "int \<Rightarrow> bool" where
  "u64 n \<longleftrightarrow> 0 \<le> n \<and> n < 2 ^ 64"

definition i64 :: "int \<Rightarrow> bool" where
  "i64 n \<longleftrightarrow> - (2 ^ 63) \<le> n \<and> n < 2 ^ 63"

fun response_range :: "ClientResponse \<Rightarrow> bool" where
  "response_range (RValue k v n) \<longleftrightarrow> encodable k \<and> u64 n"
| "response_range (ROk n) \<longleftrightarrow> u64 n"
| "response_range (RSimple t) \<longleftrightarrow>
    t \<in> {''Deleted'', ''NotFound'', ''Pong'', ''AuthOk'', ''Watching'', ''Unwatched''}"
| "response_range (RError c m) \<longleftrightarrow> encodable m"
| "response_range (RWatchEvent k v n) \<longleftrightarrow> encodable k \<and> u64 n"
| "response_range (RPatternDeleted n) \<longleftrightarrow> u64 n"
| "response_range (RPatternTtlUpdated n) \<longleftrightarrow> u64 n"
| "response_range (RSetNx c n) \<longleftrightarrow> u64 n"
| "response_range (RCounter v n) \<longleftrightarrow> i64 v \<and> u64 n"

definition response_envelope :: "ClientResponse \<Rightarrow> bytes" where
  "response_envelope resp =
    envelope ENV_CLIENT_RESPONSE (fst (response_layout resp)) (msg_bytes (snd (response_layout resp)))"

text \<open>A response the server can send: its values in range, its envelope in one frame.\<close>

definition valid_response :: "ClientResponse \<Rightarrow> bool" where
  "valid_response resp \<longleftrightarrow> response_range resp \<and> fits_frame (response_envelope resp)"

lemma join_two: "join_parts [Inr a, Inr b] = Inr (a @ b)"
  by simp

lemma response_inner_layout:
  "response_range resp \<Longrightarrow>
   response_inner resp = (fst (response_layout resp), Inr (msg_bytes (snd (response_layout resp))))"
  using error_index_bounds
  by (cases resp)
     (auto simp: layout wire_const u64_def encode_version_response_inner_def
        encode_error_response_inner_def encode_watch_event_inner_def encode_set_nx_response_inner_def
        encode_counter_response_inner_def split: option.split)

lemma response_variant_nonneg: "0 \<le> fst (response_layout resp)" "fst (response_layout resp) < 2 ^ 60"
  by (cases resp; simp add: wire_const simple_variant_def)+

lemma server_frame_eq:
  "valid_response resp \<Longrightarrow> server_frame resp = Inr (frame (response_envelope resp))"
  by (simp add: server_frame_def valid_response_def response_inner_layout frame_client_response_eq
      response_variant_nonneg response_envelope_def)


section \<open>Sizes\<close>

lemma field_in_msg: "x \<in> set fs \<Longrightarrow> length (field_bytes x) \<le> length (msg_bytes fs)"
  by (induction fs) auto

lemma ld_in_field: "length p < length (field_bytes (LdField f p))"
  by simp

lemma ld_in_msg: "LdField f p \<in> set fs \<Longrightarrow> length p < length (msg_bytes fs)"
  using field_in_msg ld_in_field by (metis less_le_trans)

lemma fits_inner: "fits_frame (envelope side variant inner) \<Longrightarrow> int (length inner) < 2 ^ 32"
  by (simp add: fits_frame_def envelope_def)

lemma fits_request: "fits_frame (envelope side variant inner) \<Longrightarrow>
    int (length (msg_bytes [LdField variant inner])) < 2 ^ 32"
  by (simp add: fits_frame_def envelope_def)


section \<open>Decoding one response\<close>

lemma decode_value_layout:
  assumes "encodable k" "u64 n" "int (length (utf8_bytes k)) < 2 ^ 77" "int (length v) < 2 ^ 77"
  shows "decode_value_response (msg_bytes (str_part VAL_KEY k @ raw_part VAL_VALUE v @ num_part VAL_VERSION n))
     = Inr (RValue k v n)"
  using assms unfolding decode_value_response_def
  by (subst value_msg.decode_msg)
     (auto simp: str_part_def raw_part_def num_part_def wire_const u64_def)

lemma decode_ok_layout: "u64 n \<Longrightarrow> decode_ok_response (msg_bytes (num_part VR_VERSION n)) = Inr (ROk n)"
  unfolding decode_ok_response_def
  by (subst ok_msg.decode_msg) (auto simp: num_part_def wire_const u64_def)

lemma decode_error_layout:
  assumes "encodable m" "int (length (utf8_bytes m)) < 2 ^ 77"
  shows "decode_error_response (msg_bytes (num_part ERR_CODE (error_index c) @ str_part ERR_MESSAGE m))
     = Inr (RError c m)"
proof -
  have idx: "error_index c = 0 \<Longrightarrow> error_code_of 0 = c"
    by (metis error_code_of_index)
  show ?thesis
    using assms idx error_index_bounds [of c] unfolding decode_error_response_def
    by (subst error_msg.decode_msg) (auto simp: num_part_def str_part_def wire_const)
qed

lemma decode_optional_bytes_layout:
  "int (length b) < 2 ^ 77 \<Longrightarrow> decode_optional_bytes (msg_bytes (raw_part OPT_VALUE b)) = Inr b"
  unfolding decode_optional_bytes_def
  by (subst optional_bytes_msg.decode_msg) (auto simp: raw_part_def wire_const)

lemma decode_watch_event_layout:
  assumes "encodable k" "u64 n" "int (length (utf8_bytes k)) < 2 ^ 77"
    and "\<And>b. v = Some b \<Longrightarrow> int (length b) < 2 ^ 77 \<and> int (length (msg_bytes (raw_part OPT_VALUE b))) < 2 ^ 77"
  shows "decode_watch_event (msg_bytes (str_part WE_KEY k
      @ (case v of None \<Rightarrow> [] | Some b \<Rightarrow> [LdField WE_VALUE (msg_bytes (raw_part OPT_VALUE b))])
      @ num_part WE_VERSION n)) = Inr (RWatchEvent k v n)"
  using assms decode_optional_bytes_layout unfolding decode_watch_event_def
  by (subst watch_event_msg.decode_msg)
     (auto simp: str_part_def num_part_def wire_const u64_def split: option.splits)

lemma decode_set_nx_layout:
  "u64 n \<Longrightarrow> decode_set_nx_response (msg_bytes (num_part SNX_CREATED (if c then 1 else 0) @ num_part SNX_VERSION n))
     = Inr (RSetNx c n)"
  unfolding decode_set_nx_response_def
  by (subst set_nx_msg.decode_msg) (auto simp: num_part_def wire_const u64_def)

lemma decode_counter_layout:
  "i64 v \<Longrightarrow> u64 n \<Longrightarrow>
   decode_counter_response (msg_bytes (VarintField CTR_VALUE (v mod 2 ^ 64) # num_part CTR_VERSION n))
     = Inr (RCounter v n)"
  using signed64_mod [of v] unfolding decode_counter_response_def
  by (subst counter_msg.decode_msg)
     (auto simp: num_part_def wire_const u64_def i64_def
       intro: order_less_trans [OF pos_mod_bound])

lemma decode_count_layout: "u64 n \<Longrightarrow> decode_count (msg_bytes (num_part COUNT_FIELD n)) = Inr n"
  unfolding decode_count_def
  by (subst count_msg.decode_msg) (auto simp: num_part_def wire_const u64_def)

lemma length_str_part: "length (utf8_bytes s) \<le> length (msg_bytes (str_part f s))"
  by (simp add: str_part_def)

lemma length_raw_part: "length b \<le> length (msg_bytes (raw_part f b))"
  by (simp add: raw_part_def)

lemmas part_sizes = length_str_part length_raw_part

lemma dispatch_layout:
  assumes "response_range resp"
    and small: "int (length (msg_bytes (snd (response_layout resp)))) < 2 ^ 32"
  shows "dispatch_response (fst (response_layout resp)) (msg_bytes (snd (response_layout resp)))
     = Some (Inr resp)"
proof (cases resp)
  case (RValue k v n)
  then have "decode_value_response (msg_bytes (snd (response_layout resp))) = Inr resp"
    using assms length_str_part [of k VAL_KEY] length_raw_part [of v VAL_VALUE]
    by (simp del: msg_bytes_simps) (rule decode_value_layout, auto)
  with RValue show ?thesis by (simp add: dispatch_response_def)
next
  case (RError c m)
  then have "decode_error_response (msg_bytes (snd (response_layout resp))) = Inr resp"
    using assms length_str_part [of m ERR_MESSAGE]
    by (simp del: msg_bytes_simps) (rule decode_error_layout, auto)
  with RError show ?thesis by (simp add: dispatch_response_def wire_const)
next
  case (RWatchEvent k v n)
  then have "decode_watch_event (msg_bytes (snd (response_layout resp))) = Inr resp"
    using assms length_str_part [of k WE_KEY] length_raw_part [of "the v" OPT_VALUE]
    by (simp del: msg_bytes_simps) (rule decode_watch_event_layout, auto split: option.splits)
  with RWatchEvent show ?thesis by (simp add: dispatch_response_def wire_const)
next
  case (RCounter v n)
  then have "decode_counter_response (msg_bytes (snd (response_layout resp))) = Inr resp"
    using assms decode_counter_layout [of v n] by simp
  with RCounter show ?thesis by (simp add: dispatch_response_def wire_const)
next
  case (RSimple t)
  with assms show ?thesis
    by (auto simp: dispatch_response_def simple_variant_def wire_const)
qed (use assms in \<open>simp_all add: dispatch_response_def wire_const decode_ok_layout [unfolded wire_const]
       decode_count_layout [unfolded wire_const] decode_set_nx_layout [unfolded wire_const]
       del: msg_bytes_simps\<close>)


section \<open>Decoding a response envelope\<close>

lemma decode_envelope:
  assumes "fits_frame (envelope ENV_CLIENT_RESPONSE variant inner)" "0 \<le> variant" "variant < 2 ^ 60"
  shows "decode_response (envelope ENV_CLIENT_RESPONSE variant inner) =
    p_response (msg_bytes [LdField variant inner])"
proof -
  have "int (length (msg_bytes [LdField variant inner])) < 2 ^ 32"
    by (rule fits_request [OF assms(1)])
  then show ?thesis
    unfolding decode_response_def envelope_def
    by (subst response_env.decode_msg)
       (auto simp: wire_const response_loop_refines simp del: msg_bytes_simps field_bytes.simps)
qed

lemma decode_server_response:
  assumes "valid_response resp"
  shows "decode_response (response_envelope resp) = Inr resp"
proof -
  let ?v = "fst (response_layout resp)" and ?i = "msg_bytes (snd (response_layout resp))"
  have fits: "fits_frame (envelope ENV_CLIENT_RESPONSE ?v ?i)"
    and range: "response_range resp"
    using assms by (simp_all add: valid_response_def response_envelope_def)
  have small: "int (length ?i) < 2 ^ 32"
    by (rule fits_inner [OF fits])
  have "decode_response (response_envelope resp) = p_response (msg_bytes [LdField ?v ?i])"
    unfolding response_envelope_def
    by (rule decode_envelope [OF fits response_variant_nonneg])
  also have "\<dots> = Inr resp"
    using p_response_field [of ?v ?i "[]"] dispatch_layout [OF range small] small
      response_variant_nonneg [of resp]
    by simp
  finally show ?thesis .
qed

text \<open>The frame a server sends, decoded without its length prefix.\<close>

definition decode_frame :: "bytes \<Rightarrow> ClientResponse result" where
  "decode_frame fr = decode_response (drop 4 fr)"

interpretation response_wire: codec valid_response server_frame decode_frame
  by unfold_locales
     (auto simp: server_frame_eq decode_frame_def frame_def decode_server_response)

section \<open>Properties of responses\<close>

text \<open>
  C2: every response the server can send, of every variant and with every value in range,
  goes through \<open>frame_client_response\<close> and its inner encoders into one frame, and
  \<open>decode_response\<close> on the payload of that frame returns it unchanged.
\<close>

theorem response_roundtrip:
  assumes "valid_response resp"
  shows "\<exists>payload. server_frame resp = Inr (frame payload) \<and> fits_frame payload \<and> decode_response payload = Inr resp"
  using assms decode_server_response [OF assms] by (auto simp: valid_response_def server_frame_eq)

theorem response_roundtrip_witness:
  "\<exists>payload. server_frame (RWatchEvent (lit ''k'') (Some [1, 2]) 300) = Inr (frame payload) \<and> fits_frame payload \<and>
    decode_response payload = Inr (RWatchEvent (lit ''k'') (Some [1, 2]) 300)"
  by (rule response_roundtrip)
     (simp add: valid_response_def u64_def encodable_def encodable_cp_def is_surrogate_def lit_def fits_frame_def
        response_envelope_def envelope_def str_part_def num_part_def raw_part_def wire_const varint.simps
        utf8_bytes_def utf8_cp_def)

text \<open>
  An envelope is read only when its version is absent (zero) or the protocol version;
  any other version is refused by name before the response inside is looked at.
\<close>

theorem version_gate:
  assumes "0 \<le> v" "v < 2 ^ 64" "int (length rb) < 2 ^ 32"
  shows "decode_response (msg_bytes [VarintField ENV_VERSION v, LdField ENV_CLIENT_RESPONSE rb]) =
    (if v \<in> {0, PROTOCOL_VERSION} then response_loop (reader_of rb)
     else Inl (ValueError (lit ''unsupported protocol version: '' @ py_str_int v)))"
  unfolding decode_response_def
  by (subst response_env.decode_msg) (use assms in \<open>auto simp: wire_const simp del: msg_bytes_simps\<close>)

theorem version_gate_witness:
  "decode_response (msg_bytes [VarintField ENV_VERSION 3, LdField ENV_CLIENT_RESPONSE []]) =
    Inl (ValueError (lit ''unsupported protocol version: '' @ py_str_int 3))"
  using version_gate [of 3 "[]"] by (simp add: PROTOCOL_VERSION_def)

end
