(* ===== verification/Wire_Request.thy ===== *)
theory Wire_Request
  imports Wire_Response
begin

text \<open>
  Requests across the wire: what a server that reads the protobuf schema of the protocol
  contract makes of the frames the public encoders of \<open>wire.py\<close> write. The server
  side is a specification, one handler per request message of the schema, run by the
  reference parser.
\<close>

section \<open>Requests and their encoders\<close>

datatype request =
    GetReq pystr "pystr option"
  | SetReq pystr bytes int "pystr option"
  | DeleteReq pystr "pystr option"
  | PingReq
  | AuthReq pystr
  | WatchReq pystr "pystr option"
  | UnwatchReq pystr "pystr option"
  | DeleteByPatternReq pystr "pystr option"
  | SetTtlByPatternReq pystr int "pystr option"
  | SetNxReq pystr bytes int "pystr option"
  | IncrReq pystr int int "pystr option"

fun encode_request :: "request \<Rightarrow> bytes result" where
  "encode_request (GetReq k ns) = encode_get k ns"
| "encode_request (SetReq k v ttl ns) = encode_set k v ttl ns"
| "encode_request (DeleteReq k ns) = encode_delete k ns"
| "encode_request PingReq = encode_ping"
| "encode_request (AuthReq t) = encode_auth t"
| "encode_request (WatchReq k ns) = encode_watch k ns"
| "encode_request (UnwatchReq k ns) = encode_unwatch k ns"
| "encode_request (DeleteByPatternReq p ns) = encode_delete_by_pattern p ns"
| "encode_request (SetTtlByPatternReq p ttl ns) = encode_set_ttl_by_pattern p ttl ns"
| "encode_request (SetNxReq k v ttl ns) = encode_set_nx k v ttl ns"
| "encode_request (IncrReq k d ttl ns) = encode_incr k d ttl ns"

fun request_layout :: "request \<Rightarrow> int \<times> wire_field list" where
  "request_layout (GetReq k ns) = (REQ_GET, key_namespace_msg k ns)"
| "request_layout (SetReq k v ttl ns) = (REQ_SET, set_request_msg k v ttl ns)"
| "request_layout (DeleteReq k ns) = (REQ_DELETE, key_namespace_msg k ns)"
| "request_layout PingReq = (REQ_PING, [])"
| "request_layout (AuthReq t) = (REQ_AUTH, str_part AUTH_TOKEN t)"
| "request_layout (WatchReq k ns) = (REQ_WATCH, key_namespace_msg k ns)"
| "request_layout (UnwatchReq k ns) = (REQ_UNWATCH, key_namespace_msg k ns)"
| "request_layout (DeleteByPatternReq p ns) = (REQ_DELETE_BY_PATTERN, pattern_namespace_msg p ns)"
| "request_layout (SetTtlByPatternReq p ttl ns) = (REQ_SET_TTL_BY_PATTERN, set_ttl_request_msg p ttl ns)"
| "request_layout (SetNxReq k v ttl ns) = (REQ_SET_NX, set_request_msg k v ttl ns)"
| "request_layout (IncrReq k d ttl ns) = (REQ_INCR, incr_request_msg k d ttl ns)"

fun request_texts_ok :: "request \<Rightarrow> bool" where
  "request_texts_ok (GetReq k ns) \<longleftrightarrow> encodable k \<and> encodable_ns ns"
| "request_texts_ok (SetReq k v ttl ns) \<longleftrightarrow> encodable k \<and> encodable_ns ns"
| "request_texts_ok (DeleteReq k ns) \<longleftrightarrow> encodable k \<and> encodable_ns ns"
| "request_texts_ok PingReq \<longleftrightarrow> True"
| "request_texts_ok (AuthReq t) \<longleftrightarrow> encodable t"
| "request_texts_ok (WatchReq k ns) \<longleftrightarrow> encodable k \<and> encodable_ns ns"
| "request_texts_ok (UnwatchReq k ns) \<longleftrightarrow> encodable k \<and> encodable_ns ns"
| "request_texts_ok (DeleteByPatternReq p ns) \<longleftrightarrow> encodable p \<and> encodable_ns ns"
| "request_texts_ok (SetTtlByPatternReq p ttl ns) \<longleftrightarrow> encodable p \<and> encodable_ns ns"
| "request_texts_ok (SetNxReq k v ttl ns) \<longleftrightarrow> encodable k \<and> encodable_ns ns"
| "request_texts_ok (IncrReq k d ttl ns) \<longleftrightarrow> encodable k \<and> encodable_ns ns"

definition request_envelope :: "request \<Rightarrow> bytes" where
  "request_envelope q =
    envelope ENV_CLIENT_REQUEST (fst (request_layout q)) (msg_bytes (snd (request_layout q)))"

lemma request_variant_nonneg: "0 \<le> fst (request_layout q)" "fst (request_layout q) < 2 ^ 60"
  by (cases q; simp add: wire_const)+

lemmas encode_defs = encode_get_def encode_set_def encode_delete_def encode_ping_def encode_auth_def
  encode_watch_def encode_unwatch_def encode_delete_by_pattern_def encode_set_ttl_by_pattern_def
  encode_set_nx_def encode_incr_def

text \<open>
  An encoder returns the frame of its message, unless a text has no UTF-8 form or the
  envelope is too long for the length prefix.
\<close>

lemma wrap_layout: "0 \<le> variant \<Longrightarrow> wrap_client_request variant (msg_bytes fs) =
    (if fits_frame (envelope ENV_CLIENT_REQUEST variant (msg_bytes fs))
     then Inr (frame (envelope ENV_CLIENT_REQUEST variant (msg_bytes fs))) else Inl StructError)"
  by (rule wrap_client_request_eq)

lemma encode_request_eq:
  assumes "request_texts_ok q"
  shows "encode_request q =
    (if fits_frame (request_envelope q) then Inr (frame (request_envelope q)) else Inl StructError)"
proof -
  have "encode_request q = wrap_client_request (fst (request_layout q)) (msg_bytes (snd (request_layout q)))"
    using assms by (cases q) (simp_all add: encode_defs layout)
  also have "\<dots> = (if fits_frame (request_envelope q) then Inr (frame (request_envelope q)) else Inl StructError)"
    unfolding request_envelope_def by (rule wrap_layout [OF request_variant_nonneg(1)])
  finally show ?thesis .
qed


section \<open>A text without a UTF-8 form\<close>

lemma string_field_error: "string_field f s = Inl e \<Longrightarrow> 0 \<le> f \<Longrightarrow> e = UnicodeEncodeError \<and> \<not> encodable s"
  by (cases "encodable s") (auto simp: string_field_eq string_field_bad)

lemma namespace_part_bad:
  "\<not> encodable_ns ns \<Longrightarrow> namespace_part f ns = [Inl UnicodeEncodeError]"
  by (simp add: namespace_part_def encodable_ns_def encode_optional_string_def string_field_bad)

lemma string_then_bad:
  "0 \<le> f \<Longrightarrow> bindR (string_field f k) (\<lambda>_. Inl UnicodeEncodeError) = Inl UnicodeEncodeError"
  by (cases "string_field f k") (auto dest: string_field_error)

lemma encode_request_bad_text:
  assumes "\<not> request_texts_ok q"
  shows "encode_request q = Inl UnicodeEncodeError"
  using assms
  by (cases q)
     (auto simp: encode_defs encode_key_namespace_def encode_pattern_namespace_def
        encode_set_request_def encode_incr_request_def encode_set_ttl_by_pattern_request_def
        encode_auth_request_def string_field_bad namespace_part_bad join_parts_append layout
        wire_const string_then_bad)


section \<open>The server's reading of a request\<close>

fun opt_string_schema :: "pystr handler" where
  "opt_string_schema f w = (if f = OPT_VALUE \<and> w = WT_LD then TakeLd (\<lambda>b s. py_decode b) else SkipField)"

fun opt_uint_schema :: "int handler" where
  "opt_uint_schema f w = (if f = OPT_VALUE \<and> w = WT_VARINT then TakeVarint (\<lambda>v s. v) else SkipField)"

definition read_opt_string :: "bytes \<Rightarrow> pystr result" where
  "read_opt_string b = p_fields opt_string_schema b []"

definition read_opt_uint :: "bytes \<Rightarrow> int result" where
  "read_opt_uint b = p_fields opt_uint_schema b 0"

text \<open>\<open>KeyNamespace\<close> and \<open>PatternNamespace\<close> have the same fields.\<close>

fun key_namespace_schema :: "(pystr \<times> pystr option) handler" where
  "key_namespace_schema f w =
    (if f = 1 \<and> w = 2 then TakeLd (\<lambda>b (k, ns). bindR (py_decode b) (\<lambda>k'. Inr (k', ns)))
     else if f = 2 \<and> w = 2 then TakeLd (\<lambda>b (k, ns). bindR (read_opt_string b) (\<lambda>n. Inr (k, Some n)))
     else SkipField)"

fun set_schema :: "(pystr \<times> bytes \<times> int \<times> pystr option) handler" where
  "set_schema f w =
    (if f = 1 \<and> w = 2 then TakeLd (\<lambda>b (k, v, ttl, ns). bindR (py_decode b) (\<lambda>k'. Inr (k', v, ttl, ns)))
     else if f = 2 \<and> w = 2 then TakeLd (\<lambda>b (k, v, ttl, ns). Inr (k, b, ttl, ns))
     else if f = 3 \<and> w = 2 then TakeLd (\<lambda>b (k, v, ttl, ns). bindR (read_opt_uint b) (\<lambda>t. Inr (k, v, t, ns)))
     else if f = 4 \<and> w = 2 then TakeLd (\<lambda>b (k, v, ttl, ns). bindR (read_opt_string b) (\<lambda>n. Inr (k, v, ttl, Some n)))
     else SkipField)"

fun incr_schema :: "(pystr \<times> int \<times> int \<times> pystr option) handler" where
  "incr_schema f w =
    (if f = 1 \<and> w = 2 then TakeLd (\<lambda>b (k, d, ttl, ns). bindR (py_decode b) (\<lambda>k'. Inr (k', d, ttl, ns)))
     else if f = 2 \<and> w = 0 then TakeInt64 (\<lambda>v (k, d, ttl, ns). (k, v, ttl, ns))
     else if f = 3 \<and> w = 2 then TakeLd (\<lambda>b (k, d, ttl, ns). bindR (read_opt_uint b) (\<lambda>t. Inr (k, d, t, ns)))
     else if f = 4 \<and> w = 2 then TakeLd (\<lambda>b (k, d, ttl, ns). bindR (read_opt_string b) (\<lambda>n. Inr (k, d, ttl, Some n)))
     else SkipField)"

fun set_ttl_schema :: "(pystr \<times> int \<times> pystr option) handler" where
  "set_ttl_schema f w =
    (if f = 1 \<and> w = 2 then TakeLd (\<lambda>b (p, ttl, ns). bindR (py_decode b) (\<lambda>p'. Inr (p', ttl, ns)))
     else if f = 2 \<and> w = 2 then TakeLd (\<lambda>b (p, ttl, ns). bindR (read_opt_uint b) (\<lambda>t. Inr (p, t, ns)))
     else if f = 3 \<and> w = 2 then TakeLd (\<lambda>b (p, ttl, ns). bindR (read_opt_string b) (\<lambda>n. Inr (p, ttl, Some n)))
     else SkipField)"

fun auth_schema :: "pystr handler" where
  "auth_schema f w = (if f = 1 \<and> w = 2 then TakeLd (\<lambda>b s. py_decode b) else SkipField)"

definition server_reads :: "int \<Rightarrow> bytes \<Rightarrow> request result" where
  "server_reads variant inner =
    (if variant = 1 then bindR (p_fields key_namespace_schema inner ([], None)) (\<lambda>(k, ns). Inr (GetReq k ns))
     else if variant = 2 then bindR (p_fields set_schema inner ([], [], 0, None)) (\<lambda>(k, v, ttl, ns). Inr (SetReq k v ttl ns))
     else if variant = 3 then bindR (p_fields key_namespace_schema inner ([], None)) (\<lambda>(k, ns). Inr (DeleteReq k ns))
     else if variant = 4 then Inr PingReq
     else if variant = 5 then bindR (p_fields auth_schema inner []) (\<lambda>t. Inr (AuthReq t))
     else if variant = 6 then bindR (p_fields key_namespace_schema inner ([], None)) (\<lambda>(k, ns). Inr (WatchReq k ns))
     else if variant = 7 then bindR (p_fields key_namespace_schema inner ([], None)) (\<lambda>(k, ns). Inr (UnwatchReq k ns))
     else if variant = 8 then bindR (p_fields key_namespace_schema inner ([], None)) (\<lambda>(p, ns). Inr (DeleteByPatternReq p ns))
     else if variant = 9 then bindR (p_fields set_ttl_schema inner ([], 0, None)) (\<lambda>(p, ttl, ns). Inr (SetTtlByPatternReq p ttl ns))
     else if variant = 10 then bindR (p_fields set_schema inner ([], [], 0, None)) (\<lambda>(k, v, ttl, ns). Inr (SetNxReq k v ttl ns))
     else if variant = 11 then bindR (p_fields incr_schema inner ([], 0, 0, None)) (\<lambda>(k, d, ttl, ns). Inr (IncrReq k d ttl ns))
     else Inl (ValueError []))"

text \<open>The server's view of a frame, whose prefix must be the length of what follows.\<close>

definition server_view :: "bytes \<Rightarrow> request result" where
  "server_view fr =
    bindR (unpack_be32 (take 4 fr)) (\<lambda>n.
    if n \<noteq> int (length (drop 4 fr)) then Inl (ValueError [])
    else bindR (decode_client_request_variant (drop 4 fr)) (\<lambda>(v, i). server_reads v i))"

text \<open>
  What the server is meant to see: blank namespaces and non-positive times to live are dropped, and
  the delta of \<open>incr\<close>, which the encoder masks to 64 bits without a check, is the signed number of those bits:
  itself in the range of 64-bit integers, wrapped around outside.
\<close>

definition sent_ns :: "pystr option \<Rightarrow> pystr option" where
  "sent_ns ns = (if has_namespace ns then ns else None)"

fun as_sent :: "request \<Rightarrow> request" where
  "as_sent (GetReq k ns) = GetReq k (sent_ns ns)"
| "as_sent (SetReq k v ttl ns) = SetReq k v (max 0 ttl) (sent_ns ns)"
| "as_sent (DeleteReq k ns) = DeleteReq k (sent_ns ns)"
| "as_sent PingReq = PingReq"
| "as_sent (AuthReq t) = AuthReq t"
| "as_sent (WatchReq k ns) = WatchReq k (sent_ns ns)"
| "as_sent (UnwatchReq k ns) = UnwatchReq k (sent_ns ns)"
| "as_sent (DeleteByPatternReq p ns) = DeleteByPatternReq p (sent_ns ns)"
| "as_sent (SetTtlByPatternReq p ttl ns) = SetTtlByPatternReq p (max 0 ttl) (sent_ns ns)"
| "as_sent (SetNxReq k v ttl ns) = SetNxReq k v (max 0 ttl) (sent_ns ns)"
| "as_sent (IncrReq k d ttl ns) = IncrReq k (signed64 (d mod 2 ^ 64)) (max 0 ttl) (sent_ns ns)"

text \<open>The time to live of a request, as far as the cursor can read it back.\<close>

fun ttl_range :: "request \<Rightarrow> bool" where
  "ttl_range (SetReq k v ttl ns) \<longleftrightarrow> ttl < 2 ^ 64"
| "ttl_range (SetTtlByPatternReq p ttl ns) \<longleftrightarrow> ttl < 2 ^ 64"
| "ttl_range (SetNxReq k v ttl ns) \<longleftrightarrow> ttl < 2 ^ 64"
| "ttl_range (IncrReq k d ttl ns) \<longleftrightarrow> ttl < 2 ^ 64"
| "ttl_range _ \<longleftrightarrow> True"

definition valid_request :: "request \<Rightarrow> bool" where
  "valid_request q \<longleftrightarrow> request_texts_ok q \<and> ttl_range q \<and> fits_frame (request_envelope q)"


section \<open>The server sees what was meant\<close>

interpretation opt_string_msg: msg_handler opt_string_schema
  by unfold_locales (auto simp: wire_const split: if_splits dest: py_decode_error)

interpretation opt_uint_msg: msg_handler opt_uint_schema
  by unfold_locales (auto simp: wire_const split: if_splits)

lemma read_opt_string_error: "read_opt_string b = Inl e \<Longrightarrow> value_error e"
  unfolding read_opt_string_def by (rule opt_string_msg.p_fields_error [OF _ refl])

lemma read_opt_uint_error: "read_opt_uint b = Inl e \<Longrightarrow> value_error e"
  unfolding read_opt_uint_def by (rule opt_uint_msg.p_fields_error [OF _ refl])

lemmas read_errors = py_decode_error read_opt_string_error read_opt_uint_error

interpretation key_namespace_req: msg_handler key_namespace_schema
  by unfold_locales (auto simp: bindR_eq_Inl split: if_splits prod.splits dest: read_errors)

interpretation set_req: msg_handler set_schema
  by unfold_locales (auto simp: bindR_eq_Inl split: if_splits prod.splits dest: read_errors)

interpretation incr_req: msg_handler incr_schema
  by unfold_locales (auto simp: bindR_eq_Inl split: if_splits prod.splits dest: read_errors)

interpretation set_ttl_req: msg_handler set_ttl_schema
  by unfold_locales (auto simp: bindR_eq_Inl split: if_splits prod.splits dest: read_errors)

interpretation auth_req: msg_handler auth_schema
  by unfold_locales (auto split: if_splits dest: read_errors)

lemma read_opt_string_layout:
  "encodable s \<Longrightarrow> int (length (utf8_bytes s)) < 2 ^ 77 \<Longrightarrow>
   read_opt_string (msg_bytes (str_part OPT_VALUE s)) = Inr s"
  unfolding read_opt_string_def
  by (subst opt_string_msg.parse_msg) (auto simp: str_part_def wire_const)

lemma read_opt_uint_layout:
  "0 \<le> n \<Longrightarrow> n < 2 ^ 77 \<Longrightarrow> read_opt_uint (msg_bytes [VarintField OPT_VALUE n]) = Inr n"
  unfolding read_opt_uint_def
  by (subst opt_uint_msg.parse_msg) (auto simp: wire_const)

lemma run_ns_part:
  assumes "encodable_ns ns" "int (length (msg_bytes (ns_part f ns))) < 2 ^ 77"
    and "\<And>b. run_field h (LdField f b) s = bindR (read_opt_string b) (\<lambda>n. Inr (put (Some n)))" "s = put None"
  shows "run_fields h (ns_part f ns) s = Inr (put (sent_ns ns))"
proof (cases "has_namespace ns")
  case True
  then obtain n where ns: "ns = Some n" by (auto simp: has_namespace_def split: option.splits)
  have "int (length (utf8_bytes n)) < 2 ^ 77"
    using assms(2) True ns length_str_part [of n OPT_VALUE] by (simp add: ns_part_def)
  with assms True ns show ?thesis
    by (simp add: ns_part_def sent_ns_def read_opt_string_layout encodable_ns_def)
next
  case False
  with assms show ?thesis by (simp add: ns_part_def sent_ns_def)
qed

lemma run_ttl_fields:
  assumes "ttl < 2 ^ 64"
    and "\<And>b. run_field h (LdField f b) s = bindR (read_opt_uint b) (\<lambda>n. Inr (put n))" "s = put 0"
  shows "run_fields h (ttl_fields f ttl) s = Inr (put (max 0 ttl))"
  using assms read_opt_uint_layout [of ttl]
  by (cases "ttl > 0") (simp_all add: ttl_fields_def max_def)

lemma run_str_part:
  assumes "encodable x" "\<And>b. run_field h (LdField f b) s = bindR (py_decode b) (\<lambda>k. Inr (put k))" "s = put []"
  shows "run_fields h (str_part f x) s = Inr (put x)"
  using assms by (simp add: str_part_def)

text \<open>Field numbers and varints in range, and a message that fits a frame: then every field does.\<close>

fun field_range :: "wire_field \<Rightarrow> bool" where
  "field_range (VarintField f v) \<longleftrightarrow> 0 \<le> f \<and> f < 2 ^ 60 \<and> 0 \<le> v \<and> v < 2 ^ 77"
| "field_range (LdField f p) \<longleftrightarrow> 0 \<le> f \<and> f < 2 ^ 60"

lemma wf_fields:
  assumes "list_all field_range fs" "int (length (msg_bytes fs)) < 2 ^ 32"
  shows "list_all wf_field fs"
proof -
  have "wf_field x" if "x \<in> set fs" for x
  proof (cases x)
    case (LdField f p)
    with that have "length p < length (msg_bytes fs)" by (simp add: ld_in_msg)
    with LdField that assms show ?thesis by (auto simp: list_all_iff)
  qed (use that assms in \<open>auto simp: list_all_iff\<close>)
  then show ?thesis by (simp add: list_all_iff)
qed

lemma field_range_parts [simp]:
  "0 \<le> f \<Longrightarrow> f < 2 ^ 60 \<Longrightarrow> list_all field_range (str_part f x)"
  "0 \<le> f \<Longrightarrow> f < 2 ^ 60 \<Longrightarrow> list_all field_range (raw_part f b)"
  "0 \<le> f \<Longrightarrow> f < 2 ^ 60 \<Longrightarrow> list_all field_range (ns_part f ns)"
  "0 \<le> f \<Longrightarrow> f < 2 ^ 60 \<Longrightarrow> list_all field_range (ttl_fields f ttl)"
  by (simp_all add: str_part_def raw_part_def ns_part_def ttl_fields_def)

lemma request_field_range: "list_all field_range (snd (request_layout q))"
  by (cases q)
     (simp_all add: key_namespace_msg_def pattern_namespace_msg_def set_request_msg_def
       incr_request_msg_def set_ttl_request_msg_def wire_const order_less_trans [OF pos_mod_bound])

lemma run_key_namespace:
  assumes "encodable k" "encodable_ns ns" "int (length (msg_bytes (key_namespace_msg k ns))) < 2 ^ 32"
  shows "run_fields key_namespace_schema (key_namespace_msg k ns) ([], None) = Inr (k, sent_ns ns)"
proof -
  have "run_fields key_namespace_schema (str_part KN_KEY k) ([], None) = Inr (k, None)"
    by (rule run_str_part [where put = "\<lambda>k. (k, None)"]) (use assms in \<open>simp_all add: wire_const\<close>)
  moreover have "run_fields key_namespace_schema (ns_part KN_NAMESPACE ns) (k, None) = Inr (k, sent_ns ns)"
    by (rule run_ns_part [where put = "\<lambda>n. (k, n)"])
       (use assms in \<open>simp_all add: key_namespace_msg_def wire_const\<close>)
  ultimately show ?thesis
    by (simp add: key_namespace_msg_def run_fields_append)
qed

lemma run_set_request:
  assumes "encodable k" "encodable_ns ns" "ttl < 2 ^ 64"
    "int (length (msg_bytes (set_request_msg k v ttl ns))) < 2 ^ 32"
  shows "run_fields set_schema (set_request_msg k v ttl ns) ([], [], 0, None) = Inr (k, v, max 0 ttl, sent_ns ns)"
proof -
  have "run_fields set_schema (str_part SR_KEY k) ([], [], 0, None) = Inr (k, [], 0, None)"
    by (rule run_str_part [where put = "\<lambda>k. (k, [], 0, None)"]) (use assms in \<open>simp_all add: wire_const\<close>)
  moreover have "run_fields set_schema (raw_part SR_VALUE v) (k, [], 0, None) = Inr (k, v, 0, None)"
    by (simp add: raw_part_def wire_const)
  moreover have "run_fields set_schema (ttl_fields SR_TTL_SECS ttl) (k, v, 0, None) = Inr (k, v, max 0 ttl, None)"
    by (rule run_ttl_fields [where put = "\<lambda>t. (k, v, t, None)"]) (use assms in \<open>simp_all add: wire_const\<close>)
  moreover have "run_fields set_schema (ns_part SR_NAMESPACE ns) (k, v, max 0 ttl, None)
      = Inr (k, v, max 0 ttl, sent_ns ns)"
    by (rule run_ns_part [where put = "\<lambda>n. (k, v, max 0 ttl, n)"])
       (use assms in \<open>simp_all add: set_request_msg_def wire_const\<close>)
  ultimately show ?thesis
    by (simp add: set_request_msg_def run_fields_append)
qed

lemma run_incr_request:
  assumes "encodable k" "encodable_ns ns" "ttl < 2 ^ 64"
    "int (length (msg_bytes (incr_request_msg k d ttl ns))) < 2 ^ 32"
  shows "run_fields incr_schema (incr_request_msg k d ttl ns) ([], 0, 0, None)
     = Inr (k, signed64 (d mod 2 ^ 64), max 0 ttl, sent_ns ns)"
proof -
  let ?d = "signed64 (d mod 2 ^ 64)"
  have "run_fields incr_schema (str_part INCR_KEY k) ([], 0, 0, None) = Inr (k, 0, 0, None)"
    by (rule run_str_part [where put = "\<lambda>k. (k, 0, 0, None)"]) (use assms in \<open>simp_all add: wire_const\<close>)
  moreover have "run_fields incr_schema [VarintField INCR_DELTA (d mod 2 ^ 64)] (k, 0, 0, None) = Inr (k, ?d, 0, None)"
    by (simp add: wire_const)
  moreover have "run_fields incr_schema (ttl_fields INCR_TTL_SECS_ON_CREATE ttl) (k, ?d, 0, None)
      = Inr (k, ?d, max 0 ttl, None)"
    by (rule run_ttl_fields [where put = "\<lambda>t. (k, ?d, t, None)"]) (use assms in \<open>simp_all add: wire_const\<close>)
  moreover have "run_fields incr_schema (ns_part INCR_NAMESPACE ns) (k, ?d, max 0 ttl, None)
      = Inr (k, ?d, max 0 ttl, sent_ns ns)"
    by (rule run_ns_part [where put = "\<lambda>n. (k, ?d, max 0 ttl, n)"])
       (use assms in \<open>simp_all add: incr_request_msg_def wire_const\<close>)
  ultimately show ?thesis
    unfolding incr_request_msg_def run_fields_append by simp
qed

lemma run_set_ttl_request:
  assumes "encodable k" "encodable_ns ns" "ttl < 2 ^ 64"
    "int (length (msg_bytes (set_ttl_request_msg k ttl ns))) < 2 ^ 32"
  shows "run_fields set_ttl_schema (set_ttl_request_msg k ttl ns) ([], 0, None) = Inr (k, max 0 ttl, sent_ns ns)"
proof -
  have "run_fields set_ttl_schema (str_part STBP_PATTERN k) ([], 0, None) = Inr (k, 0, None)"
    by (rule run_str_part [where put = "\<lambda>k. (k, 0, None)"]) (use assms in \<open>simp_all add: wire_const\<close>)
  moreover have "run_fields set_ttl_schema (ttl_fields STBP_TTL_SECS ttl) (k, 0, None) = Inr (k, max 0 ttl, None)"
    by (rule run_ttl_fields [where put = "\<lambda>t. (k, t, None)"]) (use assms in \<open>simp_all add: wire_const\<close>)
  moreover have "run_fields set_ttl_schema (ns_part STBP_NAMESPACE ns) (k, max 0 ttl, None)
      = Inr (k, max 0 ttl, sent_ns ns)"
    by (rule run_ns_part [where put = "\<lambda>n. (k, max 0 ttl, n)"])
       (use assms in \<open>simp_all add: set_ttl_request_msg_def wire_const\<close>)
  ultimately show ?thesis
    by (simp add: set_ttl_request_msg_def run_fields_append)
qed

lemma pattern_msg_is_key_msg: "pattern_namespace_msg = key_namespace_msg"
  by (simp add: pattern_namespace_msg_def key_namespace_msg_def wire_const fun_eq_iff)

lemma server_reads_layout:
  assumes "request_texts_ok q" "ttl_range q" "int (length (msg_bytes (snd (request_layout q)))) < 2 ^ 32"
  shows "server_reads (fst (request_layout q)) (msg_bytes (snd (request_layout q))) = Inr (as_sent q)"
proof -
  have wf: "list_all wf_field (snd (request_layout q))"
    by (rule wf_fields [OF request_field_range assms(3)])
  show ?thesis
  proof (cases q)
    case (AuthReq t)
    have "run_fields auth_schema (str_part AUTH_TOKEN t) [] = Inr t"
      by (rule run_str_part [where put = "\<lambda>k. k"]) (use assms AuthReq in \<open>simp_all add: wire_const\<close>)
    with AuthReq wf show ?thesis
      by (simp add: server_reads_def wire_const auth_req.parse_msg)
  qed (use assms wf in \<open>simp_all add: server_reads_def wire_const key_namespace_req.parse_msg
         set_req.parse_msg incr_req.parse_msg set_ttl_req.parse_msg run_key_namespace run_set_request
         run_incr_request run_set_ttl_request pattern_msg_is_key_msg\<close>)
qed

lemma decode_request_envelope:
  assumes "fits_frame (request_envelope q)"
  shows "decode_client_request_variant (request_envelope q) =
    Inr (fst (request_layout q), msg_bytes (snd (request_layout q)))"
proof -
  let ?v = "fst (request_layout q)" and ?i = "msg_bytes (snd (request_layout q))"
  have fits: "fits_frame (envelope ENV_CLIENT_REQUEST ?v ?i)"
    using assms by (simp add: request_envelope_def)
  have small: "int (length (msg_bytes [LdField ?v ?i])) < 2 ^ 32" "int (length ?i) < 2 ^ 32"
    by (rule fits_request [OF fits], rule fits_inner [OF fits])
  then have "decode_client_request_variant (envelope ENV_CLIENT_REQUEST ?v ?i)
      = p_request (msg_bytes [LdField ?v ?i])"
    unfolding decode_client_request_variant_def envelope_def
    by (subst request_env.decode_msg)
       (auto simp: wire_const request_loop_refines simp del: msg_bytes_simps field_bytes.simps)
  also have "\<dots> = Inr (?v, ?i)"
    using p_request_field [of ?v ?i "[]"] small request_variant_nonneg [of q] by simp
  finally show ?thesis by (simp add: request_envelope_def)
qed

lemma server_view_encode:
  assumes "valid_request q"
  shows "encode_request q = Inr (frame (request_envelope q))"
    and "server_view (frame (request_envelope q)) = Inr (as_sent q)"
proof -
  show "encode_request q = Inr (frame (request_envelope q))"
    using assms by (simp add: valid_request_def encode_request_eq)
  have fits: "fits_frame (request_envelope q)"
    using assms by (simp add: valid_request_def)
  then have "int (length (msg_bytes (snd (request_layout q)))) < 2 ^ 32"
    unfolding request_envelope_def by (rule fits_inner)
  moreover have "unpack_be32 (be32 (int (length (request_envelope q)))) = Inr (int (length (request_envelope q)))"
    using fits by (intro unpack_be32_eq) (simp_all add: fits_frame_def)
  ultimately show "server_view (frame (request_envelope q)) = Inr (as_sent q)"
    using assms decode_request_envelope [OF fits]
    by (simp add: server_view_def frame_def valid_request_def server_reads_layout)
qed

section \<open>Properties of requests\<close>

text \<open>
  C23: each of the eleven public encoders has exactly three outcomes: a text without a
  UTF-8 form raises \<open>UnicodeEncodeError\<close>, an envelope whose length does not fit the
  32-bit prefix raises \<open>struct.error\<close>, and otherwise it returns the length-prefixed
  frame of the message's reference layout.
\<close>

theorem encode_request_outcome: "encode_request q =
  (if request_texts_ok q
   then if fits_frame (request_envelope q) then Inr (frame (request_envelope q)) else Inl StructError
   else Inl UnicodeEncodeError)"
  by (simp add: encode_request_eq encode_request_bad_text)

text \<open>
  C3: a server that reads the frame of any valid request by the schema sees that request:
  the same operation, key or pattern, value and token; the delta, wrapped to a signed 64-bit
  number; the namespace if it is not blank; the time to live if it is positive. The length prefix is that
  of the envelope.
\<close>

theorem request_reaches_server:
  assumes "valid_request q"
  shows "\<exists>fr. encode_request q = Inr fr \<and> server_view fr = Inr (as_sent q)"
  using server_view_encode [OF assms] by blast

theorem request_reaches_server_witness:
  "\<exists>fr. encode_request (IncrReq (lit ''n'') (-1) 60 (Some (lit ''t''))) = Inr fr \<and>
    server_view fr = Inr (IncrReq (lit ''n'') (-1) 60 (Some (lit ''t'')))"
proof -
  have "valid_request (IncrReq (lit ''n'') (-1) 60 (Some (lit ''t'')))"
    by (simp add: valid_request_def encodable_def encodable_ns_def encodable_cp_def is_surrogate_def lit_def
        fits_frame_def request_envelope_def envelope_def incr_request_msg_def str_part_def ttl_fields_def
        ns_part_def wire_const varint.simps utf8_bytes_def utf8_cp_def)
  from request_reaches_server [OF this] show ?thesis
    by (simp add: signed64_def sent_ns_def has_namespace_def lit_def py_strip_def lstrip_def is_space_def)
qed

text \<open>
  The namespace is sent as given, not stripped, although it counts as blank by its
  stripped form: two namespaces that differ in surrounding space reach the server as two.
\<close>

theorem namespace_sent_unstripped:
  assumes "has_namespace (Some n)" "valid_request (GetReq k (Some n))"
  shows "\<exists>fr. encode_get k (Some n) = Inr fr \<and> server_view fr = Inr (GetReq k (Some n))"
  using server_view_encode [OF assms(2)] assms(1) by (simp add: sent_ns_def)

theorem namespace_sent_unstripped_witness:
  "\<exists>fr. encode_get (lit ''k'') (Some (lit '' t '')) = Inr fr \<and> server_view fr = Inr (GetReq (lit ''k'') (Some (lit '' t '')))"
proof (rule namespace_sent_unstripped)
  show "has_namespace (Some (lit '' t ''))"
    by (simp add: has_namespace_def lit_def py_strip_def lstrip_def is_space_def)
  show "valid_request (GetReq (lit ''k'') (Some (lit '' t '')))"
    by (simp add: valid_request_def encodable_def encodable_ns_def encodable_cp_def is_surrogate_def lit_def
        fits_frame_def request_envelope_def envelope_def key_namespace_msg_def str_part_def
        ns_part_def wire_const varint.simps utf8_bytes_def utf8_cp_def)
qed

end
