(* ===== verification/Validation.thy ===== *)
theory Validation
  imports Wire_Request
begin

text \<open>
  The strict-mode input checks of \<open>validation.py\<close>: keys, patterns and namespaces are
  matched against fixed character classes before anything is encoded or sent.
\<close>

section \<open>The checks\<close>

definition token_char :: "nat \<Rightarrow> bool" where
  "token_char c \<longleftrightarrow> (65 \<le> c \<and> c \<le> 90) \<or> (97 \<le> c \<and> c \<le> 122) \<or> (48 \<le> c \<and> c \<le> 57)
     \<or> c = 46 \<or> c = 95 \<or> c = 58 \<or> c = 45"

definition pattern_char :: "nat \<Rightarrow> bool" where
  "pattern_char c \<longleftrightarrow> token_char c \<or> c = 42"

definition STRICT_TOKEN_RE :: "pystr \<Rightarrow> bool" where
  "STRICT_TOKEN_RE s = fullmatch_plus token_char s"

definition STRICT_PATTERN_RE :: "pystr \<Rightarrow> bool" where
  "STRICT_PATTERN_RE s = fullmatch_plus pattern_char s"

definition normalized_namespace :: "bool \<Rightarrow> pystr option \<Rightarrow> pystr option result" where
  "normalized_namespace strict_mode ns =
    (case ns of None \<Rightarrow> Inr None
     | Some n \<Rightarrow>
       let normalized = py_strip n in
       if normalized = [] then
         (if strict_mode
          then Inl (ValueError (lit ''Invalid request: namespace must not be blank when provided.''))
          else Inr None)
       else if strict_mode \<and> py_in (lit ''::'') normalized then
         Inl (ValueError (lit ''Invalid request: namespace must not contain '::'.''))
       else if strict_mode \<and> \<not> STRICT_TOKEN_RE normalized then
         Inl (ValueError (lit ''Invalid request: namespace contains unsupported characters. Allowed: [A-Za-z0-9._:-]''))
       else Inr (Some normalized))"

definition validate_core_inputs :: "bool \<Rightarrow> string \<Rightarrow> pystr option \<Rightarrow> pystr option \<Rightarrow> unit result" where
  "validate_core_inputs strict_mode op key ns =
    (if \<not> strict_mode then Inr ()
     else if key = None \<or> py_strip (the key) = [] then
       Inl (ValueError (lit (''Invalid '' @ op @ '' request: key must not be empty.'')))
     else if \<not> STRICT_TOKEN_RE (the key) then
       Inl (ValueError (lit (''Invalid '' @ op
         @ '' request: key contains unsupported characters. Allowed: [A-Za-z0-9._:-]'')))
     else (case ns of None \<Rightarrow> Inr ()
       | Some n \<Rightarrow>
         let s = py_strip n in
         if s = [] then
           Inl (ValueError (lit (''Invalid '' @ op @ '' request: namespace must not be blank when provided.'')))
         else if py_in (lit ''::'') s then
           Inl (ValueError (lit (''Invalid '' @ op @ '' request: namespace must not contain '::'.'')))
         else if \<not> STRICT_TOKEN_RE s then
           Inl (ValueError (lit (''Invalid '' @ op
             @ '' request: namespace contains unsupported characters. Allowed: [A-Za-z0-9._:-]'')))
         else Inr ()))"

definition validate_pattern_inputs :: "bool \<Rightarrow> string \<Rightarrow> pystr option \<Rightarrow> pystr option \<Rightarrow> unit result" where
  "validate_pattern_inputs strict_mode op pattern ns =
    (if \<not> strict_mode then Inr ()
     else if pattern = None \<or> py_strip (the pattern) = [] then
       Inl (ValueError (lit (''Invalid '' @ op @ '' request: pattern must not be empty.'')))
     else if \<not> STRICT_PATTERN_RE (py_strip (the pattern)) then
       Inl (ValueError (lit (''Invalid '' @ op
         @ '' request: pattern contains unsupported characters. Allowed: [A-Za-z0-9._:-*]'')))
     else (case ns of None \<Rightarrow> Inr ()
       | Some n \<Rightarrow>
         let s = py_strip n in
         if s = [] then
           Inl (ValueError (lit (''Invalid '' @ op @ '' request: namespace must not be blank when provided.'')))
         else if py_in (lit ''::'') s then
           Inl (ValueError (lit (''Invalid '' @ op @ '' request: namespace must not contain '::'.'')))
         else if \<not> STRICT_TOKEN_RE s then
           Inl (ValueError (lit (''Invalid '' @ op
             @ '' request: namespace contains unsupported characters. Allowed: [A-Za-z0-9._:-]'')))
         else Inr ()))"


section \<open>What the checks accept\<close>

definition strict_key :: "pystr option \<Rightarrow> bool" where
  "strict_key key \<longleftrightarrow> (\<exists>k. key = Some k \<and> k \<noteq> [] \<and> list_all token_char k)"

definition strict_pattern :: "pystr option \<Rightarrow> bool" where
  "strict_pattern p \<longleftrightarrow> (\<exists>s. p = Some s \<and> py_strip s \<noteq> [] \<and> list_all pattern_char (py_strip s))"

definition strict_ns :: "pystr option \<Rightarrow> bool" where
  "strict_ns ns \<longleftrightarrow> (\<forall>n. ns = Some n \<longrightarrow> py_strip n \<noteq> [] \<and> list_all token_char (py_strip n)
      \<and> \<not> sublist (lit ''::'') (py_strip n))"

lemma token_not_space: "token_char c \<Longrightarrow> \<not> is_space c"
  by (auto simp: token_char_def is_space_def)

lemma pattern_not_space: "pattern_char c \<Longrightarrow> \<not> is_space c"
  by (auto simp: pattern_char_def token_char_def is_space_def)

lemma token_encodable: "token_char c \<Longrightarrow> encodable_cp c"
  by (auto simp: token_char_def encodable_cp_def is_surrogate_def)

lemma pattern_encodable: "pattern_char c \<Longrightarrow> encodable_cp c"
  by (auto simp: pattern_char_def token_encodable) (simp add: encodable_cp_def is_surrogate_def)

lemma space_encodable: "is_space c \<Longrightarrow> encodable_cp c"
  by (auto simp: is_space_def encodable_cp_def is_surrogate_def)

lemma strip_token: "list_all token_char s \<Longrightarrow> py_strip s = s"
  by (intro py_strip_id) (auto simp: list_all_iff token_not_space)

lemma strip_encodable: "encodable (py_strip s) \<Longrightarrow> encodable s"
  using py_strip_decomp [of s] by (auto simp: encodable_def list_all_iff) (metis UnCI UnE set_append space_encodable)

lemma strict_ns_encodable: "strict_ns ns \<Longrightarrow> encodable_ns ns"
proof (cases ns)
  case (Some n)
  moreover assume "strict_ns ns"
  ultimately have "encodable (py_strip n)"
    by (auto simp: strict_ns_def encodable_def list_all_iff token_encodable)
  then have "encodable n" by (rule strip_encodable)
  with Some show ?thesis by (simp add: encodable_ns_def)
qed simp

text \<open>
  The contract of a validator: lenient mode accepts everything; strict mode accepts
  exactly the well-formed subjects with a well-formed namespace; a refusal is a
  \<open>ValueError\<close>.
\<close>

locale validator =
  fixes v :: "bool \<Rightarrow> string \<Rightarrow> pystr option \<Rightarrow> pystr option \<Rightarrow> unit result"
    and subject_ok :: "pystr option \<Rightarrow> bool"
  assumes lenient: "v False op subj ns = Inr ()"
    and strict_iff: "v True op subj ns = Inr () \<longleftrightarrow> subject_ok subj \<and> strict_ns ns"
    and refusal: "v m op subj ns = Inl e \<Longrightarrow> \<exists>t. e = ValueError t"
    and subject_encodable: "subject_ok (Some s) \<Longrightarrow> encodable s"
begin

lemma accepted: "v m op subj ns = Inr () \<longleftrightarrow> m \<longrightarrow> subject_ok subj \<and> strict_ns ns"
  by (cases m) (simp_all add: lenient strict_iff)

text \<open>The operation's name is only part of the message.\<close>

lemma op_irrelevant: "v m op subj ns = Inr () \<longleftrightarrow> v m op' subj ns = Inr ()"
  by (simp add: accepted)

lemma ns_encodable: "v True op subj ns = Inr () \<Longrightarrow> encodable_ns ns"
  by (simp add: strict_iff strict_ns_encodable)

end

lemma core_strict_iff:
  "validate_core_inputs True op key ns = Inr () \<longleftrightarrow> strict_key key \<and> strict_ns ns"
proof -
  have k: "py_strip k \<noteq> [] \<and> fullmatch_plus token_char k \<longleftrightarrow> k \<noteq> [] \<and> list_all token_char k" for k
    using strip_token [of k] by (auto simp: fullmatch_plus_def)
  show ?thesis
    using k [of "the key"]
    by (cases key; cases ns)
       (auto simp: validate_core_inputs_def strict_key_def strict_ns_def STRICT_TOKEN_RE_def
          py_in_sublist fullmatch_plus_def Let_def)
qed

interpretation core: validator validate_core_inputs strict_key
proof unfold_locales
  show "validate_core_inputs True op key ns = Inr () \<longleftrightarrow> strict_key key \<and> strict_ns ns" for op key ns
    by (rule core_strict_iff)
  show "encodable s" if "strict_key (Some s)" for s
    using that by (auto simp: strict_key_def encodable_def list_all_iff token_encodable)
qed (auto simp: validate_core_inputs_def Let_def split: if_splits option.splits)

interpretation pattern: validator validate_pattern_inputs strict_pattern
proof unfold_locales
  show "validate_pattern_inputs True op p ns = Inr () \<longleftrightarrow> strict_pattern p \<and> strict_ns ns" for op p ns
    by (cases p; cases ns)
       (auto simp: validate_pattern_inputs_def strict_pattern_def strict_ns_def STRICT_TOKEN_RE_def
          STRICT_PATTERN_RE_def py_in_sublist fullmatch_plus_def Let_def)
  show "encodable s" if "strict_pattern (Some s)" for s
    using that strip_encodable [of s]
    by (auto simp: strict_pattern_def encodable_def list_all_iff pattern_encodable)
qed (auto simp: validate_pattern_inputs_def Let_def split: if_splits option.splits)


section \<open>Namespace normalisation\<close>

lemma normalized_lenient:
  "normalized_namespace False ns = Inr (case ns of None \<Rightarrow> None | Some n \<Rightarrow> if py_strip n = [] then None else Some (py_strip n))"
  by (simp add: normalized_namespace_def Let_def split: option.split)

lemma normalized_strict:
  "(\<exists>n. normalized_namespace True ns = Inr n) \<longleftrightarrow> strict_ns ns"
  "normalized_namespace True ns = Inr n \<Longrightarrow> n = map_option py_strip ns"
  by (cases ns; auto simp: normalized_namespace_def strict_ns_def STRICT_TOKEN_RE_def
      py_in_sublist fullmatch_plus_def Let_def split: if_splits)+

section \<open>Properties of the checks\<close>

text \<open>
  The check \<open>validate_core_inputs\<close> accepts everything in lenient mode; in strict mode it
  accepts exactly a non-empty key of the allowed characters together with no namespace or
  one that, stripped, is non-empty, has no double colon and only allowed characters; and
  what it raises is a \<open>ValueError\<close>.
\<close>

theorem core_inputs_exact:
  "validate_core_inputs False op key ns = Inr () \<and>
   (validate_core_inputs True op key ns = Inr () \<longleftrightarrow> strict_key key \<and> strict_ns ns) \<and>
   (\<forall>e. validate_core_inputs strict op key ns = Inl e \<longrightarrow> (\<exists>m. e = ValueError m))"
  using core.lenient core.strict_iff core.refusal by blast

theorem core_inputs_exact_witness:
  "\<exists>m. validate_core_inputs True ''get'' (Some (lit ''a b'')) None = Inl (ValueError m)"
proof -
  have "\<not> strict_key (Some (lit ''a b''))"
    by (simp add: strict_key_def lit_def token_char_def)
  then show ?thesis
    using core_inputs_exact [of "''get''" "Some (lit ''a b'')" None True]
    by (cases "validate_core_inputs True ''get'' (Some (lit ''a b'')) None") auto
qed

text \<open>
  \<open>validate_pattern_inputs\<close> likewise, the pattern being judged by its stripped form
  and allowed the wildcard.
\<close>

theorem pattern_inputs_exact:
  "validate_pattern_inputs False op p ns = Inr () \<and>
   (validate_pattern_inputs True op p ns = Inr () \<longleftrightarrow> strict_pattern p \<and> strict_ns ns) \<and>
   (\<forall>e. validate_pattern_inputs strict op p ns = Inl e \<longrightarrow> (\<exists>m. e = ValueError m))"
  using pattern.lenient pattern.strict_iff pattern.refusal by blast

theorem pattern_inputs_exact_witness:
  "\<exists>m. validate_pattern_inputs True ''delete_by_pattern'' (Some (lit ''a/*'')) None = Inl (ValueError m)"
proof -
  have "\<not> strict_pattern (Some (lit ''a/*''))"
    by (simp add: strict_pattern_def lit_def pattern_char_def token_char_def py_strip_def lstrip_def is_space_def)
  then show ?thesis
    using pattern_inputs_exact [of "''delete_by_pattern''" "Some (lit ''a/*'')" None True]
    by (cases "validate_pattern_inputs True ''delete_by_pattern'' (Some (lit ''a/*'')) None") auto
qed

text \<open>
  What \<open>normalized_namespace\<close> returns is a normal form: normalising it again, in
  either mode that accepted it, gives the same; in strict mode it succeeds exactly on the
  namespaces the validators accept.
\<close>

theorem normalized_namespace_stable:
  "(normalized_namespace m ns = Inr n \<longrightarrow> normalized_namespace m n = Inr n) \<and>
   ((\<exists>n. normalized_namespace True ns = Inr n) \<longleftrightarrow> validate_core_inputs True op (Some (lit ''k'')) ns = Inr ())"
proof -
  have k: "strict_key (Some (lit ''k''))"
    by (simp add: strict_key_def lit_def token_char_def)
  have "normalized_namespace m n = Inr n" if "normalized_namespace m ns = Inr n"
    using that
    by (cases ns; cases m)
       (auto simp: normalized_namespace_def py_strip_idem Let_def split: if_splits)
  with k show ?thesis by (simp add: core.strict_iff normalized_strict(1))
qed

theorem normalized_namespace_stable_witness:
  "normalized_namespace True (Some (lit ''t'')) = Inr (Some (lit ''t''))"
proof -
  have "normalized_namespace True (Some (lit '' t '')) = Inr (Some (lit ''t''))"
    by (simp add: normalized_namespace_def lit_def py_strip_def lstrip_def is_space_def
        STRICT_TOKEN_RE_def fullmatch_plus_def token_char_def Let_def)
  then show ?thesis
    using normalized_namespace_stable [of True "Some (lit '' t '')" "Some (lit ''t'')"] by blast
qed

end
