(* ===== verification/Tcp_Client.thy ===== *)
theory Tcp_Client
  imports Validation
begin

text \<open>
  The TCP client of \<open>tcp_client.py\<close> over an explicit network. The network is what
  the environment decides: the outcome of each dial, and for each connection the outcome
  of each \<open>recv\<close>, \<open>sendall\<close> and \<open>shutdown\<close>, as scripts that the operations consume.
  Each call is one step on the state here; \<open>Tcp_Threads\<close> takes it apart and justifies that.
\<close>

section \<open>The network\<close>

datatype io = Done | Failed "int option"

text \<open>\<open>RecvData []\<close> is the end of the stream.\<close>

datatype recv_event = RecvData bytes | RecvFail "int option"

datatype ca_source = CaData pystr | CaFile pystr

record tls_session =
  tls_ca :: "ca_source option"
  tls_sni :: pystr

text \<open>What the environment has in store for a connection it accepts.\<close>

record peer =
  peer_recv :: "recv_event list"
  peer_send :: "io list"
  peer_shutdown :: "io list"
  peer_load_ca :: io
  peer_handshake :: io

datatype dial = Refused "int option" | Accepted peer

record conn =
  cid :: nat
  inbound :: "recv_event list"
  outbound :: "io list"
  shut :: "io list"
  session :: "tls_session option"

datatype net_event = Opened nat | Sent nat bytes | Closed nat


section \<open>The client\<close>

text \<open>The attributes that \<open>__init__\<close> sets and no method changes.\<close>

record tcp_config =
  host :: pystr
  port :: int
  auth_token :: "pystr option"
  max_frame_bytes :: int
  strict_mode :: bool
  auto_reconnect :: bool
  tls :: bool
  tls_ca_cert :: "pystr option"
  tls_server_name :: "pystr option"

definition stripped_or_none :: "pystr option \<Rightarrow> pystr option" where
  "stripped_or_none s = (case s of None \<Rightarrow> None | Some x \<Rightarrow> if py_strip x \<noteq> [] then Some (py_strip x) else None)"

definition init_client ::
  "pystr \<Rightarrow> int \<Rightarrow> pystr option \<Rightarrow> int \<Rightarrow> bool \<Rightarrow> bool \<Rightarrow> bool \<Rightarrow> pystr option \<Rightarrow> pystr option \<Rightarrow> tcp_config" where
  "init_client h p token max_frame strict auto use_tls ca_cert server_name =
    \<lparr>host = h, port = p, auth_token = token, max_frame_bytes = max_frame, strict_mode = strict,
     auto_reconnect = auto, tls = use_tls, tls_ca_cert = stripped_or_none ca_cert,
     tls_server_name = stripped_or_none server_name\<rparr>"

text \<open>The socket attribute, the network to come, and the events so far.\<close>

record tcp_state =
  sock :: "conn option"
  dials :: "dial list"
  next_cid :: nat
  trace :: "net_event list"

definition init_state :: "dial list \<Rightarrow> tcp_state" where
  "init_state ds = \<lparr>sock = None, dials = ds, next_cid = 0, trace = []\<rparr>"

type_synonym 'a op = "(tcp_state, 'a) meth"


section \<open>Socket calls\<close>

text \<open>\<open>recv(n)\<close>: at most \<open>n\<close> bytes of what has arrived; nothing more to come is a timeout.\<close>

definition sock_recv :: "nat \<Rightarrow> conn \<Rightarrow> bytes result \<times> conn" where
  "sock_recv n c =
    (case inbound c of
       [] \<Rightarrow> (Inl (OSError None), c)
     | RecvFail e # evs \<Rightarrow> (Inl (OSError e), c\<lparr>inbound := evs\<rparr>)
     | RecvData bs # evs \<Rightarrow>
         if length bs \<le> n then (Inr bs, c\<lparr>inbound := evs\<rparr>)
         else (Inr (take n bs), c\<lparr>inbound := RecvData (drop n bs) # evs\<rparr>))"

text \<open>\<open>self._sock.sendall(frame)\<close>\<close>

definition sock_sendall :: "bytes \<Rightarrow> unit op" where
  "sock_sendall fr s =
    (case sock s of
       None \<Rightarrow> (Inl AttributeError, s)
     | Some c \<Rightarrow>
         let s' = s\<lparr>trace := trace s @ [Sent (cid c) fr]\<rparr> in
         (case outbound c of
            [] \<Rightarrow> (Inr (), s')
          | Done # evs \<Rightarrow> (Inr (), s'\<lparr>sock := Some (c\<lparr>outbound := evs\<rparr>)\<rparr>)
          | Failed e # evs \<Rightarrow> (Inl (OSError e), s'\<lparr>sock := Some (c\<lparr>outbound := evs\<rparr>)\<rparr>)))"


section \<open>Receiving a frame\<close>

function recvn_loop :: "nat \<Rightarrow> bytes \<Rightarrow> conn \<Rightarrow> bytes result \<times> conn" where
  "recvn_loop n data c =
    (if length data < n then
       (case sock_recv (n - length data) c of
          (Inl e, c') \<Rightarrow> (Inl e, c')
        | (Inr chunk, c') \<Rightarrow>
            if chunk = [] then (Inl (ConnectionError (lit ''Connection closed by server.'')), c')
            else recvn_loop n (data @ chunk) c')
     else (Inr data, c))"
  by pat_completeness auto
termination
  by (relation "measure (\<lambda>(n, data, c). n - length data)") (auto simp: neq_Nil_conv)

declare recvn_loop.simps [simp del]

definition recvn :: "nat \<Rightarrow> bytes op" where
  "recvn n s =
    (case sock s of
       None \<Rightarrow> (Inl AssertionError, s)
     | Some c \<Rightarrow> (case recvn_loop n [] c of (r, c') \<Rightarrow> (r, s\<lparr>sock := Some c'\<rparr>)))"

definition too_large_msg :: "int \<Rightarrow> int \<Rightarrow> pystr" where
  "too_large_msg payload_len limit =
    lit ''Incoming frame too large ('' @ py_str_int payload_len @ lit '' bytes > limit ''
      @ py_str_int limit @ lit '' bytes)''"

definition recv_response :: "tcp_config \<Rightarrow> ClientResponse op" where
  "recv_response cfg =
    thenS (recvn 4) (\<lambda>header.
    thenS (liftR (unpack_be32 header)) (\<lambda>payload_len.
    if payload_len > max_frame_bytes cfg
    then raiseS (ConnectionError (too_large_msg payload_len (max_frame_bytes cfg)))
    else thenS (recvn (nat payload_len)) (\<lambda>payload. liftR (decode_response payload))))"


section \<open>Connection lifecycle\<close>

text \<open>The \<open>errno\<close> values of a shutdown that found the connection already gone (Linux numbers).\<close>

definition ENOTCONN :: int where "ENOTCONN = 107"

definition EBADF :: int where "EBADF = 9"

definition EINVAL :: int where "EINVAL = 22"

definition already_gone :: "int option \<Rightarrow> bool" where
  "already_gone e \<longleftrightarrow> e = Some ENOTCONN \<or> e = Some EBADF \<or> e = Some EINVAL"

definition drop_sock :: "conn \<Rightarrow> tcp_state \<Rightarrow> tcp_state" where
  "drop_sock c s = s\<lparr>sock := None, trace := trace s @ [Closed (cid c)]\<rparr>"

definition close_locked :: "unit op" where
  "close_locked s =
    (case sock s of
       None \<Rightarrow> (Inr (), s)
     | Some c \<Rightarrow>
         (case shut c of
            Failed e # evs \<Rightarrow>
              if already_gone e then (Inr (), drop_sock c s)
              else (Inl (OSError e), s\<lparr>sock := Some (c\<lparr>shut := evs\<rparr>)\<rparr>)
          | _ \<Rightarrow> (Inr (), drop_sock c s)))"

definition ca_of :: "pystr \<Rightarrow> ca_source" where
  "ca_of cert = (if py_in (lit ''BEGIN CERTIFICATE'') cert then CaData cert else CaFile cert)"

definition server_hostname :: "tcp_config \<Rightarrow> pystr" where
  "server_hostname cfg =
    (case tls_server_name cfg of Some n \<Rightarrow> if n = [] then host cfg else n | None \<Rightarrow> host cfg)"

text \<open>The TLS part of connecting: load the trust anchor if there is one, then shake hands.\<close>

definition wrap_tls :: "tcp_config \<Rightarrow> peer \<Rightarrow> tls_session option result" where
  "wrap_tls cfg p =
    (if tls cfg then
       bindR (case tls_ca_cert cfg of
           None \<Rightarrow> Inr None
         | Some cert \<Rightarrow> (case peer_load_ca p of Failed e \<Rightarrow> Inl (OSError e) | Done \<Rightarrow> Inr (Some (ca_of cert))))
       (\<lambda>ca. case peer_handshake p of
           Failed e \<Rightarrow> Inl (OSError e)
         | Done \<Rightarrow> Inr (Some \<lparr>tls_ca = ca, tls_sni = server_hostname cfg\<rparr>))
     else Inr None)"

definition authenticate :: "tcp_config \<Rightarrow> unit op" where
  "authenticate cfg =
    (case auth_token cfg of
       None \<Rightarrow> returnS ()
     | Some token \<Rightarrow>
         thenS (liftR (encode_auth token)) (\<lambda>fr.
         thenS (sock_sendall fr) (\<lambda>_.
         thenS (recv_response cfg) (\<lambda>resp.
           (case resp of
              RError code message \<Rightarrow> thenS close_locked (\<lambda>_. raiseS (DittoError (Code code) (Text message)))
            | _ \<Rightarrow>
                if resp_type resp \<noteq> ''AuthOk''
                then thenS close_locked (\<lambda>_.
                  raiseS (RuntimeError (lit ''Unexpected auth response: '' @ lit (resp_type resp))))
                else returnS ())))))"

text \<open>\<open>socket.create_connection\<close> has succeeded; the object it returns, wrapped.\<close>

definition dialled :: "tcp_state \<Rightarrow> dial list \<Rightarrow> tcp_state" where
  "dialled s ds = s\<lparr>dials := ds, next_cid := next_cid s + 1, trace := trace s @ [Opened (next_cid s)]\<rparr>"

definition new_conn :: "tcp_state \<Rightarrow> peer \<Rightarrow> tls_session option \<Rightarrow> conn" where
  "new_conn s p sess = \<lparr>cid = next_cid s, inbound = peer_recv p, outbound = peer_send p,
     shut = peer_shutdown p, session = sess\<rparr>"

definition connect_locked :: "tcp_config \<Rightarrow> unit op" where
  "connect_locked cfg s =
    (if sock s \<noteq> None then (Inr (), s)
     else (case dials s of
         [] \<Rightarrow> (Inl (OSError None), s)
       | Refused e # ds \<Rightarrow> (Inl (OSError e), s\<lparr>dials := ds\<rparr>)
       | Accepted p # ds \<Rightarrow>
           (case wrap_tls cfg p of
              Inl e \<Rightarrow> (Inl e, dialled s ds)
            | Inr sess \<Rightarrow> authenticate cfg ((dialled s ds)\<lparr>sock := Some (new_conn s p sess)\<rparr>))))"

definition tcp_connect :: "tcp_config \<Rightarrow> unit op" where
  "tcp_connect cfg = connect_locked cfg"

definition tcp_close :: "unit op" where
  "tcp_close = close_locked"


section \<open>Sending a request\<close>

definition not_connected :: py_exc where
  "not_connected = RuntimeError (lit ''Not connected. Call connect() first.'')"

definition outcome_unknown :: py_exc where
  "outcome_unknown = ConnectionError
    (lit ''Request outcome unknown after connection loss; operation was not retried'')"

definition assert_sock :: "unit op" where
  "assert_sock s = (if sock s = None then (Inl AssertionError, s) else (Inr (), s))"

text \<open>One request and its response on the current socket.\<close>

definition exchange :: "tcp_config \<Rightarrow> bytes \<Rightarrow> ClientResponse op" where
  "exchange cfg fr = thenS (sock_sendall fr) (\<lambda>_. recv_response cfg)"

definition send :: "tcp_config \<Rightarrow> bytes \<Rightarrow> bool \<Rightarrow> ClientResponse op" where
  "send cfg fr retry_safe s =
    (if sock s = None then (Inl not_connected, s)
     else (case exchange cfg fr s of
         (Inr resp, s1) \<Rightarrow> (Inr resp, s1)
       | (Inl first, s1) \<Rightarrow>
           if \<not> is_os_error first then (Inl first, s1)
           else (case close_locked s1 of
               (Inl e, s2) \<Rightarrow> (Inl e, s2)
             | (Inr _, s2) \<Rightarrow>
                 if \<not> retry_safe then (Inl outcome_unknown, s2)
                 else if \<not> auto_reconnect cfg then (Inl first, s2)
                 else thenS (connect_locked cfg) (\<lambda>_.
                      thenS assert_sock (\<lambda>_. exchange cfg fr)) s2)))"


section \<open>Public operations\<close>

definition unexpected :: "ClientResponse \<Rightarrow> py_exc" where
  "unexpected resp = RuntimeError (lit ''Unexpected response: '' @ lit (resp_type resp))"

text \<open>The response branches of each operation.\<close>

definition get_branch :: "ClientResponse \<Rightarrow> int DittoGetResult option result" where
  "get_branch resp =
    (if resp_type resp = ''NotFound'' then Inr None
     else (case resp of
         RValue key value version \<Rightarrow> Inr (Some \<lparr>get_value = value, get_version = version\<rparr>)
       | RError code message \<Rightarrow> Inl (DittoError (Code code) (StrOf resp))
       | _ \<Rightarrow> Inl (unexpected resp)))"

definition set_branch :: "ClientResponse \<Rightarrow> int DittoSetResult result" where
  "set_branch resp =
    (case resp of
       ROk version \<Rightarrow> Inr \<lparr>set_version = version\<rparr>
     | RError code message \<Rightarrow> Inl (DittoError (Code code) (StrOf resp))
     | _ \<Rightarrow> Inl (unexpected resp))"

definition set_nx_branch :: "ClientResponse \<Rightarrow> DittoSetNxResult result" where
  "set_nx_branch resp =
    (case resp of
       RSetNx created version \<Rightarrow> Inr \<lparr>snx_created = created, snx_version = version\<rparr>
     | RError code message \<Rightarrow> Inl (DittoError (Code code) (StrOf resp))
     | _ \<Rightarrow> Inl (unexpected resp))"

definition incr_branch :: "ClientResponse \<Rightarrow> DittoCounterResult result" where
  "incr_branch resp =
    (case resp of
       RCounter value version \<Rightarrow> Inr \<lparr>ctr_value = value, ctr_version = version\<rparr>
     | RError code message \<Rightarrow> Inl (DittoError (Code code) (StrOf resp))
     | _ \<Rightarrow> Inl (unexpected resp))"

definition delete_branch :: "ClientResponse \<Rightarrow> bool result" where
  "delete_branch resp =
    (if resp_type resp = ''Deleted'' then Inr True
     else if resp_type resp = ''NotFound'' then Inr False
     else (case resp of
         RError code message \<Rightarrow> Inl (DittoError (Code code) (StrOf resp))
       | _ \<Rightarrow> Inl (unexpected resp)))"

definition delete_by_pattern_branch :: "ClientResponse \<Rightarrow> int DittoDeleteByPatternResult result" where
  "delete_by_pattern_branch resp =
    (case resp of
       RPatternDeleted n \<Rightarrow> Inr \<lparr>dbp_deleted = n\<rparr>
     | RError code message \<Rightarrow> Inl (DittoError (Code code) (StrOf resp))
     | _ \<Rightarrow> Inl (unexpected resp))"

definition set_ttl_by_pattern_branch :: "ClientResponse \<Rightarrow> int DittoSetTtlByPatternResult result" where
  "set_ttl_by_pattern_branch resp =
    (case resp of
       RPatternTtlUpdated n \<Rightarrow> Inr \<lparr>stbp_updated = n\<rparr>
     | RError code message \<Rightarrow> Inl (DittoError (Code code) (StrOf resp))
     | _ \<Rightarrow> Inl (unexpected resp))"

text \<open>\<open>watch\<close> and \<open>unwatch\<close> wait for the acknowledgement of the given type.\<close>

definition ack_branch :: "string \<Rightarrow> ClientResponse \<Rightarrow> unit result" where
  "ack_branch ack resp =
    (if resp_type resp = ack then Inr ()
     else (case resp of
         RError code message \<Rightarrow> Inl (DittoError (Code code) (StrOf resp))
       | _ \<Rightarrow> Inl (unexpected resp)))"

definition watch_event_branch :: "ClientResponse \<Rightarrow> DittoWatchEvent result" where
  "watch_event_branch resp =
    (case resp of
       RWatchEvent key value version \<Rightarrow> Inr \<lparr>we_key = key, we_value = value, we_version = version\<rparr>
     | RError code message \<Rightarrow> Inl (DittoError (Code code) (StrOf resp))
     | _ \<Rightarrow> Inl (unexpected resp))"

definition tcp_ping :: "tcp_config \<Rightarrow> bool op" where
  "tcp_ping cfg =
    thenS (liftR encode_ping) (\<lambda>fr.
    thenS (send cfg fr True) (\<lambda>resp. returnS (resp_type resp = ''Pong'')))"

definition tcp_get :: "tcp_config \<Rightarrow> pystr \<Rightarrow> pystr option \<Rightarrow> int DittoGetResult option op" where
  "tcp_get cfg key ns =
    thenS (liftR (validate_core_inputs (strict_mode cfg) ''get'' (Some key) ns)) (\<lambda>_.
    thenS (liftR (encode_get key ns)) (\<lambda>fr.
    thenS (send cfg fr True) (\<lambda>resp. liftR (get_branch resp))))"

definition tcp_set :: "tcp_config \<Rightarrow> pystr \<Rightarrow> py_value \<Rightarrow> int \<Rightarrow> pystr option \<Rightarrow> int DittoSetResult op" where
  "tcp_set cfg key value ttl_secs ns =
    thenS (liftR (validate_core_inputs (strict_mode cfg) ''set'' (Some key) ns)) (\<lambda>_.
    thenS (liftR (bindR (raw_value value) (\<lambda>raw. encode_set key raw ttl_secs ns))) (\<lambda>fr.
    thenS (send cfg fr False) (\<lambda>resp. liftR (set_branch resp))))"

definition tcp_set_nx :: "tcp_config \<Rightarrow> pystr \<Rightarrow> py_value \<Rightarrow> int \<Rightarrow> pystr option \<Rightarrow> DittoSetNxResult op" where
  "tcp_set_nx cfg key value ttl_secs ns =
    thenS (liftR (validate_core_inputs (strict_mode cfg) ''set'' (Some key) ns)) (\<lambda>_.
    thenS (liftR (bindR (raw_value value) (\<lambda>raw. encode_set_nx key raw ttl_secs ns))) (\<lambda>fr.
    thenS (send cfg fr False) (\<lambda>resp. liftR (set_nx_branch resp))))"

definition tcp_incr :: "tcp_config \<Rightarrow> pystr \<Rightarrow> int \<Rightarrow> int \<Rightarrow> pystr option \<Rightarrow> DittoCounterResult op" where
  "tcp_incr cfg key delta ttl_secs_on_create ns =
    thenS (liftR (validate_core_inputs (strict_mode cfg) ''set'' (Some key) ns)) (\<lambda>_.
    thenS (liftR (encode_incr key delta ttl_secs_on_create ns)) (\<lambda>fr.
    thenS (send cfg fr False) (\<lambda>resp. liftR (incr_branch resp))))"

definition tcp_delete :: "tcp_config \<Rightarrow> pystr \<Rightarrow> pystr option \<Rightarrow> bool op" where
  "tcp_delete cfg key ns =
    thenS (liftR (validate_core_inputs (strict_mode cfg) ''delete'' (Some key) ns)) (\<lambda>_.
    thenS (liftR (encode_delete key ns)) (\<lambda>fr.
    thenS (send cfg fr False) (\<lambda>resp. liftR (delete_branch resp))))"

definition tcp_delete_by_pattern :: "tcp_config \<Rightarrow> pystr \<Rightarrow> pystr option \<Rightarrow> int DittoDeleteByPatternResult op" where
  "tcp_delete_by_pattern cfg pattern ns =
    thenS (liftR (validate_pattern_inputs (strict_mode cfg) ''delete_by_pattern'' (Some pattern) ns)) (\<lambda>_.
    thenS (liftR (encode_delete_by_pattern pattern ns)) (\<lambda>fr.
    thenS (send cfg fr False) (\<lambda>resp. liftR (delete_by_pattern_branch resp))))"

definition tcp_set_ttl_by_pattern ::
  "tcp_config \<Rightarrow> pystr \<Rightarrow> int \<Rightarrow> pystr option \<Rightarrow> int DittoSetTtlByPatternResult op" where
  "tcp_set_ttl_by_pattern cfg pattern ttl_secs ns =
    thenS (liftR (validate_pattern_inputs (strict_mode cfg) ''set_ttl_by_pattern'' (Some pattern) ns)) (\<lambda>_.
    thenS (liftR (encode_set_ttl_by_pattern pattern ttl_secs ns)) (\<lambda>fr.
    thenS (send cfg fr False) (\<lambda>resp. liftR (set_ttl_by_pattern_branch resp))))"

definition tcp_watch :: "tcp_config \<Rightarrow> pystr \<Rightarrow> pystr option \<Rightarrow> unit op" where
  "tcp_watch cfg key ns =
    thenS (liftR (validate_core_inputs (strict_mode cfg) ''watch'' (Some key) ns)) (\<lambda>_.
    thenS (liftR (encode_watch key ns)) (\<lambda>fr.
    thenS (send cfg fr False) (\<lambda>resp. liftR (ack_branch ''Watching'' resp))))"

definition tcp_unwatch :: "tcp_config \<Rightarrow> pystr \<Rightarrow> pystr option \<Rightarrow> unit op" where
  "tcp_unwatch cfg key ns =
    thenS (liftR (validate_core_inputs (strict_mode cfg) ''unwatch'' (Some key) ns)) (\<lambda>_.
    thenS (liftR (encode_unwatch key ns)) (\<lambda>fr.
    thenS (send cfg fr False) (\<lambda>resp. liftR (ack_branch ''Unwatched'' resp))))"

definition tcp_wait_watch_event :: "tcp_config \<Rightarrow> DittoWatchEvent op" where
  "tcp_wait_watch_event cfg s =
    (if sock s = None then (Inl not_connected, s)
     else thenS (recv_response cfg) (\<lambda>resp. liftR (watch_event_branch resp)) s)"

end
