(* ===== verification/Tcp_Stream.thy ===== *)
theory Tcp_Stream
  imports Tcp_Client
begin

text \<open>
  The byte stream of a connection. However the network cuts the stream into pieces,
  \<open>recvn\<close> returns exactly the next bytes of it and \<open>recv_response\<close> exactly the next
  frame; the contract \<open>client_call\<close> then gives what a public operation sends and returns.
\<close>

section \<open>Streams in pieces\<close>

fun drop_chunks :: "nat \<Rightarrow> bytes list \<Rightarrow> bytes list" where
  "drop_chunks k [] = []"
| "drop_chunks k (b # bs) = (if length b \<le> k then drop_chunks (k - length b) bs else drop k b # bs)"

lemma concat_drop_chunks: "concat (drop_chunks k cs) = drop k (concat cs)"
  by (induction k cs rule: drop_chunks.induct) auto

lemma drop_chunks_nonempty: "[] \<notin> set cs \<Longrightarrow> [] \<notin> set (drop_chunks k cs)"
  by (induction k cs rule: drop_chunks.induct) auto

text \<open>The connection delivers \<open>bs\<close>, in some pieces, before the events of \<open>tail\<close>.\<close>

definition delivers :: "conn \<Rightarrow> bytes \<Rightarrow> recv_event list \<Rightarrow> bool" where
  "delivers c bs tail \<longleftrightarrow> (\<exists>cs. inbound c = map RecvData cs @ tail \<and> [] \<notin> set cs \<and> concat cs = bs)"

lemma sock_recv_data:
  "inbound c = RecvData b # evs \<Longrightarrow> sock_recv n c =
    (Inr (take n b), c\<lparr>inbound := (if length b \<le> n then evs else RecvData (drop n b) # evs)\<rparr>)"
  by (simp add: sock_recv_def)

lemma recvn_loop_chunks:
  "inbound c = map RecvData cs @ tail \<Longrightarrow> [] \<notin> set cs \<Longrightarrow> length data \<le> n \<Longrightarrow>
   n \<le> length data + length (concat cs) \<Longrightarrow>
   recvn_loop n data c =
    (Inr (data @ take (n - length data) (concat cs)),
     c\<lparr>inbound := map RecvData (drop_chunks (n - length data) cs) @ tail\<rparr>)"
proof (induction cs arbitrary: data c)
  case Nil
  then show ?case
    by (subst recvn_loop.simps) simp
next
  case (Cons b cs)
  then have b: "b \<noteq> []" and in_c: "inbound c = RecvData b # map RecvData cs @ tail" by auto
  let ?k = "n - length data"
  show ?case
  proof (cases "length data < n")
    case False
    with Cons.prems b show ?thesis
      by (subst recvn_loop.simps) simp
  next
    case True
    show ?thesis
    proof (cases "length b \<le> ?k")
      case le: True
      let ?c = "c\<lparr>inbound := map RecvData cs @ tail\<rparr>"
      have step: "recvn_loop n data c = recvn_loop n (data @ b) ?c"
        using True le b by (subst recvn_loop.simps) (simp add: sock_recv_data [OF in_c])
      have "recvn_loop n (data @ b) ?c = (Inr ((data @ b) @ take (n - length (data @ b)) (concat cs)),
          ?c\<lparr>inbound := map RecvData (drop_chunks (n - length (data @ b)) cs) @ tail\<rparr>)"
        by (rule Cons.IH) (use Cons.prems le True in auto)
      with step le show ?thesis by simp
    next
      case gt: False
      let ?c = "c\<lparr>inbound := RecvData (drop ?k b) # map RecvData cs @ tail\<rparr>"
      have ne: "take ?k b \<noteq> []" using True b by simp
      have "recvn_loop n data c = recvn_loop n (data @ take ?k b) ?c"
        using True gt ne by (subst recvn_loop.simps) (simp add: sock_recv_data [OF in_c])
      also have "\<dots> = (Inr (data @ take ?k b), ?c)"
        using gt True by (subst recvn_loop.simps) simp
      finally show ?thesis using gt by simp
    qed
  qed
qed

lemma recvn_stream:
  assumes "sock s = Some c" "delivers c (xs @ ys) tail" "length xs = n"
  obtains c' where "recvn n s = (Inr xs, s\<lparr>sock := Some c'\<rparr>)" "delivers c' ys tail"
    "c' = c\<lparr>inbound := inbound c'\<rparr>"
proof -
  obtain cs where cs: "inbound c = map RecvData cs @ tail" "[] \<notin> set cs" "concat cs = xs @ ys"
    using assms(2) by (auto simp: delivers_def)
  let ?c = "c\<lparr>inbound := map RecvData (drop_chunks n cs) @ tail\<rparr>"
  have "recvn_loop n [] c = (Inr xs, ?c)"
    using recvn_loop_chunks [OF cs(1,2), of "[]" n] assms(3) cs(3) by simp
  then have "recvn n s = (Inr xs, s\<lparr>sock := Some ?c\<rparr>)"
    using assms(1) by (simp add: recvn_def)
  moreover have "delivers ?c ys tail"
    unfolding delivers_def using cs assms(3)
    by (intro exI [of _ "drop_chunks n cs"]) (simp add: concat_drop_chunks drop_chunks_nonempty)
  ultimately show ?thesis
    by (rule that) simp
qed

lemma thenS_Inr: "m s = (Inr x, s') \<Longrightarrow> thenS m f s = f x s'"
  by (simp add: thenS_def)

lemma thenS_Inl: "m s = (Inl e, s') \<Longrightarrow> thenS m f s = (Inl e, s')"
  by (simp add: thenS_def)

lemma thenS_liftR: "thenS (liftR r) f s = (case r of Inl e \<Rightarrow> (Inl e, s) | Inr x \<Rightarrow> f x s)"
  by (simp add: thenS_def liftR_def split: sum.split)


section \<open>Receiving a frame\<close>

lemma recv_header:
  assumes "sock s = Some c" "delivers c (be32 n @ ys) tail" "0 \<le> n" "n < 2 ^ 32"
  obtains c1 where "delivers c1 ys tail" "c1 = c\<lparr>inbound := inbound c1\<rparr>"
    "recv_response cfg s =
      (if n > max_frame_bytes cfg
       then (Inl (ConnectionError (too_large_msg n (max_frame_bytes cfg))), s\<lparr>sock := Some c1\<rparr>)
       else thenS (recvn (nat n)) (\<lambda>payload. liftR (decode_response payload)) (s\<lparr>sock := Some c1\<rparr>))"
proof -
  obtain c1 where c1: "recvn 4 s = (Inr (be32 n), s\<lparr>sock := Some c1\<rparr>)" "delivers c1 ys tail"
      "c1 = c\<lparr>inbound := inbound c1\<rparr>"
    using recvn_stream [OF assms(1,2), of 4] by auto
  have "unpack_be32 (be32 n) = Inr n"
    using assms by (simp add: unpack_be32_eq)
  with c1(1) show ?thesis
    by (intro that [OF c1(2,3)])
       (simp add: recv_response_def thenS_def c1(1) liftR_def raiseS_def)
qed

lemma recv_response_frame:
  assumes "sock s = Some c" "delivers c (frame payload @ ys) tail" "fits_frame payload"
    and "int (length payload) \<le> max_frame_bytes cfg"
  obtains c' where "recv_response cfg s = (decode_response payload, s\<lparr>sock := Some c'\<rparr>)"
    "delivers c' ys tail" "c' = c\<lparr>inbound := inbound c'\<rparr>"
proof -
  let ?n = "int (length payload)"
  obtain c1 where c1: "delivers c1 (payload @ ys) tail" "c1 = c\<lparr>inbound := inbound c1\<rparr>"
      "recv_response cfg s = thenS (recvn (nat ?n)) (\<lambda>payload. liftR (decode_response payload)) (s\<lparr>sock := Some c1\<rparr>)"
    using recv_header [of s c ?n "payload @ ys" tail cfg] assms
    by (auto simp: frame_def fits_frame_def)
  have s1: "sock (s\<lparr>sock := Some c1\<rparr>) = Some c1" by simp
  obtain c2 where c2: "recvn (length payload) (s\<lparr>sock := Some c1\<rparr>) = (Inr payload, s\<lparr>sock := Some c2\<rparr>)"
      "delivers c2 ys tail" "c2 = c1\<lparr>inbound := inbound c2\<rparr>"
    using recvn_stream [OF s1 c1(1) refl] by auto
  have "recv_response cfg s = (decode_response payload, s\<lparr>sock := Some c2\<rparr>)"
    using c1(3) by (simp add: thenS_def c2(1) liftR_def)
  moreover have "c2 = c\<lparr>inbound := inbound c2\<rparr>"
    by (subst c2(3), subst c1(2)) simp
  ultimately show ?thesis using c2(2) that by blast
qed

text \<open>A frame over the limit is refused after its length prefix; nothing of it is read.\<close>

lemma recv_response_too_large:
  assumes "sock s = Some c" "delivers c (be32 n @ ys) tail" "0 \<le> n" "n < 2 ^ 32" "max_frame_bytes cfg < n"
  obtains c' where
    "recv_response cfg s = (Inl (ConnectionError (too_large_msg n (max_frame_bytes cfg))), s\<lparr>sock := Some c'\<rparr>)"
    "delivers c' ys tail" "c' = c\<lparr>inbound := inbound c'\<rparr>"
  using recv_header [OF assms(1-4), of cfg] assms(5) by auto


section \<open>A request and its response\<close>

definition can_send :: "conn \<Rightarrow> bool" where
  "can_send c \<longleftrightarrow> list_all (\<lambda>x. x = Done) (outbound c)"

lemma sendall_ok:
  assumes "sock s = Some c" "can_send c"
  obtains c' where "sock_sendall fr s = (Inr (), s\<lparr>sock := Some c', trace := trace s @ [Sent (cid c) fr]\<rparr>)"
    "can_send c'" "c' = c\<lparr>outbound := outbound c'\<rparr>"
proof (cases "outbound c")
  case Nil
  then show ?thesis
    using assms by (intro that [of c]) (auto simp: sock_sendall_def)
next
  case (Cons x evs)
  then show ?thesis
    using assms by (intro that [of "c\<lparr>outbound := evs\<rparr>"]) (auto simp: sock_sendall_def can_send_def)
qed

lemma exchange_ok:
  assumes "sock s = Some c" "can_send c" "delivers c (frame payload @ ys) tail" "fits_frame payload"
    and "int (length payload) \<le> max_frame_bytes cfg"
  obtains c' where
    "exchange cfg fr s = (decode_response payload, s\<lparr>sock := Some c', trace := trace s @ [Sent (cid c) fr]\<rparr>)"
    "can_send c'" "delivers c' ys tail" "cid c' = cid c"
proof -
  obtain c1 where c1: "sock_sendall fr s = (Inr (), s\<lparr>sock := Some c1, trace := trace s @ [Sent (cid c) fr]\<rparr>)"
      "can_send c1" "c1 = c\<lparr>outbound := outbound c1\<rparr>"
    using sendall_ok [OF assms(1,2)] by blast
  let ?s = "s\<lparr>sock := Some c1, trace := trace s @ [Sent (cid c) fr]\<rparr>"
  have d1: "delivers c1 (frame payload @ ys) tail"
    using assms(3) by (subst c1(3)) (simp add: delivers_def)
  have s1: "sock ?s = Some c1" by simp
  obtain c2 where c2: "recv_response cfg ?s = (decode_response payload, ?s\<lparr>sock := Some c2\<rparr>)"
      "delivers c2 ys tail" "c2 = c1\<lparr>inbound := inbound c2\<rparr>"
    using recv_response_frame [OF s1 d1 assms(4,5)] by blast
  have "exchange cfg fr s = (decode_response payload, s\<lparr>sock := Some c2, trace := trace s @ [Sent (cid c) fr]\<rparr>)"
    using c2(1) by (simp add: exchange_def thenS_def c1(1))
  moreover have "can_send c2" "cid c2 = cid c"
    using c1(2) by (subst c2(3), simp add: can_send_def) (subst c2(3), subst c1(3), simp)
  ultimately show ?thesis using c2(2) that by blast
qed

section \<open>Properties of the stream\<close>

text \<open>
  Whatever pieces the network delivers the stream in, \<open>_recvn(n)\<close> returns exactly
  the next \<open>n\<close> bytes and leaves the rest of the stream, unconsumed and in order.
\<close>

theorem recvn_any_pieces:
  assumes "sock s = Some c" "delivers c (xs @ ys) tail"
  shows "\<exists>c'. recvn (length xs) s = (Inr xs, s\<lparr>sock := Some c'\<rparr>) \<and> delivers c' ys tail"
  using recvn_stream [OF assms refl] by metis

text \<open>
  C20: \<open>_recv\<close> on a stream that starts with a frame within the limit, in any pieces,
  decodes the payload of exactly that frame and leaves what follows it.
\<close>

theorem recv_any_pieces:
  assumes "sock s = Some c" "delivers c (frame payload @ ys) tail" "fits_frame payload"
    and "int (length payload) \<le> max_frame_bytes cfg"
  shows "\<exists>c'. recv_response cfg s = (decode_response payload, s\<lparr>sock := Some c'\<rparr>) \<and> delivers c' ys tail"
  using recv_response_frame [OF assms] by metis

text \<open>
  A frame that announces more than \<open>max_frame_bytes\<close> is refused with
  \<open>ConnectionError\<close> after its four length bytes: nothing of its body is received.
\<close>

theorem oversize_refused:
  assumes "sock s = Some c" "delivers c (be32 n @ ys) tail" "0 \<le> n" "n < 2 ^ 32" "max_frame_bytes cfg < n"
  shows "\<exists>c'. recv_response cfg s = (Inl (ConnectionError (too_large_msg n (max_frame_bytes cfg))), s\<lparr>sock := Some c'\<rparr>)
    \<and> delivers c' ys tail"
  using recv_response_too_large [OF assms] by metis

text \<open>A concrete client for the witnesses: the stream of a \<open>Pong\<close> frame in two pieces.\<close>

definition sample_conn :: "bytes list \<Rightarrow> conn" where
  "sample_conn bs = \<lparr>cid = 0, inbound = map RecvData bs, outbound = [], shut = [], session = None\<rparr>"

definition sample_state :: "bytes list \<Rightarrow> tcp_state" where
  "sample_state bs = \<lparr>sock = Some (sample_conn bs), dials = [], next_cid = 1, trace = [Opened 0]\<rparr>"

definition sample_config :: tcp_config where
  "sample_config = init_client (lit ''localhost'') 7777 None (8 * 1024 * 1024) False False False None None"

lemma sample_simps [simp]: "sock (sample_state bs) = Some (sample_conn bs)" "cid (sample_conn bs) = 0"
  "can_send (sample_conn bs)" "max_frame_bytes sample_config = 8388608" "strict_mode sample_config = False"
  by (simp_all add: sample_state_def sample_conn_def can_send_def sample_config_def init_client_def)

lemma sample_delivers: "[] \<notin> set bs \<Longrightarrow> delivers (sample_conn bs) (concat bs) []"
  by (auto simp: delivers_def sample_conn_def)

lemma sample_length: "be32 16777216 = [1, 0, 0, 0]"
  by code_simp

theorem recvn_any_pieces_witness:
  "\<exists>c'. recvn 3 (sample_state [[1, 2], [3, 4]]) = (Inr [1, 2, 3], (sample_state [[1, 2], [3, 4]])\<lparr>sock := Some c'\<rparr>)
    \<and> delivers c' [4] []"
  using recvn_any_pieces [of "sample_state [[1, 2], [3, 4]]" _ "[1, 2, 3]" "[4]" "[]"]
    sample_delivers [of "[[1, 2], [3, 4]]"] by (simp add: numeral_3_eq_3)

theorem recv_any_pieces_witness:
  "\<exists>c'. recv_response sample_config (sample_state [[0, 0], [0, 1, 8], [9]]) =
     (decode_response [8], (sample_state [[0, 0], [0, 1, 8], [9]])\<lparr>sock := Some c'\<rparr>) \<and> delivers c' [9] []"
  using recv_any_pieces [of "sample_state [[0, 0], [0, 1, 8], [9]]" _ "[8]" "[9]" "[]" sample_config]
    sample_delivers [of "[[0, 0], [0, 1, 8], [9]]"]
  by (simp add: frame_def be32_def fits_frame_def)

theorem oversize_refused_witness:
  "\<exists>c'. recv_response sample_config (sample_state [[1, 0], [0, 0, 7]]) =
     (Inl (ConnectionError (too_large_msg 16777216 8388608)), (sample_state [[1, 0], [0, 0, 7]])\<lparr>sock := Some c'\<rparr>)
     \<and> delivers c' [7] []"
  using oversize_refused [of "sample_state [[1, 0], [0, 0, 7]]" _ 16777216 "[7]" "[]" sample_config]
    sample_delivers [of "[[1, 0], [0, 0, 7]]"]
  by (simp add: sample_length)

end
