(* ===== verification/Tcp_Calls.thy ===== *)
theory Tcp_Calls
  imports Tcp_Stream
begin

text \<open>
  Every public request method of \<open>tcp_client.py\<close> has one shape: check the inputs,
  encode the request, send it, read the response off its type. The locale
  \<open>client_call\<close> states that shape; what follows from it (nothing is sent on a bad
  input, what is sent and returned when the server answers, at most one transmission
  of a request that is not safe to retry) is proved once and holds of each method by its
  interpretation.
\<close>

section \<open>What receiving leaves alone\<close>

lemma sock_recv_frame: "sock_recv n c = (r, c') \<Longrightarrow> \<exists>ib. c' = c\<lparr>inbound := ib\<rparr>"
  by (cases c) (auto simp: sock_recv_def split: list.splits recv_event.splits if_splits)

lemma recvn_loop_frame: "recvn_loop n data c = (r, c') \<Longrightarrow> \<exists>ib. c' = c\<lparr>inbound := ib\<rparr>"
proof (induction n data c arbitrary: r c' rule: recvn_loop.induct)
  case (1 n data c)
  obtain x c1 where x: "sock_recv (n - length data) c = (x, c1)" by fastforce
  obtain ib where ib: "c1 = c\<lparr>inbound := ib\<rparr>" using sock_recv_frame [OF x] by blast
  show ?case
  proof (cases "length data < n \<and> (\<exists>chunk. x = Inr chunk \<and> chunk \<noteq> [])")
    case True
    then obtain chunk where "x = Inr chunk" "chunk \<noteq> []" by blast
    with True x "1.prems" have "recvn_loop n (data @ chunk) c1 = (r, c')"
      by (subst (asm) recvn_loop.simps) simp
    with "1.IH" [OF _ x [symmetric]] True \<open>x = Inr chunk\<close> \<open>chunk \<noteq> []\<close> show ?thesis
      by (fastforce simp: ib)
  next
    case False
    have same: "\<exists>ib. c = c\<lparr>inbound := ib\<rparr>" by (rule exI [of _ "inbound c"]) simp
    from False x ib "1.prems" have "c' = c \<or> c' = c1"
      by (subst (asm) recvn_loop.simps) (auto split: if_splits sum.splits)
    with same ib show ?thesis by blast
  qed
qed

lemma recvn_frame:
  assumes "recvn n s = (r, s')" "sock s = Some c"
  shows "\<exists>ib. s' = s\<lparr>sock := Some (c\<lparr>inbound := ib\<rparr>)\<rparr>"
  using assms recvn_loop_frame [of n "[]" c] by (cases "recvn_loop n [] c") (auto simp: recvn_def)

lemma recv_response_frame_rule:
  assumes "recv_response cfg s = (r, s')" "sock s = Some c"
  shows "\<exists>ib. s' = s\<lparr>sock := Some (c\<lparr>inbound := ib\<rparr>)\<rparr>"
proof -
  obtain x s1 where x: "recvn 4 s = (x, s1)" by fastforce
  obtain ib where s1: "s1 = s\<lparr>sock := Some (c\<lparr>inbound := ib\<rparr>)\<rparr>"
    using recvn_frame [OF x assms(2)] by blast
  show ?thesis
  proof (cases "s' = s1")
    case False
    then obtain n y s2 where y: "recvn (nat n) s1 = (y, s2)" "s' = s2"
      using assms(1) x
      by (auto simp: recv_response_def thenS_def liftR_def raiseS_def split: sum.splits if_splits prod.splits)
    from recvn_frame [OF y(1), of "c\<lparr>inbound := ib\<rparr>"] y(2) s1 show ?thesis by auto
  qed (use s1 in blast)
qed

lemma sendall_frame:
  assumes "sock_sendall fr s = (r, s')" "sock s = Some c"
  shows "s' = s\<lparr>sock := Some (c\<lparr>outbound := tl (outbound c)\<rparr>), trace := trace s @ [Sent (cid c) fr]\<rparr>"
  using assms by (cases s; cases c; cases "outbound c")
    (auto simp: sock_sendall_def Let_def split: io.splits)

lemma exchange_frame:
  assumes "exchange cfg fr s = (r, s')" "sock s = Some c"
  obtains c' where "s' = s\<lparr>sock := Some c', trace := trace s @ [Sent (cid c) fr]\<rparr>"
    "cid c' = cid c" "shut c' = shut c" "session c' = session c"
proof -
  obtain x s1 where x: "sock_sendall fr s = (x, s1)" by fastforce
  let ?c = "c\<lparr>outbound := tl (outbound c)\<rparr>"
  have s1: "s1 = s\<lparr>sock := Some ?c, trace := trace s @ [Sent (cid c) fr]\<rparr>"
    by (rule sendall_frame [OF x assms(2)])
  show ?thesis
  proof (cases x)
    case (Inl e)
    with x s1 assms(1) show ?thesis
      by (intro that [of ?c]) (auto simp: exchange_def thenS_def)
  next
    case (Inr u)
    with x assms(1) have "recv_response cfg s1 = (r, s')" by (simp add: exchange_def thenS_def)
    from recv_response_frame_rule [OF this, of ?c] s1 obtain ib
      where "s' = s1\<lparr>sock := Some (?c\<lparr>inbound := ib\<rparr>)\<rparr>" by auto
    with s1 show ?thesis
      by (intro that [of "?c\<lparr>inbound := ib\<rparr>"]) auto
  qed
qed


section \<open>One transmission\<close>

text \<open>A shutdown that reports an error other than "already gone" keeps the socket.\<close>

definition shut_ok :: "conn \<Rightarrow> bool" where
  "shut_ok c \<longleftrightarrow> (case shut c of Failed e # evs \<Rightarrow> already_gone e | _ \<Rightarrow> True)"

lemma close_locked_ok: "sock s = Some c \<Longrightarrow> shut_ok c \<Longrightarrow> close_locked s = (Inr (), drop_sock c s)"
  by (auto simp: close_locked_def shut_ok_def split: list.splits io.splits)

lemma close_locked_bad:
  assumes "sock s = Some c" "\<not> shut_ok c"
  obtains e evs where "close_locked s = (Inl (OSError e), s\<lparr>sock := Some (c\<lparr>shut := evs\<rparr>)\<rparr>)"
    "shut c = Failed e # evs" "\<not> already_gone e"
  using assms by (auto simp: close_locked_def shut_ok_def split: list.splits io.splits)

text \<open>What a request that must not be retried can do, as one case distinction.\<close>

lemma send_once_cases:
  assumes "send cfg fr False s = (r, s')" "sock s = Some c"
  obtains (kept) c' where "s' = s\<lparr>sock := Some c', trace := trace s @ [Sent (cid c) fr]\<rparr>" "cid c' = cid c"
      "\<And>e. r = Inl e \<Longrightarrow> \<not> is_os_error e \<or> (\<exists>n evs. e = OSError n \<and> shut c = Failed n # evs \<and> \<not> already_gone n)"
  | (lost) "sock s' = None" "r = Inl outcome_unknown" "trace s' = trace s @ [Sent (cid c) fr, Closed (cid c)]"
      "shut_ok c"
proof -
  obtain x s1 where x: "exchange cfg fr s = (x, s1)" by fastforce
  obtain c1 where s1: "s1 = s\<lparr>sock := Some c1, trace := trace s @ [Sent (cid c) fr]\<rparr>"
    and c1: "cid c1 = cid c" "shut c1 = shut c"
    by (rule exchange_frame [OF x assms(2)])
  have sok: "shut_ok c1 = shut_ok c" using c1(2) by (simp add: shut_ok_def)
  have sock1: "sock s1 = Some c1" using s1 by simp
  show ?thesis
  proof (cases "\<exists>e. x = Inl e \<and> is_os_error e")
    case False
    then have "r = x" "s' = s1"
      using assms x by (auto simp: send_def split: sum.splits)
    with kept [of c1] s1 c1 False show ?thesis by auto
  next
    case True
    show ?thesis
    proof (cases "shut_ok c1")
      case True
      with \<open>\<exists>e. _\<close> show ?thesis
        using assms x close_locked_ok [OF sock1] c1 s1 sok
        by (intro lost) (auto simp: send_def drop_sock_def)
    next
      case False
      with close_locked_bad [OF sock1] obtain e evs
        where "close_locked s1 = (Inl (OSError e), s1\<lparr>sock := Some (c1\<lparr>shut := evs\<rparr>)\<rparr>)"
          "shut c1 = Failed e # evs" "\<not> already_gone e" by blast
      with True show ?thesis
        using assms x s1 c1 by (intro kept [of "c1\<lparr>shut := evs\<rparr>"]) (auto simp: send_def)
    qed
  qed
qed

lemma send_ok:
  assumes "sock s = Some c" "can_send c" "delivers c (frame payload @ ys) tail" "fits_frame payload"
    and "int (length payload) \<le> max_frame_bytes cfg"
  obtains c' where
    "send cfg fr retry s = (decode_response payload, s\<lparr>sock := Some c', trace := trace s @ [Sent (cid c) fr]\<rparr>)"
    "can_send c'" "delivers c' ys tail" "cid c' = cid c"
proof -
  obtain c' where c': "can_send c'" "delivers c' ys tail" "cid c' = cid c"
    "exchange cfg fr s = (decode_response payload, s\<lparr>sock := Some c', trace := trace s @ [Sent (cid c) fr]\<rparr>)"
    using exchange_ok [OF assms] by blast
  have "decode_response payload = Inl e \<Longrightarrow> \<not> is_os_error e" for e
    using decode_response_error [of payload e] by (auto simp: value_error_def)
  then have "send cfg fr retry s = exchange cfg fr s"
    using assms(1) c'(4) by (auto simp: send_def split: sum.split)
  with c' that show ?thesis by metis
qed


section \<open>Transmissions of a retried request\<close>

fun sent_frames :: "net_event list \<Rightarrow> bytes list" where
  "sent_frames [] = []"
| "sent_frames (Sent i fr # evs) = fr # sent_frames evs"
| "sent_frames (_ # evs) = sent_frames evs"

lemma sent_frames_append [simp]: "sent_frames (xs @ ys) = sent_frames xs @ sent_frames ys"
  by (induction xs rule: sent_frames.induct) auto

text \<open>What a successful connect sends: the authentication frame, if there is a token.\<close>

definition auth_frames :: "tcp_config \<Rightarrow> bytes list" where
  "auth_frames cfg = (case auth_token cfg of None \<Rightarrow> [] | Some token \<Rightarrow>
     (case encode_auth token of Inl e \<Rightarrow> [] | Inr fr \<Rightarrow> [fr]))"

lemma close_locked_trace:
  "close_locked s = (r, s') \<Longrightarrow> \<exists>evs. trace s' = trace s @ evs \<and> sent_frames evs = []"
  by (auto simp: close_locked_def drop_sock_def split: option.splits list.splits io.splits if_splits)

lemma exchange_trace:
  assumes "exchange cfg fr s = (r, s')"
  obtains evs where "trace s' = trace s @ evs" "sent_frames evs = (if sock s = None then [] else [fr])"
proof (cases "sock s")
  case None
  with assms that [of "[]"] show ?thesis by (auto simp: exchange_def thenS_def sock_sendall_def)
next
  case (Some c)
  have "trace s' = trace s @ [Sent (cid c) fr]"
    by (rule exchange_frame [OF assms Some]) simp
  with Some show ?thesis by (intro that [of "[Sent (cid c) fr]"]) simp_all
qed

lemma exchange_sock: "exchange cfg fr s = (r, s') \<Longrightarrow> sock s = Some c \<Longrightarrow> \<exists>c'. sock s' = Some c'"
  by (erule exchange_frame) auto

text \<open>Authentication is an exchange followed by a look at the response.\<close>

definition auth_branch :: "ClientResponse \<Rightarrow> unit op" where
  "auth_branch resp =
     (case resp of
        RError code message \<Rightarrow> thenS close_locked (\<lambda>_. raiseS (DittoError (Code code) (Text message)))
      | _ \<Rightarrow>
          if resp_type resp \<noteq> ''AuthOk''
          then thenS close_locked (\<lambda>_.
            raiseS (RuntimeError (lit ''Unexpected auth response: '' @ lit (resp_type resp))))
          else returnS ())"

lemma thenS_assoc: "thenS (thenS m f) g = thenS m (\<lambda>x. thenS (f x) g)"
  by (rule ext) (auto simp: thenS_def split: prod.split sum.split)

lemma returnS_eq: "returnS x = liftR (Inr x)"
  by (rule ext) (simp add: returnS_def liftR_def)

lemma thenS_returned: "thenS (liftR (Inr x)) f = f x"
  by (rule ext) (simp add: thenS_def liftR_def)

lemma authenticate_eq:
  "authenticate cfg = (case auth_token cfg of None \<Rightarrow> returnS () | Some token \<Rightarrow>
     thenS (liftR (encode_auth token)) (\<lambda>fr. thenS (exchange cfg fr) auth_branch))"
  unfolding authenticate_def auth_branch_def [abs_def] exchange_def thenS_assoc ..

lemma auth_branch_cases:
  assumes "auth_branch resp s = (r, s')"
  obtains "r = Inr ()" "s' = s" "resp_type resp = ''AuthOk''"
  | e t where "r = Inl e" "close_locked s = (t, s')" "resp_type resp \<noteq> ''AuthOk''"
proof -
  obtain t u where "close_locked s = (t, u)" by fastforce
  with assms that show ?thesis
    by (auto simp: auth_branch_def thenS_def returnS_def raiseS_def
        split: ClientResponse.splits if_splits sum.splits)
qed

lemma authenticate_trace:
  assumes "authenticate cfg s = (r, s')" "sock s \<noteq> None"
  obtains evs where "trace s' = trace s @ evs" "sent_frames evs = auth_frames cfg"
proof (cases "\<exists>fr. auth_frames cfg = [fr]")
  case False
  with assms(1) that [of "[]"] show ?thesis
    by (auto simp: authenticate_eq auth_frames_def returnS_def thenS_def liftR_def
        split: option.splits sum.splits)
next
  case True
  then obtain token fr where tok: "auth_token cfg = Some token" "encode_auth token = Inr fr" "auth_frames cfg = [fr]"
    by (auto simp: auth_frames_def split: option.splits sum.splits)
  obtain x s1 where x: "exchange cfg fr s = (x, s1)" by fastforce
  then obtain evs where evs: "trace s1 = trace s @ evs" "sent_frames evs = [fr]"
    using exchange_trace [OF x] assms(2) by auto
  show ?thesis
  proof (cases x)
    case (Inl e)
    with assms(1) x tok evs that show ?thesis by (simp add: authenticate_eq thenS_def liftR_def)
  next
    case (Inr resp)
    with assms(1) x tok have "auth_branch resp s1 = (r, s')"
      by (simp add: authenticate_eq thenS_def liftR_def)
    then obtain evs' where "trace s' = trace s1 @ evs'" "sent_frames evs' = []"
      by (cases rule: auth_branch_cases) (auto dest: close_locked_trace)
    with evs tok that [of "evs @ evs'"] show ?thesis by simp
  qed
qed


lemma connect_trace:
  assumes "connect_locked cfg s = (r, s')"
  obtains evs where "trace s' = trace s @ evs" "sent_frames evs = [] \<or> sent_frames evs = auth_frames cfg"
    "r = Inr () \<Longrightarrow> sock s = None \<Longrightarrow> sent_frames evs = auth_frames cfg"
proof (cases "sock s = None \<and> (\<exists>p ds sess. dials s = Accepted p # ds \<and> wrap_tls cfg p = Inr sess)")
  case False
  then have "trace s' = trace s \<and> (r = Inr () \<longrightarrow> sock s \<noteq> None) \<or>
      (\<exists>i. trace s' = trace s @ [Opened i]) \<and> r \<noteq> Inr ()"
    using assms by (auto simp: connect_locked_def dialled_def split: if_splits list.splits dial.splits sum.splits)
  then obtain evs where "trace s' = trace s @ evs" "sent_frames evs = []" "r = Inr () \<Longrightarrow> sock s \<noteq> None"
    by fastforce
  then show ?thesis by (intro that [of evs]) auto
next
  case True
  then obtain p ds sess where p: "sock s = None" "dials s = Accepted p # ds" "wrap_tls cfg p = Inr sess" by blast
  obtain s1 where s1: "authenticate cfg s1 = (r, s')" "sock s1 \<noteq> None" "trace s1 = trace s @ [Opened (next_cid s)]"
    using assms p by (simp add: connect_locked_def dialled_def)
  obtain evs where "trace s' = trace s1 @ evs" "sent_frames evs = auth_frames cfg"
    by (rule authenticate_trace [OF s1(1,2)])
  with s1(3) show ?thesis by (intro that [of "Opened (next_cid s) # evs"]) simp_all
qed

text \<open>
  The transmissions of one call of \<open>send\<close>: the request once, or, only when the call is
  safe to retry and the client reconnects on its own, the authentication of a new
  connection and the request a second time.
\<close>

lemma send_trace:
  assumes "send cfg fr retry s = (r, s')"
  obtains evs where "trace s' = trace s @ evs"
    "sent_frames evs = (if sock s = None then [] else [fr]) \<or>
     retry \<and> auto_reconnect cfg \<and> (sent_frames evs = fr # auth_frames cfg \<or> sent_frames evs = fr # auth_frames cfg @ [fr])"
proof (cases "sock s")
  case None
  with assms that [of "[]"] show ?thesis by (auto simp: send_def)
next
  case (Some c)
  obtain x s1 where x: "exchange cfg fr s = (x, s1)" by fastforce
  obtain e1 where e1: "trace s1 = trace s @ e1" "sent_frames e1 = [fr]"
    using exchange_trace [OF x] Some by auto
  obtain y s2 where y: "close_locked s1 = (y, s2)" by fastforce
  obtain e2 where e2: "trace s2 = trace s1 @ e2" "sent_frames e2 = []"
    using close_locked_trace [OF y] by blast
  obtain z s3 where z: "connect_locked cfg s2 = (z, s3)" by fastforce
  obtain e3 where e3: "trace s3 = trace s2 @ e3" "sent_frames e3 = [] \<or> sent_frames e3 = auth_frames cfg"
    "z = Inr () \<Longrightarrow> sock s2 = None \<Longrightarrow> sent_frames e3 = auth_frames cfg"
    using connect_trace [OF z] by metis
  obtain w s4 where w: "exchange cfg fr s3 = (w, s4)" by fastforce
  obtain e4 where e4: "trace s4 = trace s3 @ e4" "sock s3 \<noteq> None \<Longrightarrow> sent_frames e4 = [fr]"
    using exchange_trace [OF w] by metis
  have gone: "sock s2 = None" if "y = Inr ()"
    using y that by (auto simp: close_locked_def drop_sock_def split: option.splits list.splits io.splits if_splits)
  consider "s' = s1" | "s' = s2" | "retry" "auto_reconnect cfg" "s' = s3"
    | "retry" "auto_reconnect cfg" "s' = s4" "z = Inr ()" "y = Inr ()" "sock s3 \<noteq> None"
    using assms Some x y z w
    by (auto simp: send_def thenS_def assert_sock_def split: sum.splits if_splits)
  then show ?thesis
  proof cases
    case 4
    then have "sent_frames e3 = auth_frames cfg" "sent_frames e4 = [fr]"
      using e3(3) e4(2) gone by simp_all
    with 4 e1 e2 e3(1) e4(1) show ?thesis by (intro that [of "e1 @ e2 @ e3 @ e4"]) simp_all
  next
    case 3
    with e1 e2 e3(1,2) Some show ?thesis by (intro that [of "e1 @ e2 @ e3"]) auto
  next
    case 2
    with e1 e2 Some show ?thesis by (intro that [of "e1 @ e2"]) simp_all
  next
    case 1
    with e1 Some show ?thesis by (intro that [of e1]) simp_all
  qed
qed


text \<open>A request that finds the connection closed by the server, and the retry of it.\<close>

lemma exchange_eof:
  assumes "sock s = Some c" "can_send c" "inbound c = RecvData [] # evs"
  obtains c' where "exchange cfg fr s = (Inl (ConnectionError (lit ''Connection closed by server.'')),
      s\<lparr>sock := Some c', trace := trace s @ [Sent (cid c) fr]\<rparr>)" "cid c' = cid c" "shut c' = shut c"
proof -
  obtain c1 where c1: "sock_sendall fr s = (Inr (), s\<lparr>sock := Some c1, trace := trace s @ [Sent (cid c) fr]\<rparr>)"
      "c1 = c\<lparr>outbound := outbound c1\<rparr>"
    using sendall_ok [OF assms(1,2)] by blast
  have in1: "inbound c1 = RecvData [] # evs" "cid c1 = cid c" "shut c1 = shut c"
    using assms(3) by (subst c1(2), simp)+
  then show ?thesis
    by (intro that [of "c1\<lparr>inbound := evs\<rparr>"])
       (simp_all add: exchange_def thenS_def c1(1) recv_response_def recvn_def recvn_loop.simps sock_recv_def)
qed

lemma send_retried:
  "sock s = Some c \<Longrightarrow> exchange cfg fr s = (Inl first, s1) \<Longrightarrow> is_os_error first \<Longrightarrow>
   close_locked s1 = (Inr (), s2) \<Longrightarrow> auto_reconnect cfg \<Longrightarrow> connect_locked cfg s2 = (Inr (), s3) \<Longrightarrow>
   sock s3 \<noteq> None \<Longrightarrow> send cfg fr True s = exchange cfg fr s3"
  by (auto simp: send_def thenS_def assert_sock_def)


section \<open>The shape of a public request\<close>

locale client_call =
  fixes cfg :: tcp_config
    and check :: "unit result"
    and req :: "request result"
    and retry :: bool
    and post :: "ClientResponse \<Rightarrow> 'a result"
    and call :: "'a op"
  assumes call_eq: "call =
    thenS (liftR check) (\<lambda>_. thenS (liftR (bindR req encode_request)) (\<lambda>fr.
    thenS (send cfg fr retry) (\<lambda>resp. liftR (post resp))))"
begin

lemma call_steps: "call s =
  (case bindR check (\<lambda>_. bindR req encode_request) of
     Inl e \<Rightarrow> (Inl e, s)
   | Inr fr \<Rightarrow> (case send cfg fr retry s of (r, s') \<Rightarrow> (bindR r post, s')))"
  by (cases check; cases "bindR req encode_request"; cases "fst (send cfg (projr (bindR req encode_request)) retry s)")
     (auto simp: call_eq thenS_def liftR_def split: prod.split)

text \<open>Refused inputs touch nothing.\<close>

lemma refused: "check = Inl e \<Longrightarrow> call s = (Inl e, s)"
  by (simp add: call_steps)

lemma unencodable: "check = Inr () \<Longrightarrow> bindR req encode_request = Inl e \<Longrightarrow> call s = (Inl e, s)"
  by (simp add: call_steps)

lemma unconnected: "sock s = None \<Longrightarrow> snd (call s) = s"
  by (simp add: call_steps send_def split: sum.split)

lemma answered:
  assumes "check = Inr ()" "bindR req encode_request = Inr fr"
    and "sock s = Some c" "can_send c" "delivers c (frame payload @ ys) tail" "fits_frame payload"
    and "int (length payload) \<le> max_frame_bytes cfg"
  obtains c' where
    "call s = (bindR (decode_response payload) post, s\<lparr>sock := Some c', trace := trace s @ [Sent (cid c) fr]\<rparr>)"
    "can_send c'" "delivers c' ys tail" "cid c' = cid c"
proof -
  obtain c' where c': "can_send c'" "delivers c' ys tail" "cid c' = cid c"
    "send cfg fr retry s = (decode_response payload, s\<lparr>sock := Some c', trace := trace s @ [Sent (cid c) fr]\<rparr>)"
    using send_ok [OF assms(3-7)] by blast
  show ?thesis
    by (rule that [OF _ c'(1-3)]) (simp add: call_steps assms(1,2) c'(4))
qed

lemma once:
  assumes "\<not> retry"
  shows "\<exists>evs. trace (snd (call s)) = trace s @ evs \<and>
    (evs = [] \<or> (\<exists>c fr. sock s = Some c \<and> bindR req encode_request = Inr fr \<and>
      (evs = [Sent (cid c) fr] \<or> evs = [Sent (cid c) fr, Closed (cid c)])))"
proof (cases "bindR check (\<lambda>_. bindR req encode_request)")
  case (Inl e)
  then show ?thesis by (simp add: call_steps)
next
  case (Inr fr)
  obtain r s' where r: "send cfg fr False s = (r, s')" by fastforce
  have call: "snd (call s) = s'" using Inr r assms by (simp add: call_steps)
  have enc: "bindR req encode_request = Inr fr" using Inr by (simp add: bindR_eq_Inr)
  show ?thesis
  proof (cases "sock s")
    case None
    with r call show ?thesis by (auto simp: send_def)
  next
    case (Some c)
    from r Some show ?thesis
      by (cases rule: send_once_cases) (use call enc Some in auto)
  qed
qed

lemma transmissions:
  obtains evs where "trace (snd (call s)) = trace s @ evs"
    "sent_frames evs = [] \<or> (\<exists>fr. bindR req encode_request = Inr fr \<and>
      (sent_frames evs = [fr] \<or> retry \<and> auto_reconnect cfg \<and>
        (sent_frames evs = fr # auth_frames cfg \<or> sent_frames evs = fr # auth_frames cfg @ [fr])))"
proof (cases "bindR check (\<lambda>_. bindR req encode_request)")
  case (Inl e)
  then show ?thesis by (intro that [of "[]"]) (simp_all add: call_steps)
next
  case (Inr fr)
  obtain r s' where r: "send cfg fr retry s = (r, s')" by fastforce
  have "snd (call s) = s'" "bindR req encode_request = Inr fr"
    using Inr r by (simp add: call_steps, simp add: bindR_eq_Inr)
  moreover obtain evs where "trace s' = trace s @ evs"
    "sent_frames evs = (if sock s = None then [] else [fr]) \<or>
     retry \<and> auto_reconnect cfg \<and> (sent_frames evs = fr # auth_frames cfg \<or> sent_frames evs = fr # auth_frames cfg @ [fr])"
    by (rule send_trace [OF r])
  ultimately show ?thesis by (intro that [of evs]) (auto split: if_splits)
qed

text \<open>The contract is kept when the result is mapped.\<close>

lemma mapped: "client_call cfg check req retry (\<lambda>resp. bindR (post resp) (\<lambda>x. Inr (f x)))
    (thenS call (\<lambda>x. returnS (f x)))"
proof
  show "thenS call (\<lambda>x. returnS (f x)) = thenS (liftR check) (\<lambda>_. thenS (liftR (bindR req encode_request))
    (\<lambda>fr. thenS (send cfg fr retry) (\<lambda>resp. liftR (bindR (post resp) (\<lambda>x. Inr (f x))))))"
  proof -
    have "thenS (liftR (post resp)) (\<lambda>x. returnS (f x)) = (liftR (bindR (post resp) (\<lambda>x. Inr (f x))) :: _ op)" for resp
      by (cases "post resp") (simp_all add: fun_eq_iff thenS_def liftR_def returnS_def)
    then show ?thesis unfolding call_eq thenS_assoc by simp
  qed
qed

end


section \<open>The public requests\<close>

abbreviation core_check :: "tcp_config \<Rightarrow> string \<Rightarrow> pystr \<Rightarrow> pystr option \<Rightarrow> unit result" where
  "core_check cfg op key ns \<equiv> validate_core_inputs (strict_mode cfg) op (Some key) ns"

abbreviation pattern_check :: "tcp_config \<Rightarrow> string \<Rightarrow> pystr \<Rightarrow> pystr option \<Rightarrow> unit result" where
  "pattern_check cfg op p ns \<equiv> validate_pattern_inputs (strict_mode cfg) op (Some p) ns"

interpretation ping: client_call cfg "Inr ()" "Inr PingReq" True "\<lambda>resp. Inr (resp_type resp = ''Pong'')" "tcp_ping cfg"
  for cfg
  by unfold_locales (simp add: tcp_ping_def returnS_eq thenS_returned)

interpretation get: client_call cfg "core_check cfg ''get'' key ns" "Inr (GetReq key ns)" True get_branch "tcp_get cfg key ns"
  for cfg key ns
  by unfold_locales (simp add: tcp_get_def)

interpretation set: client_call cfg "core_check cfg ''set'' key ns"
    "bindR (raw_value v) (\<lambda>raw. Inr (SetReq key raw ttl ns))" False set_branch "tcp_set cfg key v ttl ns"
  for cfg key v ttl ns
  by unfold_locales (simp add: tcp_set_def bindR_assoc)

interpretation set_nx: client_call cfg "core_check cfg ''set'' key ns"
    "bindR (raw_value v) (\<lambda>raw. Inr (SetNxReq key raw ttl ns))" False set_nx_branch "tcp_set_nx cfg key v ttl ns"
  for cfg key v ttl ns
  by unfold_locales (simp add: tcp_set_nx_def bindR_assoc)

interpretation incr: client_call cfg "core_check cfg ''set'' key ns" "Inr (IncrReq key delta ttl ns)" False
    incr_branch "tcp_incr cfg key delta ttl ns"
  for cfg key delta ttl ns
  by unfold_locales (simp add: tcp_incr_def)

interpretation delete: client_call cfg "core_check cfg ''delete'' key ns" "Inr (DeleteReq key ns)" False
    delete_branch "tcp_delete cfg key ns"
  for cfg key ns
  by unfold_locales (simp add: tcp_delete_def)

interpretation delete_by_pattern: client_call cfg "pattern_check cfg ''delete_by_pattern'' p ns"
    "Inr (DeleteByPatternReq p ns)" False delete_by_pattern_branch "tcp_delete_by_pattern cfg p ns"
  for cfg p ns
  by unfold_locales (simp add: tcp_delete_by_pattern_def)

interpretation set_ttl_by_pattern: client_call cfg "pattern_check cfg ''set_ttl_by_pattern'' p ns"
    "Inr (SetTtlByPatternReq p ttl ns)" False set_ttl_by_pattern_branch "tcp_set_ttl_by_pattern cfg p ttl ns"
  for cfg p ttl ns
  by unfold_locales (simp add: tcp_set_ttl_by_pattern_def)

interpretation watch: client_call cfg "core_check cfg ''watch'' key ns" "Inr (WatchReq key ns)" False
    "ack_branch ''Watching''" "tcp_watch cfg key ns"
  for cfg key ns
  by unfold_locales (simp add: tcp_watch_def)

interpretation unwatch: client_call cfg "core_check cfg ''unwatch'' key ns" "Inr (UnwatchReq key ns)" False
    "ack_branch ''Unwatched''" "tcp_unwatch cfg key ns"
  for cfg key ns
  by unfold_locales (simp add: tcp_unwatch_def)

end
