(* ===== verification/Tcp_Api.thy ===== *)
theory Tcp_Api
  imports Tcp_Calls
begin

text \<open>
  The public interface of the TCP client as data: every request method as a value of
  \<open>api_call\<close> and every result as a value of \<open>api_result\<close>, so that a property of all
  methods is one statement about \<open>perform\<close>.
\<close>

section \<open>Calls and results as data\<close>

datatype api_call =
    Ping
  | Get pystr "pystr option"
  | Set pystr py_value int "pystr option"
  | SetNx pystr py_value int "pystr option"
  | Incr pystr int int "pystr option"
  | Delete pystr "pystr option"
  | DeleteByPattern pystr "pystr option"
  | SetTtlByPattern pystr int "pystr option"
  | Watch pystr "pystr option"
  | Unwatch pystr "pystr option"

datatype api_result =
    Flag bool
  | Found "int DittoGetResult option"
  | Stored "int DittoSetResult"
  | Created DittoSetNxResult
  | Counted DittoCounterResult
  | Removed "int DittoDeleteByPatternResult"
  | Updated "int DittoSetTtlByPatternResult"
  | Acked

definition mapS :: "('a \<Rightarrow> 'b) \<Rightarrow> 'a op \<Rightarrow> 'b op" where
  "mapS f m = thenS m (\<lambda>x. returnS (f x))"

definition map_result :: "('a \<Rightarrow> 'b) \<Rightarrow> 'a result \<Rightarrow> 'b result" where
  "map_result f r = bindR r (\<lambda>x. Inr (f x))"

fun perform :: "tcp_config \<Rightarrow> api_call \<Rightarrow> api_result op" where
  "perform cfg Ping = mapS Flag (tcp_ping cfg)"
| "perform cfg (Get k ns) = mapS Found (tcp_get cfg k ns)"
| "perform cfg (Set k v ttl ns) = mapS Stored (tcp_set cfg k v ttl ns)"
| "perform cfg (SetNx k v ttl ns) = mapS Created (tcp_set_nx cfg k v ttl ns)"
| "perform cfg (Incr k d ttl ns) = mapS Counted (tcp_incr cfg k d ttl ns)"
| "perform cfg (Delete k ns) = mapS Flag (tcp_delete cfg k ns)"
| "perform cfg (DeleteByPattern p ns) = mapS Removed (tcp_delete_by_pattern cfg p ns)"
| "perform cfg (SetTtlByPattern p ttl ns) = mapS Updated (tcp_set_ttl_by_pattern cfg p ttl ns)"
| "perform cfg (Watch k ns) = mapS (\<lambda>_. Acked) (tcp_watch cfg k ns)"
| "perform cfg (Unwatch k ns) = mapS (\<lambda>_. Acked) (tcp_unwatch cfg k ns)"

text \<open>What a call checks, asks for, may repeat and makes of a response.\<close>

fun call_check :: "tcp_config \<Rightarrow> api_call \<Rightarrow> unit result" where
  "call_check cfg Ping = Inr ()"
| "call_check cfg (Get k ns) = core_check cfg ''get'' k ns"
| "call_check cfg (Set k v ttl ns) = core_check cfg ''set'' k ns"
| "call_check cfg (SetNx k v ttl ns) = core_check cfg ''set'' k ns"
| "call_check cfg (Incr k d ttl ns) = core_check cfg ''set'' k ns"
| "call_check cfg (Delete k ns) = core_check cfg ''delete'' k ns"
| "call_check cfg (DeleteByPattern p ns) = pattern_check cfg ''delete_by_pattern'' p ns"
| "call_check cfg (SetTtlByPattern p ttl ns) = pattern_check cfg ''set_ttl_by_pattern'' p ns"
| "call_check cfg (Watch k ns) = core_check cfg ''watch'' k ns"
| "call_check cfg (Unwatch k ns) = core_check cfg ''unwatch'' k ns"

fun call_request :: "api_call \<Rightarrow> request result" where
  "call_request Ping = Inr PingReq"
| "call_request (Get k ns) = Inr (GetReq k ns)"
| "call_request (Set k v ttl ns) = bindR (raw_value v) (\<lambda>raw. Inr (SetReq k raw ttl ns))"
| "call_request (SetNx k v ttl ns) = bindR (raw_value v) (\<lambda>raw. Inr (SetNxReq k raw ttl ns))"
| "call_request (Incr k d ttl ns) = Inr (IncrReq k d ttl ns)"
| "call_request (Delete k ns) = Inr (DeleteReq k ns)"
| "call_request (DeleteByPattern p ns) = Inr (DeleteByPatternReq p ns)"
| "call_request (SetTtlByPattern p ttl ns) = Inr (SetTtlByPatternReq p ttl ns)"
| "call_request (Watch k ns) = Inr (WatchReq k ns)"
| "call_request (Unwatch k ns) = Inr (UnwatchReq k ns)"

fun read_only :: "api_call \<Rightarrow> bool" where
  "read_only Ping = True"
| "read_only (Get k ns) = True"
| "read_only _ = False"

fun call_branch :: "api_call \<Rightarrow> ClientResponse \<Rightarrow> api_result result" where
  "call_branch Ping resp = Inr (Flag (resp_type resp = ''Pong''))"
| "call_branch (Get k ns) resp = map_result Found (get_branch resp)"
| "call_branch (Set k v ttl ns) resp = map_result Stored (set_branch resp)"
| "call_branch (SetNx k v ttl ns) resp = map_result Created (set_nx_branch resp)"
| "call_branch (Incr k d ttl ns) resp = map_result Counted (incr_branch resp)"
| "call_branch (Delete k ns) resp = map_result Flag (delete_branch resp)"
| "call_branch (DeleteByPattern p ns) resp = map_result Removed (delete_by_pattern_branch resp)"
| "call_branch (SetTtlByPattern p ttl ns) resp = map_result Updated (set_ttl_by_pattern_branch resp)"
| "call_branch (Watch k ns) resp = map_result (\<lambda>_. Acked) (ack_branch ''Watching'' resp)"
| "call_branch (Unwatch k ns) resp = map_result (\<lambda>_. Acked) (ack_branch ''Unwatched'' resp)"

lemmas mapped_calls = ping.mapped get.mapped set.mapped set_nx.mapped incr.mapped delete.mapped
  delete_by_pattern.mapped set_ttl_by_pattern.mapped watch.mapped unwatch.mapped

interpretation api: client_call cfg "call_check cfg a" "call_request a" "read_only a" "call_branch a" "perform cfg a"
  for cfg a
proof -
  show "client_call cfg (call_check cfg a) (call_request a) (read_only a) (call_branch a) (perform cfg a)"
    using mapped_calls by (cases a) (simp_all add: mapS_def map_result_def call_branch.simps [abs_def])
qed

end
