(* ===== verification/Tcp_Lifecycle.thy ===== *)
theory Tcp_Lifecycle
  imports Tcp_Api
begin

text \<open>
  The life of the client: the step relation of its public methods and the states they
  reach. A property of the state that survives the elementary effects (a piece received, a
  frame sent, a socket closed or opened) survives every method; the locale
  \<open>client_invariant\<close> proves that once. It is interpreted for the discipline of
  the connections (an abstract automaton the trace refines) and for the TLS session.
\<close>

section \<open>Steps\<close>

inductive client_step :: "tcp_config \<Rightarrow> tcp_state \<Rightarrow> tcp_state \<Rightarrow> bool" for cfg where
  Connect: "tcp_connect cfg s = (r, s') \<Longrightarrow> client_step cfg s s'"
| Close: "tcp_close s = (r, s') \<Longrightarrow> client_step cfg s s'"
| Request: "perform cfg a s = (r, s') \<Longrightarrow> client_step cfg s s'"
| WaitEvent: "tcp_wait_watch_event cfg s = (r, s') \<Longrightarrow> client_step cfg s s'"

inductive_cases client_stepE: "client_step cfg s s'"

inductive reachable :: "tcp_config \<Rightarrow> tcp_state \<Rightarrow> bool" for cfg where
  Start: "reachable cfg (init_state ds)"
| Step: "reachable cfg s \<Longrightarrow> client_step cfg s s' \<Longrightarrow> reachable cfg s'"


section \<open>Invariants by elementary effect\<close>

locale client_invariant =
  fixes cfg :: tcp_config and I :: "tcp_state \<Rightarrow> bool"
  assumes start: "I (init_state ds)"
    and received: "I s \<Longrightarrow> sock s = Some c \<Longrightarrow> I (s\<lparr>sock := Some (c\<lparr>inbound := ib\<rparr>)\<rparr>)"
    and sent: "I s \<Longrightarrow> sock s = Some c \<Longrightarrow>
      I (s\<lparr>sock := Some (c\<lparr>outbound := ob\<rparr>), trace := trace s @ [Sent (cid c) fr]\<rparr>)"
    and closed: "I s \<Longrightarrow> sock s = Some c \<Longrightarrow> I (drop_sock c s)"
    and kept_open: "I s \<Longrightarrow> sock s = Some c \<Longrightarrow> I (s\<lparr>sock := Some (c\<lparr>shut := evs\<rparr>)\<rparr>)"
    and refused: "I s \<Longrightarrow> sock s = None \<Longrightarrow> I (s\<lparr>dials := ds\<rparr>)"
    and dropped: "I s \<Longrightarrow> sock s = None \<Longrightarrow> I (dialled s ds)"
    and opened: "I s \<Longrightarrow> sock s = None \<Longrightarrow> wrap_tls cfg p = Inr sess \<Longrightarrow>
      I ((dialled s ds)\<lparr>sock := Some (new_conn s p sess)\<rparr>)"
begin

lemma keeps_recv_response: "recv_response cfg' s = (r, s') \<Longrightarrow> I s \<Longrightarrow> I s'"
proof (cases "sock s")
  case (Some c)
  assume "recv_response cfg' s = (r, s')" "I s"
  with recv_response_frame_rule [OF this(1) Some] Some show ?thesis by (auto intro: received)
qed (auto simp: recv_response_def thenS_def recvn_def)

lemma keeps_exchange: "exchange cfg' fr s = (r, s') \<Longrightarrow> I s \<Longrightarrow> I s'"
proof (cases "sock s")
  case (Some c)
  assume ex: "exchange cfg' fr s = (r, s')" and i: "I s"
  obtain x s1 where x: "sock_sendall fr s = (x, s1)" by fastforce
  have "I s1" using sendall_frame [OF x Some] sent [OF i Some] by simp
  with ex x show ?thesis
    by (auto simp: exchange_def thenS_def split: sum.splits dest: keeps_recv_response)
qed (auto simp: exchange_def thenS_def sock_sendall_def)

lemma keeps_close: "close_locked s = (r, s') \<Longrightarrow> I s \<Longrightarrow> I s'"
  by (auto simp: close_locked_def closed kept_open split: option.splits list.splits io.splits if_splits)

lemma keeps_auth_branch: "auth_branch resp s = (r, s') \<Longrightarrow> I s \<Longrightarrow> I s'"
  by (erule auth_branch_cases) (auto dest: keeps_close)

lemma keeps_authenticate: "authenticate cfg' s = (r, s') \<Longrightarrow> I s \<Longrightarrow> I s'"
  by (auto simp: authenticate_eq returnS_def thenS_def liftR_def
      split: option.splits sum.splits prod.splits dest: keeps_exchange keeps_auth_branch)

lemma keeps_connect: "connect_locked cfg s = (r, s') \<Longrightarrow> I s \<Longrightarrow> I s'"
  by (auto simp: connect_locked_def refused dropped split: if_splits list.splits dial.splits sum.splits
      dest: keeps_authenticate intro: opened)

lemma keeps_send: "send cfg fr retry s = (r, s') \<Longrightarrow> I s \<Longrightarrow> I s'"
  by (auto simp: send_def thenS_def assert_sock_def split: if_splits sum.splits prod.splits
      dest!: keeps_exchange keeps_close keeps_connect)

lemma keeps_perform: "perform cfg a s = (r, s') \<Longrightarrow> I s \<Longrightarrow> I s'"
  by (auto simp: api.call_steps split: sum.splits prod.splits dest: keeps_send)

lemma keeps_wait: "tcp_wait_watch_event cfg s = (r, s') \<Longrightarrow> I s \<Longrightarrow> I s'"
  by (auto simp: tcp_wait_watch_event_def thenS_def liftR_def split: if_splits sum.splits prod.splits
      dest: keeps_recv_response)

lemma keeps_step: "client_step cfg s s' \<Longrightarrow> I s \<Longrightarrow> I s'"
  by (erule client_stepE)
     (auto simp: tcp_connect_def tcp_close_def dest: keeps_connect keeps_close keeps_perform keeps_wait)

lemma holds: "reachable cfg s \<Longrightarrow> I s"
  by (induction rule: reachable.induct) (auto intro: start keeps_step)

end


section \<open>One connection at a time\<close>

text \<open>
  What the environment may see: connections are numbered in the order they are opened;
  frames go only to the newest one and only while it is open; it is closed at most once; and
  once a frame has gone to it, no other is opened before it is closed. (A connection whose
  TLS set-up failed is dropped without a frame.)
\<close>

datatype link = Idle | Fresh nat | InUse nat

fun link_step :: "nat \<times> link \<Rightarrow> net_event \<Rightarrow> (nat \<times> link) option" where
  "link_step (n, InUse j) (Opened i) = None"
| "link_step (n, l) (Opened i) = (if i = n then Some (n + 1, Fresh i) else None)"
| "link_step (n, Idle) (Sent i fr) = None"
| "link_step (n, Fresh j) (Sent i fr) = (if i = j then Some (n, InUse j) else None)"
| "link_step (n, InUse j) (Sent i fr) = (if i = j then Some (n, InUse j) else None)"
| "link_step (n, Idle) (Closed i) = None"
| "link_step (n, Fresh j) (Closed i) = (if i = j then Some (n, Idle) else None)"
| "link_step (n, InUse j) (Closed i) = (if i = j then Some (n, Idle) else None)"

fun link_run :: "nat \<times> link \<Rightarrow> net_event list \<Rightarrow> (nat \<times> link) option" where
  "link_run l [] = Some l"
| "link_run l (ev # evs) = (case link_step l ev of None \<Rightarrow> None | Some l' \<Rightarrow> link_run l' evs)"

lemma link_run_append: "link_run l (xs @ ys) = (case link_run l xs of None \<Rightarrow> None | Some l' \<Rightarrow> link_run l' ys)"
  by (induction xs arbitrary: l) (auto split: option.split)

definition holds_link :: "conn option \<Rightarrow> link \<Rightarrow> bool" where
  "holds_link so l \<longleftrightarrow> (case so of None \<Rightarrow> l = Idle \<or> (\<exists>i. l = Fresh i) | Some c \<Rightarrow> l = Fresh (cid c) \<or> l = InUse (cid c))"

definition orderly :: "tcp_state \<Rightarrow> bool" where
  "orderly s \<longleftrightarrow> (\<exists>l. link_run (0, Idle) (trace s) = Some (next_cid s, l) \<and> holds_link (sock s) l)"

interpretation orderly: client_invariant cfg orderly
  for cfg
proof unfold_locales
  fix s c ob fr ds p sess ib evs
  show "orderly (init_state ds)"
    by (simp add: orderly_def init_state_def holds_link_def)
  show "orderly (s\<lparr>sock := Some (c\<lparr>inbound := ib\<rparr>)\<rparr>)" if "orderly s" "sock s = Some c"
    using that by (simp add: orderly_def holds_link_def)
  show "orderly (s\<lparr>sock := Some (c\<lparr>shut := evs\<rparr>)\<rparr>)" if "orderly s" "sock s = Some c"
    using that by (simp add: orderly_def holds_link_def)
  show "orderly (s\<lparr>sock := Some (c\<lparr>outbound := ob\<rparr>), trace := trace s @ [Sent (cid c) fr]\<rparr>)"
    if "orderly s" "sock s = Some c"
    using that by (auto simp: orderly_def holds_link_def link_run_append)
  show "orderly (drop_sock c s)" if "orderly s" "sock s = Some c"
    using that by (auto simp: orderly_def holds_link_def link_run_append drop_sock_def)
  show "orderly (s\<lparr>dials := ds\<rparr>)" if "orderly s" "sock s = None"
    using that by (simp add: orderly_def)
  show "orderly (dialled s ds)" if "orderly s" "sock s = None"
    using that by (auto simp: orderly_def holds_link_def link_run_append dialled_def)
  show "orderly ((dialled s ds)\<lparr>sock := Some (new_conn s p sess)\<rparr>)" if "orderly s" "sock s = None"
    using that by (auto simp: orderly_def holds_link_def link_run_append dialled_def new_conn_def)
qed


section \<open>The TLS session of the socket\<close>

definition expected_session :: "tcp_config \<Rightarrow> tls_session option" where
  "expected_session cfg = (if tls cfg
     then Some \<lparr>tls_ca = map_option ca_of (tls_ca_cert cfg), tls_sni = server_hostname cfg\<rparr> else None)"

definition tls_ok :: "tcp_config \<Rightarrow> tcp_state \<Rightarrow> bool" where
  "tls_ok cfg s \<longleftrightarrow> (case sock s of None \<Rightarrow> True | Some c \<Rightarrow> session c = expected_session cfg)"

lemma wrap_tls_session: "wrap_tls cfg p = Inr sess \<Longrightarrow> sess = expected_session cfg"
  by (auto simp: wrap_tls_def expected_session_def bindR_eq_Inr split: if_splits option.splits io.splits)

interpretation tls: client_invariant cfg "tls_ok cfg"
  for cfg
  by unfold_locales
     (auto simp: tls_ok_def init_state_def drop_sock_def dialled_def new_conn_def wrap_tls_session)

section \<open>Properties of the connection\<close>

fun event_id :: "net_event \<Rightarrow> nat" where
  "event_id (Opened i) = i"
| "event_id (Sent i fr) = i"
| "event_id (Closed i) = i"

lemma link_step_ids:
  "link_step (n, l) ev = Some (n1, l1) \<Longrightarrow>
    n \<le> n1 \<and> (l1 = Fresh j \<or> l1 = InUse j \<longrightarrow> n \<le> j \<or> l = Fresh j \<or> l = InUse j)"
  by (cases ev; cases l) (auto split: if_splits)

lemma link_run_ids:
  "link_run (n, l) evs = Some l' \<Longrightarrow> ev \<in> set evs \<Longrightarrow>
    n \<le> event_id ev \<or> l = Fresh (event_id ev) \<or> l = InUse (event_id ev)"
proof (induction evs arbitrary: n l)
  case (Cons ev0 evs)
  obtain n1 l1 where s1: "link_step (n, l) ev0 = Some (n1, l1)" "link_run (n1, l1) evs = Some l'"
    using Cons.prems(1) by (auto split: option.splits)
  show ?case
  proof (cases "ev = ev0")
    case True
    with s1(1) show ?thesis by (cases ev; cases l) (auto split: if_splits)
  next
    case False
    with Cons.IH [OF s1(2)] Cons.prems(2) link_step_ids [OF s1(1)] show ?thesis by fastforce
  qed
qed simp

lemma closed_is_old:
  assumes "link_run (0, Idle) (xs @ [Closed i]) = Some (n, l)"
  shows "l = Idle \<and> i < n"
proof -
  have ids: "link_run (m, l0) ys = Some (n', l') \<Longrightarrow> (\<forall>j. l0 = Fresh j \<or> l0 = InUse j \<longrightarrow> j < m) \<Longrightarrow>
      (\<forall>j. l' = Fresh j \<or> l' = InUse j \<longrightarrow> j < n')" for m l0 ys n' l'
  proof (induction ys arbitrary: m l0)
    case (Cons ev ys)
    then show ?case
      by (cases ev; cases l0) (auto split: if_splits)
  qed auto
  obtain m l0 where "link_run (0, Idle) xs = Some (m, l0)" "link_step (m, l0) (Closed i) = Some (n, l)"
    using assms by (auto simp: link_run_append split: option.splits)
  with ids [of 0 Idle xs m l0] show ?thesis by (cases l0) (auto split: if_splits)
qed

text \<open>
  C7: in every state the client can reach, its events are a run of the one-connection
  automaton, which ends in the connection the socket attribute holds: at most one connection
  is in use, and it is the newest.
\<close>

theorem trace_refines_link: "reachable cfg s \<Longrightarrow>
  \<exists>l. link_run (0, Idle) (trace s) = Some (next_cid s, l) \<and> holds_link (sock s) l"
  using orderly.holds by (simp add: orderly_def)

text \<open>
  A connection that was closed is never used again: no frame is sent on it, it is not
  closed twice and its number is not given to another.
\<close>

theorem no_use_after_close:
  assumes "reachable cfg s" "trace s = xs @ Closed i # ys"
  shows "Opened i \<notin> set ys \<and> Closed i \<notin> set ys \<and> (\<forall>fr. Sent i fr \<notin> set ys)"
proof -
  obtain l where "link_run (0, Idle) ((xs @ [Closed i]) @ ys) = Some (next_cid s, l)"
    using orderly.holds [OF assms(1)] assms(2) by (auto simp: orderly_def)
  then obtain n l0 where run: "link_run (0, Idle) (xs @ [Closed i]) = Some (n, l0)"
      "link_run (n, l0) ys = Some (next_cid s, l)"
    by (subst (asm) link_run_append) (auto split: option.splits)
  with closed_is_old [OF run(1)] link_run_ids [OF run(2), of "Opened i"] link_run_ids [OF run(2), of "Closed i"]
      link_run_ids [OF run(2), of "Sent i fr" for fr]
  show ?thesis by auto
qed

text \<open>
  C21: with TLS configured, every socket the client holds has completed a handshake that
  verified the server against the configured trust anchor under the configured name (the host
  name if there is none); without TLS it has none.
\<close>

theorem socket_has_tls: "reachable cfg s \<Longrightarrow> sock s = Some c \<Longrightarrow> session c = expected_session cfg"
  using tls.holds [of cfg s] by (simp add: tls_ok_def)

text \<open>A peer that accepts everything and sends the given pieces, and the state after a connect to it.\<close>

definition easy_peer :: "bytes list \<Rightarrow> peer" where
  "easy_peer bs = \<lparr>peer_recv = map RecvData bs, peer_send = [], peer_shutdown = [], peer_load_ca = Done, peer_handshake = Done\<rparr>"

lemma reach_connect: "reachable cfg s \<Longrightarrow> reachable cfg (snd (tcp_connect cfg s))"
  by (erule reachable.Step) (rule client_step.Connect [where r = "fst (tcp_connect cfg s)"], simp)

lemma reach_close: "reachable cfg s \<Longrightarrow> reachable cfg (snd (tcp_close s))"
  by (erule reachable.Step) (rule client_step.Close [where r = "fst (tcp_close s)"], simp)

text \<open>Connect, close, connect again, without TLS or a token.\<close>

definition sample_reconnected :: tcp_state where
  "sample_reconnected = snd (tcp_connect sample_config (snd (tcp_close (snd (tcp_connect sample_config
     (init_state [Accepted (easy_peer []), Accepted (easy_peer [])]))))))"

lemma sample_reconnected_reachable: "reachable sample_config sample_reconnected"
  unfolding sample_reconnected_def by (intro reach_connect reach_close reachable.Start)

lemma sample_reconnected_eq: "sample_reconnected =
  \<lparr>sock = Some ((sample_conn [])\<lparr>cid := 1\<rparr>), dials = [], next_cid = 2, trace = [Opened 0, Closed 0, Opened 1]\<rparr>"
  unfolding sample_reconnected_def
  by (simp add: tcp_connect_def tcp_close_def connect_locked_def close_locked_def init_state_def wrap_tls_def
      sample_config_def init_client_def authenticate_def returnS_def dialled_def new_conn_def easy_peer_def
      drop_sock_def sample_conn_def)

theorem trace_refines_link_witness:
  "\<exists>l. link_run (0, Idle) [Opened 0, Closed 0, Opened 1] = Some (2, l) \<and> holds_link (Some ((sample_conn [])\<lparr>cid := 1\<rparr>)) l"
  using trace_refines_link [OF sample_reconnected_reachable] by (simp add: sample_reconnected_eq)

theorem no_use_after_close_witness:
  "Opened 0 \<notin> set [Opened 1] \<and> Closed 0 \<notin> set [Opened 1] \<and> (\<forall>fr. Sent 0 fr \<notin> set [Opened 1])"
  by (rule no_use_after_close [OF sample_reconnected_reachable, of "[Opened 0]"]) (simp add: sample_reconnected_eq)

definition sample_tls_config :: tcp_config where
  "sample_tls_config = sample_config\<lparr>tls := True, tls_ca_cert := Some (lit ''ca.pem'')\<rparr>"

theorem socket_has_tls_witness:
  "\<exists>c. sock (snd (tcp_connect sample_tls_config (init_state [Accepted (easy_peer [])]))) = Some c \<and>
    session c = Some \<lparr>tls_ca = Some (CaFile (lit ''ca.pem'')), tls_sni = lit ''localhost''\<rparr>"
proof -
  let ?s = "snd (tcp_connect sample_tls_config (init_state [Accepted (easy_peer [])]))"
  obtain c where c: "sock ?s = Some c"
    by (simp add: tcp_connect_def connect_locked_def init_state_def wrap_tls_def sample_tls_config_def
        sample_config_def init_client_def authenticate_def returnS_def easy_peer_def)
  have ca: "ca_of (lit ''ca.pem'') = CaFile (lit ''ca.pem'')"
    by (simp add: ca_of_def lit_def)
  have "session c = expected_session sample_tls_config"
    by (rule socket_has_tls [OF reach_connect [OF reachable.Start] c])
  with c ca show ?thesis
    by (simp add: expected_session_def sample_tls_config_def sample_config_def init_client_def
        server_hostname_def stripped_or_none_def)
qed


section \<open>Authentication\<close>

lemma connect_fresh:
  "sock s = None \<Longrightarrow> dials s = Accepted p # ds \<Longrightarrow> wrap_tls cfg p = Inr sess \<Longrightarrow>
   tcp_connect cfg s = authenticate cfg ((dialled s ds)\<lparr>sock := Some (new_conn s p sess)\<rparr>)"
  by (simp add: tcp_connect_def connect_locked_def)

text \<open>A connect whose server answers the token with \<open>resp\<close>.\<close>

lemma auth_reply:
  assumes "auth_token cfg = Some token" "encode_auth token = Inr fr" "sock s = None"
    and "dials s = Accepted p # ds" "wrap_tls cfg p = Inr sess"
    and "can_send (new_conn s p sess)" "delivers (new_conn s p sess) (frame payload @ ys) tail"
    and "fits_frame payload" "int (length payload) \<le> max_frame_bytes cfg"
    and "decode_response payload = Inr resp"
  obtains s2 c' where "tcp_connect cfg s = auth_branch resp s2" "sock s2 = Some c'" "cid c' = next_cid s"
    "trace s2 = trace s @ [Opened (next_cid s), Sent (next_cid s) fr]" "shut c' = peer_shutdown p"
proof -
  let ?s1 = "(dialled s ds)\<lparr>sock := Some (new_conn s p sess)\<rparr>"
  obtain x s2 where x: "exchange cfg fr ?s1 = (x, s2)" by fastforce
  obtain c' where c': "s2 = ?s1\<lparr>sock := Some c', trace := trace ?s1 @ [Sent (next_cid s) fr]\<rparr>"
      "cid c' = next_cid s" "shut c' = peer_shutdown p"
    using exchange_frame [OF x, of "new_conn s p sess"] by (auto simp: new_conn_def)
  have "x = Inr resp"
    using exchange_ok [of ?s1 "new_conn s p sess" payload ys tail cfg fr] x assms by auto
  then have "tcp_connect cfg s = auth_branch resp s2"
    using connect_fresh [OF assms(3-5)] x by (simp add: authenticate_eq assms(1,2) thenS_def liftR_def)
  with c' show ?thesis by (intro that [of s2 c']) (simp_all add: dialled_def)
qed

text \<open>
  C22: with a token configured, \<open>connect\<close> on a disconnected client returns only if the next
  connection attempt was accepted and passed TLS, the authentication request was the only frame sent on
  the new connection, and the first response that the server sent on it, read from its
  beginning, is \<open>AuthOk\<close>; the client then holds that connection, at what follows.
\<close>

theorem connect_authenticates:
  assumes "auth_token cfg = Some token" "sock s = None" "tcp_connect cfg s = (Inr (), s')"
  shows "\<exists>p ds sess fr resp. dials s = Accepted p # ds \<and> wrap_tls cfg p = Inr sess \<and> encode_auth token = Inr fr \<and>
    exchange cfg fr ((dialled s ds)\<lparr>sock := Some (new_conn s p sess)\<rparr>) = (Inr resp, s') \<and> resp_type resp = ''AuthOk'' \<and>
    trace s' = trace s @ [Opened (next_cid s), Sent (next_cid s) fr] \<and> sock s' \<noteq> None"
proof -
  obtain p ds sess where p: "dials s = Accepted p # ds" "wrap_tls cfg p = Inr sess"
    using assms(2,3) by (auto simp: tcp_connect_def connect_locked_def split: list.splits dial.splits sum.splits)
  let ?s1 = "(dialled s ds)\<lparr>sock := Some (new_conn s p sess)\<rparr>"
  have auth: "authenticate cfg ?s1 = (Inr (), s')"
    using connect_fresh [OF assms(2) p] assms(3) by simp
  then obtain fr resp s2 where fr: "encode_auth token = Inr fr" "exchange cfg fr ?s1 = (Inr resp, s2)"
      "auth_branch resp s2 = (Inr (), s')"
    by (auto simp: authenticate_eq assms(1) thenS_def liftR_def split: sum.splits prod.splits)
  have ok: "s' = s2" "resp_type resp = ''AuthOk''"
    using fr(3) by (auto elim: auth_branch_cases)
  obtain c' where "s2 = ?s1\<lparr>sock := Some c', trace := trace ?s1 @ [Sent (next_cid s) fr]\<rparr>"
    using exchange_frame [OF fr(2), of "new_conn s p sess"] by (auto simp: new_conn_def)
  then have "trace s2 = trace s @ [Opened (next_cid s), Sent (next_cid s) fr]" "sock s2 \<noteq> None"
    by (simp_all add: dialled_def)
  with p fr ok show ?thesis by blast
qed

text \<open>
  When the server answers the token with an error, \<open>connect\<close> raises
  \<open>DittoError\<close> with the server's code and message and the connection is closed.
\<close>

theorem auth_error_closes:
  assumes "auth_token cfg = Some token" "encode_auth token = Inr fr" "sock s = None"
    and "dials s = Accepted p # ds" "wrap_tls cfg p = Inr sess"
    and "can_send (new_conn s p sess)" "delivers (new_conn s p sess) (frame payload @ ys) tail"
    and "shut_ok (new_conn s p sess)"
    and "fits_frame payload" "int (length payload) \<le> max_frame_bytes cfg"
    and "decode_response payload = Inr (RError code message)"
  shows "\<exists>s'. tcp_connect cfg s = (Inl (DittoError (Code code) (Text message)), s') \<and> sock s' = None \<and>
    trace s' = trace s @ [Opened (next_cid s), Sent (next_cid s) fr, Closed (next_cid s)]"
proof -
  obtain s2 c' where s2: "tcp_connect cfg s = auth_branch (RError code message) s2" "sock s2 = Some c'"
      "cid c' = next_cid s" "shut c' = peer_shutdown p"
      "trace s2 = trace s @ [Opened (next_cid s), Sent (next_cid s) fr]"
    using auth_reply [OF assms(1-7,9-11)] by blast
  have "close_locked s2 = (Inr (), drop_sock c' s2)"
    using assms(8) s2 by (intro close_locked_ok) (simp_all add: shut_ok_def new_conn_def)
  then have "tcp_connect cfg s = (Inl (DittoError (Code code) (Text message)), drop_sock c' s2)"
    using s2(1) by (simp add: auth_branch_def thenS_def raiseS_def)
  with s2 show ?thesis
    by (intro exI [of _ "drop_sock c' s2"]) (simp add: drop_sock_def)
qed

text \<open>
  C39: when the connection fails while the token is being sent, \<open>connect\<close> raises but
  keeps the socket; a second \<open>connect\<close> then returns at once, without authenticating.
\<close>

theorem auth_failure_keeps_socket:
  assumes "auth_token cfg = Some token" "encode_auth token = Inr fr" "sock s = None"
    and "dials s = Accepted p # ds" "wrap_tls cfg p = Inr sess" "peer_send p = Failed e # evs"
  shows "\<exists>s'. tcp_connect cfg s = (Inl (OSError e), s') \<and> sock s' \<noteq> None \<and> tcp_connect cfg s' = (Inr (), s')"
proof -
  have "tcp_connect cfg s = (Inl (OSError e), (dialled s ds)\<lparr>
      sock := Some ((new_conn s p sess)\<lparr>outbound := evs\<rparr>), trace := trace (dialled s ds) @ [Sent (next_cid s) fr]\<rparr>)"
    using connect_fresh [OF assms(3-5)] assms(6)
    by (simp add: authenticate_def assms(1,2) thenS_def liftR_def sock_sendall_def new_conn_def)
  then show ?thesis
    by (simp add: tcp_connect_def connect_locked_def)
qed

text \<open>A client with a token and a server that answers it.\<close>

definition sample_auth_config :: tcp_config where
  "sample_auth_config = sample_config\<lparr>auth_token := Some (lit ''s3cret'')\<rparr>"

definition sample_server :: "ClientResponse \<Rightarrow> tcp_state" where
  "sample_server resp = init_state [Accepted (easy_peer [frame (response_envelope resp)])]"

lemma sample_auth_frame:
  "encode_auth (lit ''s3cret'') = Inr (frame (request_envelope (AuthReq (lit ''s3cret''))))"
  using encode_request_eq [of "AuthReq (lit ''s3cret'')"]
  by (simp add: encodable_def encodable_cp_def is_surrogate_def lit_def fits_frame_def request_envelope_def
      envelope_def str_part_def wire_const varint.simps utf8_bytes_def utf8_cp_def)

lemma sample_responses_valid:
  "valid_response (RSimple ''AuthOk'')" "int (length (response_envelope (RSimple ''AuthOk''))) \<le> 8388608"
  "valid_response (RError AUTH_FAILED (lit ''no''))" "int (length (response_envelope (RError AUTH_FAILED (lit ''no'')))) \<le> 8388608"
  by (simp_all add: valid_response_def encodable_def encodable_cp_def is_surrogate_def lit_def fits_frame_def
      response_envelope_def envelope_def str_part_def num_part_def wire_const varint.simps utf8_bytes_def utf8_cp_def
      simple_variant_def error_index_def ERROR_CODE_NAMES_def enum_DittoErrorCode_def)

lemma sample_server_delivers:
  "sock (sample_server resp) = None" "dials (sample_server resp) = [Accepted (easy_peer [frame (response_envelope resp)])]"
  "can_send (new_conn (sample_server resp) (easy_peer bs) sess)" "shut_ok (new_conn (sample_server resp) (easy_peer bs) sess)"
  "delivers (new_conn (sample_server resp) (easy_peer [frame b]) sess) (frame b @ []) []"
  "wrap_tls sample_auth_config q = Inr None"
  by (auto simp: sample_server_def init_state_def can_send_def shut_ok_def new_conn_def easy_peer_def delivers_def
      frame_def be32_def wrap_tls_def sample_auth_config_def sample_config_def init_client_def
      intro!: exI [of _ "[_]"])

lemma sample_auth_simps: "auth_token sample_auth_config = Some (lit ''s3cret'')"
  "max_frame_bytes sample_auth_config = 8388608"
  by (simp_all add: sample_auth_config_def)

lemma sample_accepted:
  "\<exists>s'. tcp_connect sample_auth_config (sample_server (RSimple ''AuthOk'')) = (Inr (), s')"
proof -
  obtain s2 c' where "tcp_connect sample_auth_config (sample_server (RSimple ''AuthOk'')) =
      auth_branch (RSimple ''AuthOk'') s2"
    by (rule auth_reply [OF sample_auth_simps(1) sample_auth_frame sample_server_delivers(1,2,6,3,5)])
       (use sample_responses_valid in \<open>auto simp: sample_auth_simps valid_response_def decode_server_response\<close>)
  then show ?thesis by (simp add: auth_branch_def returnS_def)
qed

theorem connect_authenticates_witness:
  "\<exists>fr s' p sess resp. tcp_connect sample_auth_config (sample_server (RSimple ''AuthOk'')) = (Inr (), s') \<and>
    dials (sample_server (RSimple ''AuthOk'')) = [Accepted p] \<and> encode_auth (lit ''s3cret'') = Inr fr \<and>
    exchange sample_auth_config fr ((dialled (sample_server (RSimple ''AuthOk'')) [])
      \<lparr>sock := Some (new_conn (sample_server (RSimple ''AuthOk'')) p sess)\<rparr>) = (Inr resp, s') \<and>
    resp_type resp = ''AuthOk'' \<and> trace s' = [Opened 0, Sent 0 fr]"
proof -
  obtain s' where s': "tcp_connect sample_auth_config (sample_server (RSimple ''AuthOk'')) = (Inr (), s')"
    using sample_accepted by blast
  from connect_authenticates [OF sample_auth_simps(1) sample_server_delivers(1) s'] s' show ?thesis
    by (auto simp: sample_server_def init_state_def)
qed

theorem auth_error_closes_witness:
  "\<exists>s'. tcp_connect sample_auth_config (sample_server (RError AUTH_FAILED (lit ''no''))) =
    (Inl (DittoError (Code AUTH_FAILED) (Text (lit ''no''))), s') \<and> sock s' = None"
proof -
  have "\<exists>s'. tcp_connect sample_auth_config (sample_server (RError AUTH_FAILED (lit ''no''))) =
      (Inl (DittoError (Code AUTH_FAILED) (Text (lit ''no''))), s') \<and> sock s' = None \<and>
      trace s' = trace (sample_server (RError AUTH_FAILED (lit ''no''))) @
        [Opened (next_cid (sample_server (RError AUTH_FAILED (lit ''no'')))),
         Sent (next_cid (sample_server (RError AUTH_FAILED (lit ''no'')))) (frame (request_envelope (AuthReq (lit ''s3cret'')))),
         Closed (next_cid (sample_server (RError AUTH_FAILED (lit ''no''))))]"
    by (rule auth_error_closes [OF sample_auth_simps(1) sample_auth_frame sample_server_delivers(1,2,6,3,5,4)])
       (use sample_responses_valid in \<open>auto simp: sample_auth_simps valid_response_def decode_server_response\<close>)
  then show ?thesis by blast
qed

theorem auth_failure_keeps_socket_witness:
  "\<exists>s'. tcp_connect sample_auth_config (init_state [Accepted ((easy_peer [])\<lparr>peer_send := [Failed (Some 32)]\<rparr>)]) =
    (Inl (OSError (Some 32)), s') \<and> sock s' \<noteq> None \<and> tcp_connect sample_auth_config s' = (Inr (), s')"
  by (rule auth_failure_keeps_socket [OF sample_auth_simps(1) sample_auth_frame _ _ sample_server_delivers(6), where evs = "[]" and p = "(easy_peer [])\<lparr>peer_send := [Failed (Some 32)]\<rparr>"])
     (simp_all add: init_state_def)

section \<open>The client as a context manager\<close>

text \<open>
  \<open>with DittoTcpClient(...) as client: body\<close>. When \<open>__enter__\<close> raises, neither the body nor
  \<open>__exit__\<close> runs; \<open>__exit__\<close> returns \<open>None\<close>, so an exception of the body goes on, unless closing
  raises one of its own.
\<close>

definition tcp_enter :: "tcp_config \<Rightarrow> unit op" where
  "tcp_enter cfg = tcp_connect cfg"

definition tcp_exit :: "unit op" where
  "tcp_exit = tcp_close"

definition tcp_with :: "tcp_config \<Rightarrow> 'a op \<Rightarrow> 'a op" where
  "tcp_with cfg body =
    thenS (tcp_enter cfg) (\<lambda>_ s. case body s of (r, s1) \<Rightarrow> thenS tcp_exit (\<lambda>_. liftR r) s1)"

lemma with_refused: "tcp_connect cfg s = (Inl e, s') \<Longrightarrow> tcp_with cfg body s = (Inl e, s')"
  by (simp add: tcp_with_def tcp_enter_def thenS_Inl)

text \<open>Once entered, the block leaves no socket behind, whatever the body did or raised.\<close>

lemma with_closes:
  assumes "tcp_connect cfg s = (Inr (), s1)" and "body s1 = (r, s2)" and "\<And>c. sock s2 = Some c \<Longrightarrow> shut_ok c"
  shows "tcp_with cfg body s = (r, case sock s2 of None \<Rightarrow> s2 | Some c \<Rightarrow> drop_sock c s2)"
  using assms close_locked_ok [of s2]
  by (cases "sock s2") (simp_all add: tcp_with_def tcp_enter_def tcp_exit_def tcp_close_def thenS_def liftR_def close_locked_def)

section \<open>A time-out in the middle of a frame\<close>

text \<open>
  \<open>_recvn\<close> drops what it has read when \<open>recv\<close> raises, and \<open>wait_watch_event\<close>, other than
  \<open>_send\<close>, does not close the socket then. A time-out between two pieces of a length prefix
  leaves the client connected, with the rest of the frame as the beginning of its stream.
\<close>

lemma wait_timeout_drops_bytes:
  assumes "sock s = Some c" and "inbound c = RecvData bs # RecvFail e # evs" and "bs \<noteq> []" "length bs < 4"
  shows "tcp_wait_watch_event cfg s = (Inl (OSError e), s\<lparr>sock := Some (c\<lparr>inbound := evs\<rparr>)\<rparr>)"
proof -
  have "recvn_loop 4 [] c = (Inl (OSError e), c\<lparr>inbound := evs\<rparr>)"
    using assms(2-4) by (subst recvn_loop.simps, subst recvn_loop.simps) (simp add: sock_recv_def)
  with assms(1) show ?thesis
    by (simp add: tcp_wait_watch_event_def recv_response_def recvn_def thenS_def)
qed

end
