(* ===== verification/Py_Thread.thy ===== *)
theory Py_Thread
  imports Ditto_Types "HOL-Library.Multiset"
begin

text \<open>
  Threads that call methods of one object whose state a \<open>threading.Lock\<close> guards. A method
  is a program whose steps are the accesses to the shared state and the two ends of
  \<open>with self._lock\<close>; between two steps any other thread may run. The locale
  \<open>locked_methods\<close> is the discipline that makes this safe (all accesses between the two
  ends of one \<open>with\<close>) and proves once, for every schedule: one thread at a time in its
  locked section, an order of the calls that explains all results, no deadlock and an end.
\<close>

section \<open>Programs\<close>

datatype ('s, 'a) prog =
    Fin "'a result"
  | Act "'s \<Rightarrow> ('s, 'a) prog \<times> 's"
  | Acquire "('s, 'a) prog"
  | Release "('s, 'a) prog"

lemma prog_steps [case_names Fin Act Acquire Release]:
  assumes "\<And>r. P (Fin r)" and "\<And>f. (\<And>s. P (fst (f s))) \<Longrightarrow> P (Act f)"
    and "\<And>p. P p \<Longrightarrow> P (Acquire p)" and "\<And>p. P p \<Longrightarrow> P (Release p)"
  shows "P p"
proof (induction p)
  case (Act f)
  show ?case
  proof (rule assms(2))
    show "P (fst (f s))" for s
      by (rule Act [of "f s"]) (simp_all add: prod_set_defs)
  qed
qed (use assms in auto)

text \<open>An access to the shared state that no other thread can interrupt.\<close>

definition atomic :: "('s, 'a) meth \<Rightarrow> ('s, 'a) prog" where
  "atomic m = Act (\<lambda>s. case m s of (r, s') \<Rightarrow> (Fin r, s'))"

primrec bindP :: "('s, 'a) prog \<Rightarrow> ('a \<Rightarrow> ('s, 'b) prog) \<Rightarrow> ('s, 'b) prog" where
  "bindP (Fin r) k = (case r of Inl e \<Rightarrow> Fin (Inl e) | Inr x \<Rightarrow> k x)"
| "bindP (Act f) k = Act (\<lambda>s. map_prod (\<lambda>p. bindP p k) id (f s))"
| "bindP (Acquire p) k = Acquire (bindP p k)"
| "bindP (Release p) k = Release (bindP p k)"

text \<open>\<open>try: p except: h\<close>\<close>

primrec tryP :: "('s, 'a) prog \<Rightarrow> (py_exc \<Rightarrow> ('s, 'a) prog) \<Rightarrow> ('s, 'a) prog" where
  "tryP (Fin r) h = (case r of Inl e \<Rightarrow> h e | Inr x \<Rightarrow> Fin (Inr x))"
| "tryP (Act f) h = Act (\<lambda>s. map_prod (\<lambda>p. tryP p h) id (f s))"
| "tryP (Acquire p) h = Acquire (tryP p h)"
| "tryP (Release p) h = Release (tryP p h)"

text \<open>\<open>with self._lock: p\<close>, which gives the lock back on return and on an exception.\<close>

primrec releasing :: "('s, 'a) prog \<Rightarrow> ('s, 'a) prog" where
  "releasing (Fin r) = Release (Fin r)"
| "releasing (Act f) = Act (\<lambda>s. map_prod releasing id (f s))"
| "releasing (Acquire p) = Acquire (releasing p)"
| "releasing (Release p) = Release (releasing p)"

definition with_lock :: "('s, 'a) prog \<Rightarrow> ('s, 'a) prog" where
  "with_lock p = Acquire (releasing p)"

text \<open>A program on its own, nobody else running.\<close>

primrec run :: "('s, 'a) prog \<Rightarrow> ('s, 'a) meth" where
  "run (Fin r) = (\<lambda>s. (r, s))"
| "run (Act f) = (\<lambda>s. case map_prod run id (f s) of (m, s') \<Rightarrow> m s')"
| "run (Acquire p) = run p"
| "run (Release p) = run p"

lemma run_Act: "run (Act f) s = run (fst (f s)) (snd (f s))"
  by (simp add: split_beta)

lemma run_bindP: "run (bindP p k) = thenS (run p) (\<lambda>x. run (k x))"
proof (rule ext)
  show "run (bindP p k) s = thenS (run p) (\<lambda>x. run (k x)) s" for s
    by (induction p arbitrary: s rule: prog_steps)
       (auto simp: thenS_def split_beta split: sum.split)
qed

lemma run_tryP: "run (tryP p h) s = (case run p s of (Inl e, s') \<Rightarrow> run (h e) s' | (Inr x, s') \<Rightarrow> (Inr x, s'))"
  by (induction p arbitrary: s rule: prog_steps) (auto simp: split_beta split: sum.split)

lemma run_releasing: "run (releasing p) s = run p s"
  by (induction p arbitrary: s rule: prog_steps) (simp_all add: split_beta)

lemma run_with_lock: "run (with_lock p) = run p"
  by (rule ext) (simp add: with_lock_def run_releasing)

lemma run_atomic: "run (atomic m) = m"
  by (rule ext) (simp add: atomic_def split_beta)

lemmas run_rules = run_bindP run_tryP run_with_lock run_atomic run.simps(1)

section \<open>Shapes\<close>

text \<open>No lock operation; the rest of a locked section; a whole method.\<close>

inductive bare :: "('s, 'a) prog \<Rightarrow> bool" where
  Fin: "bare (Fin r)"
| Act: "(\<And>s. bare (fst (f s))) \<Longrightarrow> bare (Act f)"

inductive inside :: "('s, 'a) prog \<Rightarrow> bool" where
  Release: "inside (Release (Fin r))"
| Act: "(\<And>s. inside (fst (f s))) \<Longrightarrow> inside (Act f)"

inductive_simps inside_Act [simp]: "inside (Act f)"

inductive_simps inside_Release [simp]: "inside (Release p)"

inductive_simps inside_Fin [simp]: "inside (Fin r)"

inductive_simps inside_Acquire [simp]: "inside (Acquire p)"

definition well_locked :: "('s, 'a) prog \<Rightarrow> bool" where
  "well_locked p \<longleftrightarrow> (case p of Fin r \<Rightarrow> True | Acquire q \<Rightarrow> inside q | _ \<Rightarrow> False)"

lemma bare_atomic [intro]: "bare (atomic m)"
  unfolding atomic_def by (rule bare.Act) (simp add: split_beta bare.Fin)

lemma bare_bindP [intro]: "bare p \<Longrightarrow> (\<And>x. bare (k x)) \<Longrightarrow> bare (bindP p k)"
  by (induction p rule: bare.induct) (auto intro!: bare.intros split: sum.split)

lemma bare_tryP [intro]: "bare p \<Longrightarrow> (\<And>e. bare (h e)) \<Longrightarrow> bare (tryP p h)"
  by (induction p rule: bare.induct) (auto intro!: bare.intros split: sum.split)

lemmas bare_rules = bare.Fin bare_atomic bare_bindP bare_tryP

lemma inside_releasing: "bare p \<Longrightarrow> inside (bindP (releasing p) (\<lambda>x. Fin (post x)))"
  by (induction p rule: bare.induct) (auto split: sum.split)

lemma well_locked_method: "bare p \<Longrightarrow> well_locked (bindP (with_lock p) (\<lambda>x. Fin (post x)))"
  by (simp add: well_locked_def with_lock_def inside_releasing)


section \<open>Threads\<close>

text \<open>
  A thread has a list of methods to call; the first is the one that runs. The lock is held
  or free: \<open>threading.Lock\<close> does not know its owner, and a second \<open>acquire\<close> waits even in the
  thread that holds it.
\<close>

record ('s, 'j, 'a) thread =
  todo :: "'j list"
  current :: "('s, 'a) prog option"
  outcomes :: "'a result list"

record ('s, 'j, 'a) system =
  shared :: 's
  locked :: bool
  threads :: "('s, 'j, 'a) thread list"

definition set_thread :: "nat \<Rightarrow> ('s, 'j, 'a) thread \<Rightarrow> ('s, 'j, 'a) system \<Rightarrow> ('s, 'j, 'a) system" where
  "set_thread i t S = S\<lparr>threads := (threads S)[i := t]\<rparr>"

text \<open>One step of thread \<open>i\<close>; \<open>None\<close> if it waits for the lock or has nothing left to do.\<close>

definition thread_step :: "('j \<Rightarrow> ('s, 'a) prog) \<Rightarrow> nat \<Rightarrow> ('s, 'j, 'a) system \<Rightarrow> ('s, 'j, 'a) system option" where
  "thread_step table i S =
    (if i < length (threads S) then
       let t = threads S ! i in
       (case current t of
          None \<Rightarrow> (case todo t of [] \<Rightarrow> None | j # _ \<Rightarrow> Some (set_thread i (t\<lparr>current := Some (table j)\<rparr>) S))
        | Some (Fin r) \<Rightarrow>
            Some (set_thread i (t\<lparr>todo := tl (todo t), current := None, outcomes := outcomes t @ [r]\<rparr>) S)
        | Some (Act f) \<Rightarrow>
            Some (set_thread i (t\<lparr>current := Some (fst (f (shared S)))\<rparr>) (S\<lparr>shared := snd (f (shared S))\<rparr>))
        | Some (Acquire p) \<Rightarrow>
            if locked S then None else Some (set_thread i (t\<lparr>current := Some p\<rparr>) (S\<lparr>locked := True\<rparr>))
        | Some (Release p) \<Rightarrow> Some (set_thread i (t\<lparr>current := Some p\<rparr>) (S\<lparr>locked := False\<rparr>)))
     else None)"

text \<open>The scheduler names the threads one after the other; one that cannot move is passed over.\<close>

primrec interleave :: "('j \<Rightarrow> ('s, 'a) prog) \<Rightarrow> nat list \<Rightarrow> ('s, 'j, 'a) system \<Rightarrow> ('s, 'j, 'a) system" where
  "interleave table [] S = S"
| "interleave table (i # is) S =
    interleave table is (case thread_step table i S of None \<Rightarrow> S | Some S' \<Rightarrow> S')"

lemma interleave_append: "interleave table (is @ js) S = interleave table js (interleave table is S)"
  by (induction "is" arbitrary: S) auto

definition launch :: "'s \<Rightarrow> 'j list list \<Rightarrow> ('s, 'j, 'a) system" where
  "launch s jobs = \<lparr>shared = s, locked = False,
     threads = map (\<lambda>js. \<lparr>todo = js, current = None, outcomes = []\<rparr>) jobs\<rparr>"

definition finished :: "('s, 'j, 'a) system \<Rightarrow> bool" where
  "finished S \<longleftrightarrow> list_all (\<lambda>t. todo t = [] \<and> current t = None) (threads S)"

text \<open>The threads in their locked section: those whose next step reads or writes, or gives the lock back.\<close>

definition in_section :: "('s, 'j, 'a) thread \<Rightarrow> bool" where
  "in_section t \<longleftrightarrow> (case current t of Some (Act _) \<Rightarrow> True | Some (Release _) \<Rightarrow> True | _ \<Rightarrow> False)"


lemma finished_outside: "finished S \<Longrightarrow> filter in_section (threads S) = []"
  by (auto simp: finished_def in_section_def list_all_iff filter_empty_conv)


section \<open>Every run ends\<close>

definition substep :: "(('s, 'a) prog \<times> ('s, 'a) prog) set" where
  "substep = {(q, p). (\<exists>f s. p = Act f \<and> q = fst (f s)) \<or> p = Acquire q \<or> p = Release q}"

lemma wf_substep: "wf (substep :: (('s, 'a) prog \<times> ('s, 'a) prog) set)"
proof (rule wfUNIVI)
  fix P :: "('s, 'a) prog \<Rightarrow> bool" and p
  assume "\<forall>p. (\<forall>q. (q, p) \<in> substep \<longrightarrow> P q) \<longrightarrow> P p"
  then have step: "(\<And>q. (q, p) \<in> substep \<Longrightarrow> P q) \<Longrightarrow> P p" for p by blast
  show "P p"
    by (induction p rule: prog_steps) (rule step; auto simp: substep_def)+
qed

text \<open>What a thread has left: its calls, then the steps of the one that runs.\<close>

definition calls_left :: "('s, 'j, 'a) thread \<Rightarrow> nat" where
  "calls_left t = (if todo t = [] then (if current t = None then 0 else 1)
     else 2 * length (todo t) + (if current t = None then 1 else 0))"

definition program_left :: "('s, 'j, 'a) thread \<Rightarrow> ('s, 'a) prog" where
  "program_left t = (case current t of None \<Rightarrow> Fin (Inl AssertionError) | Some p \<Rightarrow> p)"

definition thread_order :: "(('s, 'j, 'a) thread \<times> ('s, 'j, 'a) thread) set" where
  "thread_order = inv_image (less_than <*lex*> substep) (\<lambda>t. (calls_left t, program_left t))"

lemma thread_step_order:
  assumes "thread_step table i S = Some S'"
  shows "i < length (threads S) \<and> (\<exists>t'. threads S' = (threads S)[i := t'] \<and> (t', threads S ! i) \<in> thread_order)"
proof (cases "current (threads S ! i)")
  case None
  with assms show ?thesis
    by (auto simp: thread_step_def set_thread_def thread_order_def calls_left_def Let_def split: if_splits list.splits)
next
  case (Some p)
  with assms show ?thesis
    by (cases p) (force simp: thread_step_def set_thread_def thread_order_def calls_left_def program_left_def substep_def
      Let_def neq_Nil_conv split: if_splits)+
qed

lemma mset_update_less:
  assumes "i < length xs" and "(y, xs ! i) \<in> r"
  shows "(mset (xs[i := y]), mset xs) \<in> mult r"
proof -
  have "mset xs = (mset xs - {#xs ! i#}) + {#xs ! i#}"
    using assms(1) by simp
  moreover have "mset (xs[i := y]) = (mset xs - {#xs ! i#}) + {#y#}"
    using assms(1) by (simp add: mset_update)
  moreover have "((mset xs - {#xs ! i#}) + {#y#}, (mset xs - {#xs ! i#}) + {#xs ! i#}) \<in> mult r"
    using assms(2) by (intro one_step_implies_mult) auto
  ultimately show ?thesis by simp
qed

lemma runs_end: "wf {(S', S). \<exists>i. thread_step table i S = Some S'}"
proof (rule wf_subset)
  show "wf (inv_image (mult thread_order) (\<lambda>S. mset (threads S)))"
    by (intro wf_inv_image wf_mult) (simp add: thread_order_def wf_substep wf_lex_prod wf_inv_image)
  show "{(S', S). \<exists>i. thread_step table i S = Some S'} \<subseteq> inv_image (mult thread_order) (\<lambda>S. mset (threads S))"
    by (auto dest!: thread_step_order intro!: mset_update_less)
qed

section \<open>Explaining a run by an order of its calls\<close>

text \<open>One call after the other, as a single thread would make them.\<close>

primrec exec :: "('j \<Rightarrow> ('s, 'a) meth) \<Rightarrow> 'j list \<Rightarrow> 's \<Rightarrow> 'a result list \<times> 's" where
  "exec spec [] s = ([], s)"
| "exec spec (j # js) s =
    (case spec j s of (r, s') \<Rightarrow> (case exec spec js s' of (rs, s'') \<Rightarrow> (r # rs, s'')))"

lemma exec_snoc: "exec spec (js @ [j]) s =
  (case exec spec js s of (rs, s') \<Rightarrow> (case spec j s' of (r, s'') \<Rightarrow> (rs @ [r], s'')))"
  by (induction js arbitrary: s) (auto split: prod.split)

text \<open>A history is a list of calls, each with its thread and its result; one thread's part of it.\<close>

type_synonym ('j, 'a) history = "(nat \<times> 'j \<times> 'a result) list"

definition own :: "nat \<Rightarrow> (nat \<times> 'b) list \<Rightarrow> 'b list" where
  "own i h = map snd (filter (\<lambda>e. fst e = i) h)"

lemma own_Nil [simp]: "own i [] = []"
  by (simp add: own_def)

lemma own_append [simp]: "own i (h @ h') = own i h @ own i h'"
  by (simp add: own_def)

lemma own_single [simp]: "own i [(k, e)] = (if k = i then [e] else [])"
  by (simp add: own_def)

lemma own_map [simp]: "own i (map (\<lambda>e. (fst e, f (snd e))) h) = map f (own i h)"
  by (induction h) (auto simp: own_def)

text \<open>
  The history explains what thread \<open>i\<close>, given the calls \<open>js\<close>, has seen: its calls stand there in
  the order it makes them, every call that has returned stands there with the result it returned,
  and no call that has not begun does.
\<close>

definition explains_thread :: "'j list \<Rightarrow> ('j \<times> 'a result) list \<Rightarrow> ('s, 'j, 'a) thread \<Rightarrow> bool" where
  "explains_thread js es t \<longleftrightarrow>
    map fst es = take (length es) js
    \<and> take (length (outcomes t)) (map snd es) = outcomes t
    \<and> todo t = drop (length (outcomes t)) js
    \<and> length es \<le> length (outcomes t) + (if current t = None then 0 else 1)"

text \<open>
  The history explains the system: all its calls are those of the threads, and made one after the
  other in its order by a single thread they give its results and, when the lock is free, the
  state of the object.
\<close>

definition explains :: "('j \<Rightarrow> ('s, 'a) meth) \<Rightarrow> 's \<Rightarrow> 'j list list \<Rightarrow> ('s, 'j, 'a) system \<Rightarrow> ('j, 'a) history \<Rightarrow> bool" where
  "explains spec s0 jobs S h \<longleftrightarrow>
    (\<exists>s. exec spec (map (fst \<circ> snd) h) s0 = (map (snd \<circ> snd) h, s) \<and> (\<not> locked S \<longrightarrow> shared S = s))
    \<and> list_all (\<lambda>i. explains_thread (jobs ! i) (own i h) (threads S ! i)) [0..<length jobs]
    \<and> list_all (\<lambda>e. fst e < length jobs) h"

text \<open>
  The \<open>p\<close>-th call of a history is the call number \<open>length (own i (take p h))\<close> of its thread \<open>i\<close>; whether it
  has begun and whether it has returned in a state.
\<close>

definition call_number :: "(nat \<times> 'b) list \<Rightarrow> nat \<Rightarrow> nat" where
  "call_number h p = length (own (fst (h ! p)) (take p h))"

definition has_returned :: "('s, 'j, 'a) system \<Rightarrow> (nat \<times> 'b) list \<Rightarrow> nat \<Rightarrow> bool" where
  "has_returned S h p \<longleftrightarrow> call_number h p < length (outcomes (threads S ! fst (h ! p)))"

definition has_begun :: "('s, 'j, 'a) system \<Rightarrow> (nat \<times> 'b) list \<Rightarrow> nat \<Rightarrow> bool" where
  "has_begun S h p \<longleftrightarrow>
    (let t = threads S ! fst (h ! p) in call_number h p < length (outcomes t) + (if current t = None then 0 else 1))"

text \<open>
  One history for a whole run keeps the order in time: of two of its calls, if at any moment of the run
  the one has returned and the other has not begun, the one stands before the other.
\<close>

definition in_time_order ::
  "('j \<Rightarrow> ('s, 'a) prog) \<Rightarrow> nat list \<Rightarrow> ('s, 'j, 'a) system \<Rightarrow> ('j, 'a) history \<Rightarrow> bool" where
  "in_time_order table is S0 h \<longleftrightarrow>
    (\<forall>k p q. p < length h \<and> q < length h
      \<and> has_returned (interleave table (take k is) S0) h p \<and> \<not> has_begun (interleave table (take k is) S0) h q \<longrightarrow> p < q)"

lemma own_take_mono: "m \<le> n \<Longrightarrow> length (own i (take m h)) \<le> length (own i (take n h))"
proof -
  assume "m \<le> n"
  then have "take n h = take m h @ drop m (take n h)"
    by (metis append_take_drop_id min_absorb1 take_take)
  then show ?thesis by (metis own_append length_append le_add1)
qed

lemma own_take_Suc: "p < length h \<Longrightarrow> length (own (fst (h ! p)) (take (Suc p) h)) = Suc (call_number h p)"
  by (cases "h ! p") (simp add: call_number_def take_Suc_conv_app_nth)

text \<open>If prefixes of one history explain all moments of a run, it keeps the order in time.\<close>

lemma prefixes_in_time_order:
  assumes "\<forall>k. \<exists>m. explains spec s jobs (interleave table (take k is) S0) (take m h)"
    and "list_all (\<lambda>e. fst e < length jobs) h"
  shows "in_time_order table is S0 h"
  unfolding in_time_order_def
proof (intro allI impI, elim conjE)
  fix k p q
  let ?S = "interleave table (take k is) S0"
  assume p: "p < length h" "has_returned ?S h p" and q: "q < length h" "\<not> has_begun ?S h q"
  obtain m where m: "explains spec s jobs ?S (take m h)" using assms(1) by blast
  have es: "explains_thread (jobs ! fst (h ! n)) (own (fst (h ! n)) (take m h)) (threads ?S ! fst (h ! n))" if "n < length h" for n
    using m assms(2) that by (auto simp: explains_def list_all_iff)
  have "length (outcomes (threads ?S ! fst (h ! p))) \<le> length (own (fst (h ! p)) (take m h))"
    using es [OF p(1)] unfolding explains_thread_def by (metis length_map length_take min.cobounded1)
  then have "p < m"
    using p(2) own_take_mono [of m p "fst (h ! p)" h] by (force simp: has_returned_def call_number_def not_less)
  moreover have "length (own (fst (h ! q)) (take m h)) \<le> call_number h q"
    using es [OF q(1)] q(2) by (simp add: explains_thread_def has_begun_def Let_def)
  then have "m \<le> q"
    using own_take_Suc [OF q(1)] own_take_mono [of "Suc q" m "fst (h ! q)" h] by (force simp: not_less_eq_eq [symmetric])
  ultimately show "p < q" by simp
qed

lemma length_own: "list_all (\<lambda>e. fst e < n) h \<Longrightarrow> length h = sum_list (map (\<lambda>i. length (own i h)) [0..<n])"
proof (induction h)
  case (Cons e h)
  have "sum_list (map (\<lambda>i. length (own i (e # h))) [0..<n]) =
      sum_list (map (\<lambda>i. length (own i h) + (if fst e = i then 1 else 0)) [0..<n])"
    by (rule arg_cong [of _ _ sum_list], rule map_cong) (auto simp: own_def)
  also have "\<dots> = sum_list (map (\<lambda>i. length (own i h)) [0..<n]) + (\<Sum>i = 0..<n. if fst e = i then 1 else 0)"
    by (simp add: sum_list_addf interv_sum_list_conv_sum_set_nat)
  finally show ?case
    using Cons by simp
qed (simp add: own_def)

lemma explains_finished:
  assumes "explains spec s0 jobs S h" and "finished S" and "length (threads S) = length jobs" and "i < length jobs"
  shows "map fst (own i h) = jobs ! i" and "map snd (own i h) = outcomes (threads S ! i)"
proof -
  have e: "explains_thread (jobs ! i) (own i h) (threads S ! i)"
    using assms(1,4) by (simp add: explains_def list_all_iff)
  have t: "todo (threads S ! i) = []" "current (threads S ! i) = None"
    using assms(2-4) by (auto simp: finished_def list_all_iff)
  show es: "map snd (own i h) = outcomes (threads S ! i)"
    using e t(2) by (auto simp: explains_thread_def)
  show "map fst (own i h) = jobs ! i"
    using e t(1) es length_map [of snd "own i h"] by (simp add: explains_thread_def)
qed

lemma explains_all:
  assumes "explains spec s0 jobs S h" and "finished S" and "length (threads S) = length jobs"
  shows "length h = length (concat jobs)"
proof -
  have "length (own i h) = length (jobs ! i)" if "i < length jobs" for i
    using explains_finished(1) [OF assms that] by (metis length_map)
  then have "map (\<lambda>i. length (own i h)) [0..<length jobs] = map length jobs"
    by (intro nth_equalityI) auto
  with length_own [of "length jobs" h] assms(1) show ?thesis
    by (simp add: explains_def length_concat)
qed


section \<open>The lock discipline\<close>

text \<open>
  The results of a thread as far as they are settled: those returned, and that of a call which
  has given the lock back, or which never takes it. These are the calls a history records.
\<close>

definition settled :: "('s, 'j, 'a) thread \<Rightarrow> 'a result list" where
  "settled t = outcomes t @ (case current t of Some (Fin r) \<Rightarrow> [r] | _ \<Rightarrow> [])"

definition thread_ok :: "'j list \<Rightarrow> ('j \<times> 'a result) list \<Rightarrow> ('s, 'j, 'a) thread \<Rightarrow> bool" where
  "thread_ok js es t \<longleftrightarrow>
    todo t = drop (length (outcomes t)) js \<and> es = zip js (settled t) \<and> length (settled t) \<le> length js"

lemma thread_ok_explains:
  assumes "thread_ok js es t"
  shows "explains_thread js es t"
proof -
  have "length (outcomes t) \<le> length (settled t)"
    "length (settled t) \<le> length (outcomes t) + (if current t = None then 0 else 1)"
    "take (length (outcomes t)) (settled t) = outcomes t"
    by (auto simp: settled_def split: option.split prog.split)
  with assms show ?thesis
    by (auto simp: thread_ok_def explains_thread_def map_fst_zip_take map_snd_zip_take min_def)
qed

lemma zip_snoc: "length rs < length js \<Longrightarrow> zip js (rs @ [r]) = zip js rs @ [(js ! length rs, r)]"
proof (induction js arbitrary: rs)
  case (Cons j js)
  then show ?case by (cases rs) auto
qed simp

text \<open>A step within a call settles nothing; the step that ends it settles its result.\<close>

lemma thread_ok_unsettled:
  "thread_ok js es t \<Longrightarrow> settled t = outcomes t \<Longrightarrow> \<forall>r. q \<noteq> Some (Fin r) \<Longrightarrow> thread_ok js es (t\<lparr>current := q\<rparr>)"
  by (auto simp: thread_ok_def settled_def split: option.splits prog.splits)

lemma thread_ok_inside:
  "thread_ok js es t \<Longrightarrow> settled t = outcomes t \<Longrightarrow> inside p \<Longrightarrow> thread_ok js es (t\<lparr>current := Some p\<rparr>)"
  by (rule thread_ok_unsettled) auto

lemma thread_ok_settles:
  assumes "thread_ok js es t" and "settled t = outcomes t" and "todo t \<noteq> []"
  shows "thread_ok js (es @ [(hd (todo t), r)]) (t\<lparr>current := Some (Fin r)\<rparr>)"
proof -
  have "length (outcomes t) < length js" "hd (todo t) = js ! length (outcomes t)"
    using assms by (auto simp: thread_ok_def hd_drop_conv_nth)
  with assms show ?thesis
    by (simp add: thread_ok_def settled_def zip_snoc)
qed

lemma thread_ok_returns:
  "thread_ok js es t \<Longrightarrow> current t = Some (Fin r) \<Longrightarrow>
    thread_ok js es (t\<lparr>todo := tl (todo t), current := None, outcomes := outcomes t @ [r]\<rparr>)"
  by (simp add: thread_ok_def settled_def tl_drop drop_Suc)

locale locked_methods =
  fixes table :: "'j \<Rightarrow> ('s, 'a) prog"
    and spec :: "'j \<Rightarrow> ('s, 'a) meth"
  assumes discipline: "well_locked (table j)"
    and alone: "run (table j) = spec j"
begin

text \<open>A thread outside its locked section, and the one inside.\<close>

definition waits :: "('s, 'j, 'a) thread \<Rightarrow> bool" where
  "waits t \<longleftrightarrow>
    (case current t of
       None \<Rightarrow> True
     | Some p \<Rightarrow> todo t \<noteq> [] \<and> well_locked p \<and> (\<forall>q. p = Acquire q \<longrightarrow> run q = spec (hd (todo t))))"

definition works :: "'s \<Rightarrow> 's \<Rightarrow> ('s, 'j, 'a) thread \<Rightarrow> bool" where
  "works s0 s t \<longleftrightarrow> (\<exists>p. current t = Some p \<and> todo t \<noteq> [] \<and> inside p \<and> run p s = spec (hd (todo t)) s0)"

text \<open>Who may touch the object, whose state was \<open>s\<close> when the lock was free last.\<close>

definition lock_ok :: "'s \<Rightarrow> ('s, 'j, 'a) system \<Rightarrow> bool" where
  "lock_ok s S \<longleftrightarrow>
    (if locked S
     then \<exists>k < length (threads S). works s (shared S) (threads S ! k)
            \<and> (\<forall>i < length (threads S). i \<noteq> k \<longrightarrow> waits (threads S ! i))
     else shared S = s \<and> (\<forall>i < length (threads S). waits (threads S ! i)))"

definition sim :: "'s \<Rightarrow> 'j list list \<Rightarrow> ('s, 'j, 'a) system \<Rightarrow> ('j, 'a) history \<Rightarrow> bool" where
  "sim s0 jobs S h \<longleftrightarrow>
    length (threads S) = length jobs
    \<and> (\<forall>i < length jobs. thread_ok (jobs ! i) (own i h) (threads S ! i))
    \<and> list_all (\<lambda>e. fst e < length jobs) h
    \<and> (\<exists>s. exec spec (map (fst \<circ> snd) h) s0 = (map (snd \<circ> snd) h, s) \<and> lock_ok s S)"

lemma simE:
  assumes "sim s0 jobs S h" and "i < length jobs"
  obtains s where "exec spec (map (fst \<circ> snd) h) s0 = (map (snd \<circ> snd) h, s)" "lock_ok s S"
    "i < length (threads S)" "thread_ok (jobs ! i) (own i h) (threads S ! i)"
  using assms by (auto simp: sim_def)

lemma works_not_waits: "works s s' t \<Longrightarrow> \<not> waits t"
  by (auto simp: works_def waits_def well_locked_def split: prog.splits)

lemma waits_update:
  assumes "lock_ok s S" and "i < length (threads S)" and "waits (threads S ! i)" and "waits t'"
  shows "lock_ok s (set_thread i t' S)"
proof (cases "locked S")
  case True
  with assms(1) obtain k where k: "k < length (threads S)" "works s (shared S) (threads S ! k)"
    "\<forall>i < length (threads S). i \<noteq> k \<longrightarrow> waits (threads S ! i)"
    by (auto simp: lock_ok_def)
  with assms(3) have "i \<noteq> k" by (auto dest: works_not_waits)
  with assms k True show ?thesis
    by (auto simp: lock_ok_def set_thread_def nth_list_update intro!: exI [of _ k])
qed (use assms in \<open>auto simp: lock_ok_def set_thread_def nth_list_update\<close>)

lemma works_alone:
  "lock_ok s S \<Longrightarrow> i < length (threads S) \<Longrightarrow> \<not> waits (threads S ! i) \<Longrightarrow>
    locked S \<and> works s (shared S) (threads S ! i) \<and> (\<forall>k < length (threads S). k \<noteq> i \<longrightarrow> waits (threads S ! k))"
  by (auto simp: lock_ok_def split: if_splits)

lemma sim_extend:
  assumes "sim s0 jobs S h" and "threads S' = (threads S)[i := t']" and "i < length jobs"
    and "thread_ok (jobs ! i) (own i (h @ e)) t'" and "fst ` set e \<subseteq> {i}"
    and "exec spec (map (fst \<circ> snd) (h @ e)) s0 = (map (snd \<circ> snd) (h @ e), s)" and "lock_ok s S'"
  shows "sim s0 jobs S' (h @ e)"
proof -
  have "own k e = []" if "k \<noteq> i" for k
    using assms(5) that by (auto simp: own_def filter_empty_conv)
  then show ?thesis
    using assms by (auto simp: sim_def nth_list_update list_all_iff)
qed

text \<open>The steps: a call begins, returns, works under the lock, takes it and gives it back.\<close>

lemma sim_begin:
  assumes S: "sim s0 jobs S h" and i: "i < length jobs" and t: "current (threads S ! i) = None" "todo (threads S ! i) = j # js"
  shows "\<exists>e. sim s0 jobs (set_thread i ((threads S ! i)\<lparr>current := Some (table j)\<rparr>) S) (h @ e)"
proof -
  define t' where "t' = (threads S ! i)\<lparr>current := Some (table j)\<rparr>"
  obtain s where s: "exec spec (map (fst \<circ> snd) h) s0 = (map (snd \<circ> snd) h, s)" "lock_ok s S"
    and n: "i < length (threads S)" and ok: "thread_ok (jobs ! i) (own i h) (threads S ! i)"
    by (rule simE [OF S i])
  have "waits (threads S ! i)" "waits t'"
    using t discipline [of j] alone [of j] by (auto simp: waits_def t'_def well_locked_def)
  then have lock: "lock_ok s (set_thread i t' S)"
    using waits_update [OF s(2) n] by blast
  consider r where "table j = Fin r" | q where "table j = Acquire q"
    using discipline [of j] by (auto simp: well_locked_def split: prog.splits)
  then show ?thesis
  proof cases
    case 1
    have "sim s0 jobs (set_thread i t' S) (h @ [(i, j, r)])"
    proof (rule sim_extend [OF S _ i])
      show "thread_ok (jobs ! i) (own i (h @ [(i, j, r)])) t'"
        using thread_ok_settles [OF ok, of r] t 1 by (simp add: settled_def t'_def)
      show "exec spec (map (fst \<circ> snd) (h @ [(i, j, r)])) s0 = (map (snd \<circ> snd) (h @ [(i, j, r)]), s)"
        using s(1) alone [of j, symmetric] 1 by (simp add: exec_snoc)
    qed (use lock in \<open>auto simp: set_thread_def\<close>)
    then show ?thesis unfolding t'_def by blast
  next
    case 2
    have "sim s0 jobs (set_thread i t' S) (h @ [])"
    proof (rule sim_extend [OF S _ i])
      show "thread_ok (jobs ! i) (own i (h @ [])) t'"
        using thread_ok_unsettled [OF ok] t 2 by (simp add: settled_def t'_def)
    qed (use lock s in \<open>auto simp: set_thread_def\<close>)
    then show ?thesis unfolding t'_def by blast
  qed
qed

lemma sim_return:
  assumes S: "sim s0 jobs S h" and i: "i < length jobs" and t: "current (threads S ! i) = Some (Fin r)"
  shows "sim s0 jobs (set_thread i ((threads S ! i)
    \<lparr>todo := tl (todo (threads S ! i)), current := None, outcomes := outcomes (threads S ! i) @ [r]\<rparr>) S) h"
proof -
  obtain s where s: "exec spec (map (fst \<circ> snd) h) s0 = (map (snd \<circ> snd) h, s)" "lock_ok s S"
    and n: "i < length (threads S)" and ok: "thread_ok (jobs ! i) (own i h) (threads S ! i)"
    by (rule simE [OF S i])
  have "waits (threads S ! i)"
    using works_alone [OF s(2) n] t by (auto simp: works_def)
  then have "lock_ok s (set_thread i ((threads S ! i)
    \<lparr>todo := tl (todo (threads S ! i)), current := None, outcomes := outcomes (threads S ! i) @ [r]\<rparr>) S)"
    by (rule waits_update [OF s(2) n]) (simp add: waits_def)
  then show ?thesis
    using sim_extend [OF S _ i, where e = "[]"] thread_ok_returns [OF ok t] s(1) by (simp add: set_thread_def)
qed

lemma sim_act:
  assumes S: "sim s0 jobs S h" and i: "i < length jobs" and t: "current (threads S ! i) = Some (Act f)"
  shows "sim s0 jobs (set_thread i ((threads S ! i)\<lparr>current := Some (fst (f (shared S)))\<rparr>)
    (S\<lparr>shared := snd (f (shared S))\<rparr>)) h"
proof -
  define t' where "t' = (threads S ! i)\<lparr>current := Some (fst (f (shared S)))\<rparr>"
  obtain s where s: "exec spec (map (fst \<circ> snd) h) s0 = (map (snd \<circ> snd) h, s)" "lock_ok s S"
    and n: "i < length (threads S)" and ok: "thread_ok (jobs ! i) (own i h) (threads S ! i)"
    by (rule simE [OF S i])
  have "\<not> waits (threads S ! i)"
    using t by (simp add: waits_def well_locked_def)
  note alone = works_alone [OF s(2) n this]
  then have "works s (snd (f (shared S))) t'" "inside (fst (f (shared S)))"
    using t by (auto simp: works_def t'_def split_beta)
  then have "lock_ok s (set_thread i t' (S\<lparr>shared := snd (f (shared S))\<rparr>))"
    "thread_ok (jobs ! i) (own i h) t'"
    using alone n t thread_ok_inside [OF ok]
    by (auto simp: lock_ok_def set_thread_def settled_def t'_def intro!: exI [of _ i])
  then show ?thesis
    using sim_extend [OF S _ i, where e = "[]"] s(1) by (simp add: set_thread_def t'_def)
qed

lemma sim_acquire:
  assumes S: "sim s0 jobs S h" and i: "i < length jobs" and t: "current (threads S ! i) = Some (Acquire p)"
    and free: "\<not> locked S"
  shows "sim s0 jobs (set_thread i ((threads S ! i)\<lparr>current := Some p\<rparr>) (S\<lparr>locked := True\<rparr>)) h"
proof -
  define t' where "t' = (threads S ! i)\<lparr>current := Some p\<rparr>"
  obtain s where s: "exec spec (map (fst \<circ> snd) h) s0 = (map (snd \<circ> snd) h, s)" "lock_ok s S"
    and n: "i < length (threads S)" and ok: "thread_ok (jobs ! i) (own i h) (threads S ! i)"
    by (rule simE [OF S i])
  have w: "shared S = s" "\<forall>i < length (threads S). waits (threads S ! i)"
    using s(2) free by (auto simp: lock_ok_def)
  then have "works s (shared S) t'" "inside p"
    using t n by (auto simp: works_def t'_def waits_def well_locked_def)
  then have "lock_ok s (set_thread i t' (S\<lparr>locked := True\<rparr>))" "thread_ok (jobs ! i) (own i h) t'"
    using w n t thread_ok_inside [OF ok]
    by (auto simp: lock_ok_def set_thread_def settled_def t'_def intro!: exI [of _ i])
  then show ?thesis
    using sim_extend [OF S _ i, where e = "[]"] s(1) by (simp add: set_thread_def t'_def)
qed

lemma sim_release:
  assumes S: "sim s0 jobs S h" and i: "i < length jobs" and t: "current (threads S ! i) = Some (Release p)"
  shows "\<exists>e. sim s0 jobs (set_thread i ((threads S ! i)\<lparr>current := Some p\<rparr>) (S\<lparr>locked := False\<rparr>)) (h @ e)"
proof -
  define t' j where "t' = (threads S ! i)\<lparr>current := Some p\<rparr>" and "j = hd (todo (threads S ! i))"
  obtain s where s: "exec spec (map (fst \<circ> snd) h) s0 = (map (snd \<circ> snd) h, s)" "lock_ok s S"
    and n: "i < length (threads S)" and ok: "thread_ok (jobs ! i) (own i h) (threads S ! i)"
    by (rule simE [OF S i])
  have "\<not> waits (threads S ! i)"
    using t by (simp add: waits_def well_locked_def)
  note alone = works_alone [OF s(2) n this]
  then obtain r where r: "p = Fin r" "todo (threads S ! i) \<noteq> []" "spec j s = (r, shared S)"
    using t by (auto simp: works_def j_def)
  have "sim s0 jobs (set_thread i t' (S\<lparr>locked := False\<rparr>)) (h @ [(i, j, r)])"
  proof (rule sim_extend [OF S _ i])
    show "thread_ok (jobs ! i) (own i (h @ [(i, j, r)])) t'"
      using thread_ok_settles [OF ok _ r(2), of r] t r(1) by (simp add: settled_def t'_def j_def)
    show "lock_ok (shared S) (set_thread i t' (S\<lparr>locked := False\<rparr>))"
      using alone n r by (auto simp: lock_ok_def set_thread_def nth_list_update t'_def waits_def well_locked_def)
    show "exec spec (map (fst \<circ> snd) (h @ [(i, j, r)])) s0 = (map (snd \<circ> snd) (h @ [(i, j, r)]), shared S)"
      using s(1) r(3) by (simp add: exec_snoc)
  qed (auto simp: set_thread_def)
  then show ?thesis unfolding t'_def by blast
qed

lemma sim_step:
  assumes S: "sim s0 jobs S h" and step: "thread_step table i S = Some S'"
  shows "\<exists>e. sim s0 jobs S' (h @ e)"
proof -
  have i: "i < length jobs"
    using assms by (auto simp: thread_step_def sim_def split: if_splits)
  note cases = sim_begin [OF S i] sim_return [OF S i] sim_act [OF S i] sim_acquire [OF S i] sim_release [OF S i]
  show ?thesis
  proof (cases "current (threads S ! i)")
    case None
    with step cases show ?thesis
      by (auto simp: thread_step_def Let_def split: if_splits list.splits)
  next
    case (Some p)
    with step cases show ?thesis
      by (cases p) (auto simp: thread_step_def Let_def split: if_splits intro: exI [of _ "[]"])
  qed
qed

lemma sim_schedule: "sim s0 jobs S h \<Longrightarrow> \<exists>e. sim s0 jobs (interleave table is S) (h @ e)"
proof (induction "is" arbitrary: S h)
  case Nil
  then show ?case by (auto intro: exI [of _ "[]"])
next
  case (Cons i "is")
  obtain e where "sim s0 jobs (case thread_step table i S of None \<Rightarrow> S | Some S' \<Rightarrow> S') (h @ e)"
    using sim_step [OF Cons.prems] Cons.prems by (cases "thread_step table i S") (auto intro: that [of "[]"] that)
  from Cons.IH [OF this] show ?case by (metis append.assoc interleave.simps(2))
qed

lemma sim_launch: "sim s jobs (launch s jobs) []"
  by (auto simp: sim_def launch_def thread_ok_def settled_def lock_ok_def waits_def)

lemma sim_reached: "\<exists>h. sim s jobs (interleave table is (launch s jobs)) h"
  using sim_schedule [OF sim_launch] by blast

lemma sim_explains: "sim s0 jobs S h \<Longrightarrow> explains spec s0 jobs S h"
  by (auto simp: sim_def explains_def lock_ok_def list_all_iff intro!: thread_ok_explains split: if_splits)

text \<open>What the discipline gives, for every schedule.\<close>

text \<open>One history of which prefixes explain every moment of a run.\<close>

lemma sim_prefixes:
  "\<exists>h. sim s jobs (interleave table is (launch s jobs)) h
    \<and> (\<forall>k. \<exists>m. sim s jobs (interleave table (take k is) (launch s jobs)) (take m h))"
proof (induction "is" rule: rev_induct)
  case Nil
  then show ?case using sim_launch by (intro exI [of _ "[]"]) auto
next
  case (snoc i "is")
  then obtain h where h: "sim s jobs (interleave table is (launch s jobs)) h"
    "\<forall>k. \<exists>m. sim s jobs (interleave table (take k is) (launch s jobs)) (take m h)" by blast
  obtain e where e: "sim s jobs (interleave table (is @ [i]) (launch s jobs)) (h @ e)"
    using sim_schedule [OF h(1), of "[i]"] by (auto simp: interleave_append)
  have "\<exists>m. sim s jobs (interleave table (take k (is @ [i])) (launch s jobs)) (take m (h @ e))" for k
  proof (cases "k \<le> length is")
    case True
    obtain m where "sim s jobs (interleave table (take k is) (launch s jobs)) (take m h)" using h(2) by blast
    moreover have "take m h = take (min m (length h)) (h @ e)" by (simp add: min_def)
    ultimately show ?thesis using True by (metis take_append diff_is_0_eq take_0 append_Nil2)
  next
    case False
    then show ?thesis using e by (intro exI [of _ "length (h @ e)"]) simp
  qed
  with e show ?case by blast
qed

lemma linearises:
  "\<exists>h. explains spec s jobs (interleave table is (launch s jobs)) h
    \<and> (\<forall>k. \<exists>m. explains spec s jobs (interleave table (take k is) (launch s jobs)) (take m h))
    \<and> in_time_order table is (launch s jobs) h"
proof -
  obtain h where h: "sim s jobs (interleave table is (launch s jobs)) h"
    "\<forall>k. \<exists>m. sim s jobs (interleave table (take k is) (launch s jobs)) (take m h)"
    using sim_prefixes by blast
  have pre: "\<forall>k. \<exists>m. explains spec s jobs (interleave table (take k is) (launch s jobs)) (take m h)"
    using h(2) sim_explains by blast
  have "list_all (\<lambda>e. fst e < length jobs) h" using h(1) by (simp add: sim_def)
  with pre have "in_time_order table is (launch s jobs) h" by (rule prefixes_in_time_order)
  with pre sim_explains [OF h(1)] show ?thesis by blast
qed

lemma thread_count: "length (threads (interleave table is (launch s jobs))) = length jobs"
  using sim_reached [of s jobs "is"] by (auto simp: sim_def)

lemma lock_reached: "\<exists>s'. lock_ok s' (interleave table is (launch s jobs))"
  using sim_reached [of s jobs "is"] by (auto simp: sim_def)

lemma waits_outside: "waits t \<Longrightarrow> \<not> in_section t"
  by (auto simp: in_section_def waits_def well_locked_def split: option.splits prog.splits)

lemma works_inside: "works s s' t \<Longrightarrow> in_section t"
  by (auto simp: in_section_def works_def elim: inside.cases)

lemma lock_counts: "lock_ok s S \<Longrightarrow> length (filter in_section (threads S)) = (if locked S then 1 else 0)"
proof (cases "locked S")
  case True
  assume "lock_ok s S"
  with True obtain k where k: "k < length (threads S)" "works s (shared S) (threads S ! k)"
    "\<forall>i < length (threads S). i \<noteq> k \<longrightarrow> waits (threads S ! i)"
    by (auto simp: lock_ok_def)
  then have "{i. i < length (threads S) \<and> in_section (threads S ! i)} = {k}"
    using waits_outside works_inside by blast
  with True show ?thesis by (simp add: length_filter_conv_card)
qed (auto simp: lock_ok_def filter_empty_conv in_set_conv_nth dest!: waits_outside)

lemma excludes:
  "length (filter in_section (threads (interleave table is (launch s jobs))))
    = (if locked (interleave table is (launch s jobs)) then 1 else 0)"
  using lock_reached [of "is" s jobs] lock_counts by blast

text \<open>The thread in its locked section can always move, and without one every unfinished thread can.\<close>

lemma lock_moves:
  assumes "lock_ok s S" and "list_all (\<lambda>i. thread_step table i S = None) [0..<length (threads S)]"
  shows "finished S"
proof -
  have stuck: "thread_step table i S = None" if "i < length (threads S)" for i
    using assms(2) that by (simp add: list_all_iff)
  have no_work: "\<not> works s (shared S) (threads S ! k)" if "k < length (threads S)" for k
    using stuck [OF that] that by (auto simp: works_def thread_step_def Let_def elim: inside.cases)
  then have "todo (threads S ! i) = [] \<and> current (threads S ! i) = None" if "i < length (threads S)" for i
    using assms(1) stuck [OF that] that
    by (auto simp: lock_ok_def thread_step_def Let_def split: if_splits option.splits prog.splits list.splits)
  then show ?thesis
    by (auto simp: finished_def list_all_length)
qed

lemma finished_stuck: "finished S \<Longrightarrow> thread_step table i S = None"
  by (auto simp: finished_def list_all_length thread_step_def Let_def)

lemma no_deadlock:
  "list_all (\<lambda>i. thread_step table i (interleave table is (launch s jobs)) = None) [0..<length jobs]
    \<longleftrightarrow> finished (interleave table is (launch s jobs))"
proof
  obtain s' where "lock_ok s' (interleave table is (launch s jobs))"
    using lock_reached by blast
  note moves = lock_moves [OF this, unfolded thread_count]
  show "finished (interleave table is (launch s jobs))"
    if "list_all (\<lambda>i. thread_step table i (interleave table is (launch s jobs)) = None) [0..<length jobs]"
    using that by (rule moves)
qed (simp add: finished_stuck list_all_iff)

lemma can_finish: "\<exists>js. finished (interleave table (is @ js) (launch s jobs))"
proof (induction "interleave table is (launch s jobs)" arbitrary: "is" rule: wf_induct_rule [OF runs_end [of table]])
  case 1
  show ?case
  proof (cases "finished (interleave table is (launch s jobs))")
    case True
    then show ?thesis by (auto intro: exI [of _ "[]"])
  next
    case False
    then obtain i S' where step: "thread_step table i (interleave table is (launch s jobs)) = Some S'"
      unfolding no_deadlock [symmetric] by (auto simp: list_all_iff)
    then have "S' = interleave table (is @ [i]) (launch s jobs)"
      by (simp add: interleave_append)
    with 1 [of "is @ [i]"] step obtain js where "finished (interleave table ((is @ [i]) @ js) (launch s jobs))"
      by blast
    then show ?thesis by (metis append.assoc)
  qed
qed

end

end
