(* ===== verification/Tcp_Threads.thy ===== *)
theory Tcp_Threads
  imports Tcp_Lifecycle Py_Thread
begin

text \<open>
  Several threads on one TCP client. The methods of \<open>tcp_client.py\<close> are written out again at
  the grain of their accesses to \<open>self._sock\<close> and to the network, with the lock where the code
  takes it: validation, encoding and the reading of a response happen outside, everything
  else between the two ends of \<open>with self._lock\<close>. Run alone, each is the method of
  \<open>Tcp_Client\<close>; that makes them an instance of \<open>locked_methods\<close>.
\<close>

section \<open>Receiving\<close>

definition self_sock :: "conn option op" where
  "self_sock s = (Inr (sock s), s)"

text \<open>\<open>self._sock.recv(n)\<close>\<close>

definition self_recv :: "nat \<Rightarrow> bytes op" where
  "self_recv n s =
    (case sock s of
       None \<Rightarrow> (Inl AttributeError, s)
     | Some c \<Rightarrow> (case sock_recv n c of (r, c') \<Rightarrow> (r, s\<lparr>sock := Some c'\<rparr>)))"

function recvn_loop_prog :: "nat \<Rightarrow> bytes \<Rightarrow> (tcp_state, bytes) prog" where
  "recvn_loop_prog n data =
    (if length data < n then
       Act (\<lambda>s. case self_recv (n - length data) s of
           (Inl e, s') \<Rightarrow> (Fin (Inl e), s')
         | (Inr chunk, s') \<Rightarrow>
             if chunk = [] then (Fin (Inl (ConnectionError (lit ''Connection closed by server.''))), s')
             else (recvn_loop_prog n (data @ chunk), s'))
     else Fin (Inr data))"
  by pat_completeness auto
termination
  by (relation "measure (\<lambda>(n, data). n - length data)") (auto simp: neq_Nil_conv)

declare recvn_loop_prog.simps [simp del]

definition recvn_prog :: "nat \<Rightarrow> (tcp_state, bytes) prog" where
  "recvn_prog n = bindP (atomic assert_sock) (\<lambda>_. recvn_loop_prog n [])"

definition recv_prog :: "tcp_config \<Rightarrow> (tcp_state, ClientResponse) prog" where
  "recv_prog cfg =
    bindP (recvn_prog 4) (\<lambda>header.
    bindP (Fin (unpack_be32 header)) (\<lambda>payload_len.
    if payload_len > max_frame_bytes cfg
    then Fin (Inl (ConnectionError (too_large_msg payload_len (max_frame_bytes cfg))))
    else bindP (recvn_prog (nat payload_len)) (\<lambda>payload. Fin (decode_response payload))))"


section \<open>Connection lifecycle\<close>

text \<open>\<open>self._sock.shutdown(socket.SHUT_RDWR)\<close>\<close>

definition self_shutdown :: "unit op" where
  "self_shutdown s =
    (case sock s of
       None \<Rightarrow> (Inl AttributeError, s)
     | Some c \<Rightarrow>
         (case shut c of
            [] \<Rightarrow> (Inr (), s)
          | Done # evs \<Rightarrow> (Inr (), s\<lparr>sock := Some (c\<lparr>shut := evs\<rparr>)\<rparr>)
          | Failed e # evs \<Rightarrow> (Inl (OSError e), s\<lparr>sock := Some (c\<lparr>shut := evs\<rparr>)\<rparr>)))"

text \<open>\<open>self._sock.close()\<close> and \<open>self._sock = None\<close>\<close>

definition self_close :: "unit op" where
  "self_close s =
    (case sock s of
       None \<Rightarrow> (Inl AttributeError, s)
     | Some c \<Rightarrow> (Inr (), s\<lparr>trace := trace s @ [Closed (cid c)]\<rparr>))"

definition forget_sock :: "unit op" where
  "forget_sock s = (Inr (), s\<lparr>sock := None\<rparr>)"

definition shutdown_handler :: "py_exc \<Rightarrow> (tcp_state, unit) prog" where
  "shutdown_handler exc =
    (case exc of OSError e \<Rightarrow> if already_gone e then Fin (Inr ()) else Fin (Inl exc) | _ \<Rightarrow> Fin (Inl exc))"

definition close_prog :: "(tcp_state, unit) prog" where
  "close_prog =
    bindP (atomic self_sock) (\<lambda>sk.
    if sk = None then Fin (Inr ())
    else bindP (tryP (atomic self_shutdown) shutdown_handler) (\<lambda>_.
         bindP (atomic self_close) (\<lambda>_. atomic forget_sock)))"

text \<open>\<open>socket.create_connection\<close>, whose socket is the thread's own until it is assigned.\<close>

definition create_connection :: "(nat \<times> peer) op" where
  "create_connection s =
    (case dials s of
       [] \<Rightarrow> (Inl (OSError None), s)
     | Refused e # ds \<Rightarrow> (Inl (OSError e), s\<lparr>dials := ds\<rparr>)
     | Accepted p # ds \<Rightarrow> (Inr (next_cid s, p), dialled s ds))"

definition assign_sock :: "nat \<Rightarrow> peer \<Rightarrow> tls_session option \<Rightarrow> unit op" where
  "assign_sock k p sess s = (Inr (), s\<lparr>sock := Some \<lparr>cid = k, inbound = peer_recv p, outbound = peer_send p,
     shut = peer_shutdown p, session = sess\<rparr>\<rparr>)"

definition auth_reply_prog :: "ClientResponse \<Rightarrow> (tcp_state, unit) prog" where
  "auth_reply_prog resp =
    (case resp of
       RError code message \<Rightarrow> bindP close_prog (\<lambda>_. Fin (Inl (DittoError (Code code) (Text message))))
     | _ \<Rightarrow>
         if resp_type resp \<noteq> ''AuthOk''
         then bindP close_prog (\<lambda>_.
           Fin (Inl (RuntimeError (lit ''Unexpected auth response: '' @ lit (resp_type resp)))))
         else Fin (Inr ()))"

definition auth_prog :: "tcp_config \<Rightarrow> (tcp_state, unit) prog" where
  "auth_prog cfg =
    (case auth_token cfg of
       None \<Rightarrow> Fin (Inr ())
     | Some token \<Rightarrow>
         bindP (Fin (encode_auth token)) (\<lambda>fr.
         bindP (atomic (sock_sendall fr)) (\<lambda>_.
         bindP (recv_prog cfg) auth_reply_prog)))"

definition connect_prog :: "tcp_config \<Rightarrow> (tcp_state, unit) prog" where
  "connect_prog cfg =
    bindP (atomic self_sock) (\<lambda>sk.
    if sk \<noteq> None then Fin (Inr ())
    else bindP (atomic create_connection) (\<lambda>(k, p).
         bindP (atomic (liftR (wrap_tls cfg p))) (\<lambda>sess.
         bindP (atomic (assign_sock k p sess)) (\<lambda>_. auth_prog cfg))))"


section \<open>Requests\<close>

definition exchange_prog :: "tcp_config \<Rightarrow> bytes \<Rightarrow> (tcp_state, ClientResponse) prog" where
  "exchange_prog cfg fr = bindP (atomic (sock_sendall fr)) (\<lambda>_. recv_prog cfg)"

definition send_prog :: "tcp_config \<Rightarrow> bytes \<Rightarrow> bool \<Rightarrow> (tcp_state, ClientResponse) prog" where
  "send_prog cfg fr retry_safe =
    bindP (atomic self_sock) (\<lambda>sk.
    if sk = None then Fin (Inl not_connected)
    else tryP (exchange_prog cfg fr) (\<lambda>first.
      if \<not> is_os_error first then Fin (Inl first)
      else bindP close_prog (\<lambda>_.
        if \<not> retry_safe then Fin (Inl outcome_unknown)
        else if \<not> auto_reconnect cfg then Fin (Inl first)
        else bindP (connect_prog cfg) (\<lambda>_.
             bindP (atomic assert_sock) (\<lambda>_. exchange_prog cfg fr)))))"

definition wait_prog :: "tcp_config \<Rightarrow> (tcp_state, ClientResponse) prog" where
  "wait_prog cfg =
    bindP (atomic self_sock) (\<lambda>sk. if sk = None then Fin (Inl not_connected) else recv_prog cfg)"


section \<open>Methods\<close>

datatype client_method = CallConnect | CallClose | CallRequest api_call | CallWait

datatype method_result = Ended | Answer api_result | Event DittoWatchEvent

text \<open>What a method does for a thread: before the lock, under it, after it.\<close>

fun method_prog :: "tcp_config \<Rightarrow> client_method \<Rightarrow> (tcp_state, method_result) prog" where
  "method_prog cfg CallConnect = bindP (with_lock (connect_prog cfg)) (\<lambda>_. Fin (Inr Ended))"
| "method_prog cfg CallClose = bindP (with_lock close_prog) (\<lambda>_. Fin (Inr Ended))"
| "method_prog cfg (CallRequest a) =
    bindP (Fin (bindR (call_check cfg a) (\<lambda>_. bindR (call_request a) encode_request))) (\<lambda>fr.
    bindP (with_lock (send_prog cfg fr (read_only a))) (\<lambda>resp. Fin (map_result Answer (call_branch a resp))))"
| "method_prog cfg CallWait =
    bindP (with_lock (wait_prog cfg)) (\<lambda>resp. Fin (map_result Event (watch_event_branch resp)))"

text \<open>The same methods as one step each.\<close>

fun method_spec :: "tcp_config \<Rightarrow> client_method \<Rightarrow> method_result op" where
  "method_spec cfg CallConnect = mapS (\<lambda>_. Ended) (tcp_connect cfg)"
| "method_spec cfg CallClose = mapS (\<lambda>_. Ended) tcp_close"
| "method_spec cfg (CallRequest a) = mapS Answer (perform cfg a)"
| "method_spec cfg CallWait = mapS Event (tcp_wait_watch_event cfg)"

section \<open>Alone, the methods of the sequential model\<close>

lemma run_recvn_loop:
  "sock s = Some c \<Longrightarrow>
    run (recvn_loop_prog n data) s = (case recvn_loop n data c of (r, c') \<Rightarrow> (r, s\<lparr>sock := Some c'\<rparr>))"
proof (induction n data c arbitrary: s rule: recvn_loop.induct)
  case (1 n data c)
  show ?case
  proof (cases "length data < n")
    case True
    obtain r c' where r: "sock_recv (n - length data) c = (r, c')" by fastforce
    show ?thesis
    proof (cases "\<exists>chunk. r = Inr chunk \<and> chunk \<noteq> []")
      case True
      then obtain chunk where "r = Inr chunk" "chunk \<noteq> []" by blast
      with 1 r \<open>length data < n\<close> show ?thesis
        by (subst recvn_loop_prog.simps, subst recvn_loop.simps) (simp add: self_recv_def split: prod.split)
    next
      case False
      with 1(2) r \<open>length data < n\<close> show ?thesis
        by (subst recvn_loop_prog.simps, subst recvn_loop.simps) (cases r; simp add: self_recv_def)
    qed
  next
    case False
    with 1(2) show ?thesis
      by (subst recvn_loop_prog.simps, subst recvn_loop.simps) simp
  qed
qed

lemma run_recvn: "run (recvn_prog n) = recvn n"
proof (rule ext)
  show "run (recvn_prog n) s = recvn n s" for s
    by (cases "sock s") (simp_all add: recvn_prog_def run_rules thenS_def assert_sock_def recvn_def run_recvn_loop)
qed

lemma run_recv: "run (recv_prog cfg) = recv_response cfg"
  by (simp add: recv_prog_def recv_response_def run_rules run_recvn liftR_def [abs_def] raiseS_def [abs_def]
    if_distrib [of run] del: bindP.simps cong: if_cong)

lemma run_close: "run close_prog = close_locked"
proof (rule ext)
  fix s
  show "run close_prog s = close_locked s"
  proof (cases "sock s")
    case None
    then show ?thesis
      by (simp add: close_prog_def run_rules thenS_def self_sock_def close_locked_def)
  next
    case (Some c)
    then show ?thesis
      by (auto simp: close_prog_def run_rules thenS_def self_sock_def close_locked_def self_shutdown_def
        shutdown_handler_def self_close_def forget_sock_def drop_sock_def split: list.split io.split)
  qed
qed

lemma run_auth: "run (auth_prog cfg) = authenticate cfg"
  by (auto simp: auth_prog_def authenticate_def auth_reply_prog_def run_rules run_recv run_close liftR_def [abs_def]
    raiseS_def [abs_def] returnS_def [abs_def] fun_eq_iff thenS_def if_distrib [of run] split: option.split prod.split sum.split
    ClientResponse.split)

lemma run_connect: "run (connect_prog cfg) = connect_locked cfg"
proof (rule ext)
  show "run (connect_prog cfg) s = connect_locked cfg s" for s
    by (auto simp: connect_prog_def connect_locked_def run_rules run_auth thenS_def self_sock_def create_connection_def
      assign_sock_def liftR_def new_conn_def dialled_def split: option.split list.split dial.split sum.split)
qed

lemma run_exchange: "run (exchange_prog cfg fr) = exchange cfg fr"
  by (simp add: exchange_prog_def exchange_def run_rules run_recv)

lemma run_send: "run (send_prog cfg fr retry) = send cfg fr retry"
proof (rule ext)
  show "run (send_prog cfg fr retry) s = send cfg fr retry s" for s
    by (auto simp: send_prog_def send_def run_rules run_exchange run_close run_connect thenS_def self_sock_def
      split: sum.split prod.split)
qed

lemma run_method: "run (method_prog cfg m) = method_spec cfg m"
proof (cases m)
  case (CallRequest a)
  then show ?thesis
    by (auto simp: fun_eq_iff run_rules run_send mapS_def thenS_def api.call_steps returnS_def map_result_def
      split: sum.split prod.split)
next
  case CallWait
  then show ?thesis
    by (auto simp: fun_eq_iff run_rules run_recv wait_prog_def mapS_def thenS_def self_sock_def tcp_wait_watch_event_def
      returnS_def liftR_def map_result_def split: sum.split prod.split)
qed (simp_all add: fun_eq_iff run_rules run_connect run_close mapS_def tcp_connect_def tcp_close_def returnS_def [abs_def])


section \<open>The lock discipline\<close>

lemma bare_recvn_loop: "bare (recvn_loop_prog n data)"
proof (induction n data rule: recvn_loop_prog.induct)
  case (1 n data)
  have "bare (recvn_loop_prog n (data @ chunk))"
    if "length data < n" "self_recv (n - length data) s = (Inr chunk, s')" "chunk \<noteq> []" for s s' chunk
    using 1 [OF that(1) that(2) [symmetric] refl that(3)] .
  then show ?case
    by (subst recvn_loop_prog.simps) (auto intro!: bare.intros split: prod.split sum.split)
qed

lemma bare_recv: "bare (recv_prog cfg)"
  by (auto simp: recv_prog_def recvn_prog_def simp del: bindP.simps intro!: bare_rules bare_recvn_loop)

lemma bare_close: "bare close_prog"
  by (auto simp: close_prog_def shutdown_handler_def intro!: bare_rules split: py_exc.split)

lemma bare_connect: "bare (connect_prog cfg)"
  by (auto simp: connect_prog_def auth_prog_def auth_reply_prog_def simp del: bindP.simps
    intro!: bare_rules bare_recv bare_close split: option.split ClientResponse.split)

lemma bare_send: "bare (send_prog cfg fr retry)"
  by (auto simp: send_prog_def exchange_prog_def intro!: bare_rules bare_recv bare_close bare_connect)

lemma bare_wait: "bare (wait_prog cfg)"
  by (auto simp: wait_prog_def intro!: bare_rules bare_recv)

interpretation client: locked_methods "method_prog cfg" "method_spec cfg" for cfg
proof
  show "run (method_prog cfg m) = method_spec cfg m" for m
    by (rule run_method)
  show "well_locked (method_prog cfg m)" for m
    by (cases m) (auto intro!: well_locked_method bare_connect bare_close bare_send bare_wait simp: well_locked_def [of "Fin _"]
      split: sum.split)
qed

lemma exec_reachable: "reachable cfg s \<Longrightarrow> exec (method_spec cfg) ms s = (rs, s') \<Longrightarrow> reachable cfg s'"
proof (induction ms arbitrary: s rs)
  case (Cons m ms)
  obtain r s1 where m: "method_spec cfg m s = (r, s1)" by fastforce
  have "client_step cfg s s1"
    using m by (cases m) (force simp: mapS_def thenS_def returnS_def intro: client_step.intros split: prod.splits sum.splits)+
  with Cons m show ?case
    by (auto intro: reachable.Step split: prod.splits)
qed simp

text \<open>Whenever the lock is free, the client is as some sequence of calls leaves it.\<close>

lemma threads_reachable:
  assumes "\<not> locked (interleave (method_prog cfg) is (launch (init_state ds) jobs))"
  shows "reachable cfg (shared (interleave (method_prog cfg) is (launch (init_state ds) jobs)))"
proof -
  obtain h where "explains (method_spec cfg) (init_state ds) jobs (interleave (method_prog cfg) is (launch (init_state ds) jobs)) h"
    using client.linearises by blast
  then show ?thesis
    using assms exec_reachable [OF reachable.Start] by (auto simp: explains_def)
qed

lemma threads_orderly:
  "\<not> locked (interleave (method_prog cfg) is (launch (init_state ds) jobs)) \<Longrightarrow>
    orderly (shared (interleave (method_prog cfg) is (launch (init_state ds) jobs)))"
  by (rule orderly.holds [OF threads_reachable])


section \<open>Properties\<close>

text \<open>
  C6: The client may be called from any number of threads. For every run, however the scheduler interleaves
  the single accesses to the socket, there is one order of the calls, which keeps the order of
  each thread, in which a single thread making them one after the other gets the results that
  the threads got and, if the lock is free, leaves the client in the state it is in. At every earlier
  moment of the run a beginning of the same order explains what had happened by then. And the order is that in
  time: of any two calls, if one had returned at some moment when the other had not begun, it comes first.
\<close>

theorem calls_linearise:
  "\<exists>h. explains (method_spec cfg) s jobs (interleave (method_prog cfg) is (launch s jobs)) h
    \<and> (\<forall>k. \<exists>m. explains (method_spec cfg) s jobs (interleave (method_prog cfg) (take k is) (launch s jobs)) (take m h))
    \<and> in_time_order (method_prog cfg) is (launch s jobs) h"
  by (rule client.linearises)

text \<open>
  C18: Under every schedule the threads that are about to use the socket or to give the lock
  back number exactly one if the lock is held and none if it is free.
\<close>

theorem lock_excludes:
  "length (filter in_section (threads (interleave (method_prog cfg) is (launch s jobs))))
    = (if locked (interleave (method_prog cfg) is (launch s jobs)) then 1 else 0)"
  by (rule client.excludes)

text \<open>
  C17: No call waits for ever: under every schedule the system is stuck exactly when every call
  of every thread has returned, and no run has infinitely many steps. In particular no method
  asks for the lock again while it holds it, also not when it connects again after a failure.
\<close>

theorem every_call_returns:
  "wf {(S', S). \<exists>i. thread_step (method_prog cfg) i S = Some S'}
   \<and> (list_all (\<lambda>i. thread_step (method_prog cfg) i (interleave (method_prog cfg) is (launch s jobs)) = None) [0..<length jobs]
      \<longleftrightarrow> finished (interleave (method_prog cfg) is (launch s jobs)))"
  by (rule conjI [OF runs_end client.no_deadlock])


section \<open>A run\<close>

text \<open>
  Two threads: the second asks for the lock while the first is connecting and waits for it,
  then closes the connection before the first can.
\<close>

definition sample_threads :: "(tcp_state, client_method, method_result) system" where
  "sample_threads = interleave (method_prog sample_config)
     [0, 0, 0, 1, 1, 0, 0, 0, 0, 0, 1, 1, 1, 1, 1, 1, 1, 0, 0, 0, 0, 0]
     (launch (init_state [Accepted (easy_peer [])]) [[CallConnect, CallClose], [CallClose]])"

lemma sample_threads_finished:
  "finished sample_threads \<and> trace (shared sample_threads) = [Opened 0, Closed 0]
    \<and> map outcomes (threads sample_threads) = [[Inr Ended, Inr Ended], [Inr Ended]]"
  by code_simp

end
