(* ===== verification/Http_Client.thy ===== *)
theory Http_Client
  imports Validation
begin

text \<open>
  The HTTP client: the constructor and helpers of \<open>http_client_base.py\<close>, the helpers of
  \<open>client_internal.py\<close> and the methods of \<open>http_client.py\<close>. What the server replies
  is a script the requests consume; every request that leaves the client is logged.
\<close>

section \<open>The constructor\<close>

definition INSECURE_TLS_DEV_ENV_GATE :: pystr where
  "INSECURE_TLS_DEV_ENV_GATE = lit ''DITTO_CLIENT_ALLOW_INSECURE_TLS_DEV''"

text \<open>The value of the gate variable, \<open>None\<close> when it is not set.\<close>

definition allow_insecure_tls_dev :: "pystr option \<Rightarrow> bool" where
  "allow_insecure_tls_dev env =
    (let value = py_lower (py_strip (case env of None \<Rightarrow> [] | Some v \<Rightarrow> v)) in
     value \<in> {lit ''1'', lit ''true'', lit ''yes'', lit ''on''})"

text \<open>What of an \<open>SSLContext\<close> the constructor sets.\<close>

record ssl_ctx =
  check_hostname :: bool
  cert_required :: bool
  cafile :: "pystr option"

definition default_context :: ssl_ctx where
  "default_context = \<lparr>check_hostname = True, cert_required = True, cafile = None\<rparr>"

record http_config =
  base_url :: pystr
  auth_header :: "pystr option"
  http_ctx :: "ssl_ctx option"
  http_strict :: bool

definition non_blank :: "pystr option \<Rightarrow> pystr option" where
  "non_blank s = (case s of None \<Rightarrow> None | Some x \<Rightarrow> if py_strip x \<noteq> [] then Some (py_strip x) else None)"

definition basic_auth :: "pystr option \<Rightarrow> pystr option \<Rightarrow> pystr option result" where
  "basic_auth username password =
    (case (username, password) of
       (Some u, Some p) \<Rightarrow>
         if u \<noteq> [] \<and> p \<noteq> []
         then bindR (py_encode (u @ lit '':'' @ p)) (\<lambda>raw. Inr (Some (lit ''Basic '' @ b64encode (map unat raw))))
         else Inr None
     | _ \<Rightarrow> Inr None)"

definition insecure_refused :: "string \<Rightarrow> py_exc" where
  "insecure_refused option = ValueError (lit option
     @ lit '' is insecure and is no longer supported by default unless '' @ INSECURE_TLS_DEV_ENV_GATE
     @ lit ''=true is set for development use. Use a trusted certificate configuration instead.'')"

text \<open>One of the two insecure options: harmless if it is off, gated by the environment if it is on.\<close>

definition relax :: "pystr option \<Rightarrow> string \<Rightarrow> bool \<Rightarrow> ssl_ctx \<Rightarrow> ssl_ctx result" where
  "relax env option on ctx =
    (if \<not> on then Inr ctx
     else if allow_insecure_tls_dev env then Inr (ctx\<lparr>check_hostname := False, cert_required := False\<rparr>)
     else Inl (insecure_refused option))"

text \<open>\<open>load_ca\<close> is the outcome of reading the certificate file.\<close>

definition tls_context ::
  "pystr option \<Rightarrow> py_exc option \<Rightarrow> bool \<Rightarrow> bool \<Rightarrow> pystr option \<Rightarrow> ssl_ctx result" where
  "tls_context env load_ca reject_unauthorized dev_insecure_tls trusted_cert_path =
    bindR (relax env ''dev_insecure_tls=True'' dev_insecure_tls default_context) (\<lambda>ctx.
    bindR (relax env ''reject_unauthorized=False'' (\<not> reject_unauthorized) ctx) (\<lambda>ctx.
      (case non_blank trusted_cert_path of
         None \<Rightarrow> Inr ctx
       | Some path \<Rightarrow> (case load_ca of Some e \<Rightarrow> Inl e | None \<Rightarrow> Inr (ctx\<lparr>cafile := Some path\<rparr>)))))"

definition init_http ::
  "pystr option \<Rightarrow> py_exc option \<Rightarrow> pystr \<Rightarrow> int \<Rightarrow> bool \<Rightarrow> pystr option \<Rightarrow> pystr option \<Rightarrow> bool \<Rightarrow> bool \<Rightarrow>
   pystr option \<Rightarrow> bool \<Rightarrow> http_config result" where
  "init_http env load_ca host port tls username password reject_unauthorized dev_insecure_tls trusted_cert_path strict =
    bindR (basic_auth username password) (\<lambda>auth.
    bindR (if tls
           then bindR (tls_context env load_ca reject_unauthorized dev_insecure_tls trusted_cert_path) (\<lambda>c. Inr (Some c))
           else Inr None) (\<lambda>ctx.
      Inr \<lparr>base_url = (if tls then lit ''https'' else lit ''http'') @ lit ''://'' @ host @ lit '':'' @ py_str_int port,
           auth_header = auth, http_ctx = ctx, http_strict = strict\<rparr>))"


section \<open>Requests\<close>

text \<open>The arguments of \<open>_request\<close>, with its defaults, and the request it makes of them.\<close>

record call_args =
  path :: pystr
  verb :: string
  body :: "bytes option"
  content_type :: "string option"
  extra_headers :: "(string \<times> pystr) list option"

definition get_args :: "pystr \<Rightarrow> call_args" where
  "get_args p = \<lparr>path = p, verb = ''GET'', body = None, content_type = None, extra_headers = None\<rparr>"

record http_request =
  url :: pystr
  req_verb :: string
  req_body :: "bytes option"
  req_headers :: "(string \<times> pystr) list"

text \<open>
  A reply with a success status, an \<open>HTTPError\<close> with its status and the body if there is
  one, or an exception of the transport.
\<close>

datatype reply = Replied int bytes | ErrorReply int "bytes option" | NoReply py_exc

record http_state =
  replies :: "reply list"
  sent_requests :: "http_request list"

type_synonym 'a http_op = "(http_state, 'a) meth"

text \<open>
  What \<open>http.client\<close> makes of a header value before anything is sent: it must be
  Latin-1, and a line break must be followed by space.
\<close>

fun bad_line_break :: "pystr \<Rightarrow> bool" where
  "bad_line_break [] = False"
| "bad_line_break (c # cs) =
    (c = 10 \<and> (case cs of [] \<Rightarrow> True | d # ds \<Rightarrow> d \<noteq> 32 \<and> d \<noteq> 9)
     \<or> c = 13 \<and> (case cs of [] \<Rightarrow> True | d # ds \<Rightarrow> d \<noteq> 32 \<and> d \<noteq> 9 \<and> d \<noteq> 10)
     \<or> bad_line_break cs)"

fun header_error :: "(string \<times> pystr) list \<Rightarrow> py_exc option" where
  "header_error [] = None"
| "header_error ((n, v) # hs) =
    (if \<not> list_all (\<lambda>c. c < 256) v then Some UnicodeEncodeError
     else if bad_line_break v then Some (ValueError (lit ''Invalid header value''))
     else header_error hs)"

definition urlopen :: "http_request \<Rightarrow> reply http_op" where
  "urlopen req s =
    (case header_error (req_headers req) of
       Some e \<Rightarrow> (Inl e, s)
     | None \<Rightarrow>
         let s' = s\<lparr>sent_requests := sent_requests s @ [req]\<rparr> in
         (case replies s of
            [] \<Rightarrow> (Inl (OSError None), s')
          | r # rs \<Rightarrow> (Inr r, s'\<lparr>replies := rs\<rparr>)))"

definition build_request :: "http_config \<Rightarrow> call_args \<Rightarrow> http_request" where
  "build_request cfg a =
    \<lparr>url = base_url cfg @ path a, req_verb = verb a, req_body = body a,
     req_headers =
       (case auth_header cfg of Some h \<Rightarrow> if h \<noteq> [] then [(''Authorization'', h)] else [] | None \<Rightarrow> [])
       @ (case content_type a of Some t \<Rightarrow> if t \<noteq> [] then [(''Content-Type'', lit t)] else [] | None \<Rightarrow> [])
       @ (case extra_headers a of Some hs \<Rightarrow> hs | None \<Rightarrow> [])\<rparr>"

definition reply_text :: "reply \<Rightarrow> (int \<times> pystr) result" where
  "reply_text r =
    (case r of
       Replied status b \<Rightarrow> bindR (py_decode b) (\<lambda>t. Inr (status, t))
     | ErrorReply code b \<Rightarrow>
         (case b of None \<Rightarrow> Inr (code, []) | Some bs \<Rightarrow> bindR (py_decode bs) (\<lambda>t. Inr (code, t)))
     | NoReply e \<Rightarrow> Inl e)"

definition request :: "http_config \<Rightarrow> call_args \<Rightarrow> (int \<times> pystr) http_op" where
  "request cfg a = thenS (urlopen (build_request cfg a)) (\<lambda>r. liftR (reply_text r))"


section \<open>Errors\<close>

text \<open>\<open>data.get(key)\<close>, \<open>data[key]\<close> and \<open>int(v)\<close> on a value of \<open>json.loads\<close>.\<close>

definition json_load :: "pystr \<Rightarrow> json result" where
  "json_load b = (case json_loads b of None \<Rightarrow> Inl JSONDecodeError | Some v \<Rightarrow> Inr v)"

definition dot_get :: "json \<Rightarrow> string \<Rightarrow> json option result" where
  "dot_get v k = (case v of JObj d \<Rightarrow> Inr (dict_get d k) | _ \<Rightarrow> Inl AttributeError)"

definition subscript :: "json \<Rightarrow> string \<Rightarrow> json result" where
  "subscript v k =
    (case v of JObj d \<Rightarrow> (case dict_get d k of None \<Rightarrow> Inl KeyError | Some x \<Rightarrow> Inr x) | _ \<Rightarrow> Inl TypeError)"

fun float_int :: "pyfloat \<Rightarrow> int result" where
  "float_int (Finite neg m e) =
    Inr (let n = int (m * 2 ^ nat e div 2 ^ nat (- e)) in if neg then - n else n)"
| "float_int (Infinity neg) = Inl OverflowError"
| "float_int NaN = Inl (ValueError (lit ''cannot convert float NaN to integer''))"

fun py_int :: "json \<Rightarrow> int result" where
  "py_int (JInt n) = Inr n"
| "py_int (JBool b) = Inr (if b then 1 else 0)"
| "py_int (JFloat f) = float_int f"
| "py_int (JStr s) = (case py_int_str s of None \<Rightarrow> Inl (ValueError (lit ''invalid literal for int() with base 10'')) | Some n \<Rightarrow> Inr n)"
| "py_int _ = Inl TypeError"

definition json_text :: "json \<Rightarrow> exc_text" where
  "json_text v = (case v of JStr s \<Rightarrow> Text s | _ \<Rightarrow> JsonValue v)"

text \<open>\<open>a or b\<close> on an optional value.\<close>

definition or_else :: "json option \<Rightarrow> exc_text \<Rightarrow> exc_text" where
  "or_else v other = (case v of Some x \<Rightarrow> if truthy x then json_text x else other | None \<Rightarrow> other)"

definition find_error_code :: "pystr \<Rightarrow> DittoErrorCode option" where
  "find_error_code s = List.find (\<lambda>c. lit (error_code_value c) = s) Enum.enum"

definition status_code :: "int \<Rightarrow> DittoErrorCode" where
  "status_code status =
    (if status = 503 then NODE_INACTIVE
     else if status = 504 then WRITE_TIMEOUT
     else if status = 404 then KEY_NOT_FOUND
     else if status = 429 then RATE_LIMITED
     else INTERNAL_ERROR)"

text \<open>The message and the error text of a body.\<close>

definition body_error :: "pystr \<Rightarrow> exc_text \<times> pystr option" where
  "body_error b =
    (case json_loads b of
       Some (JObj d) \<Rightarrow>
         (or_else (dict_get d ''message'') (or_else (dict_get d ''error'') (Text b)),
          case dict_get d ''error'' of Some (JStr e) \<Rightarrow> Some e | _ \<Rightarrow> None)
     | _ \<Rightarrow> (Text b, None))"

definition assert_ok :: "int \<Rightarrow> pystr \<Rightarrow> unit result" where
  "assert_ok status b =
    (if 200 \<le> status \<and> status < 300 then Inr ()
     else (case body_error b of (message, err) \<Rightarrow>
       let code =
         (case err of
            Some e \<Rightarrow> if e \<noteq> [] then (case find_error_code e of Some c \<Rightarrow> Code c | None \<Rightarrow> CodeText e)
                      else Code (status_code status)
          | None \<Rightarrow> Code (status_code status))
       in Inl (DittoError code message)))"

definition url_encode :: "pystr \<Rightarrow> pystr result" where
  "url_encode s = bindR (py_encode s) (\<lambda>raw. Inr (quote_bytes (map unat raw)))"


section \<open>Helpers of the atomic operations and of namespaces\<close>

definition ATOMIC_UNSUPPORTED_STATUSES :: "int list" where
  "ATOMIC_UNSUPPORTED_STATUSES = [400, 404, 501]"

definition namespace_headers :: "pystr option \<Rightarrow> (string \<times> pystr) list option" where
  "namespace_headers ns =
    (case ns of
       None \<Rightarrow> None
     | Some n \<Rightarrow> if py_strip n = [] then None else Some [(''X-Ditto-Namespace'', py_strip n)])"

definition unsupported_atomic_operation_error :: "string \<Rightarrow> py_exc" where
  "unsupported_atomic_operation_error operation =
    DittoError (Code UNSUPPORTED_REQUEST)
      (Text (lit (''UnsupportedRequest: server does not support '' @ operation
        @ ''. Upgrade dittod to a version with atomic primitives.'')))"

definition atomic_http_unsupported_error :: "pystr \<Rightarrow> string \<Rightarrow> py_exc" where
  "atomic_http_unsupported_error b operation =
    (case json_loads b of
       Some (JObj d) \<Rightarrow>
         if dict_get d ''error'' = Some (JStr (lit ''UnsupportedRequest''))
         then DittoError (Code UNSUPPORTED_REQUEST) (or_else (dict_get d ''message'') (Text (lit ''UnsupportedRequest'')))
         else unsupported_atomic_operation_error operation
     | _ \<Rightarrow> unsupported_atomic_operation_error operation)"

definition raise_if_atomic_http_unsupported :: "int \<Rightarrow> pystr \<Rightarrow> string \<Rightarrow> unit result" where
  "raise_if_atomic_http_unsupported status b operation =
    (if status \<notin> set ATOMIC_UNSUPPORTED_STATUSES then Inr ()
     else Inl (atomic_http_unsupported_error b operation))"

text \<open>An exception and its \<open>str\<close>.\<close>

definition normalize_atomic_tcp_error :: "py_exc \<Rightarrow> pystr \<Rightarrow> string \<Rightarrow> py_exc" where
  "normalize_atomic_tcp_error error text operation =
    (case error of
       DittoError code message \<Rightarrow> error
     | _ \<Rightarrow>
         let normalized = py_lower text in
         if py_in (lit ''unsupported'') normalized \<or> py_in (lit ''protocol'') normalized
            \<or> py_in (lit ''decode'') normalized \<or> py_in (lit ''unexpected response'') normalized
            \<or> py_in (lit ''eof'') normalized \<or> py_in (lit ''connection reset'') normalized
         then unsupported_atomic_operation_error operation else error)"


section \<open>Methods\<close>

definition key_path :: "pystr \<Rightarrow> pystr result" where
  "key_path key = bindR (url_encode key) (\<lambda>k. Inr (lit ''/key/'' @ k))"

text \<open>What each method makes of the status and the body.\<close>

definition ping_reply :: "int \<times> pystr \<Rightarrow> bool result" where
  "ping_reply = (\<lambda>(status, b).
    if status \<noteq> 200 then Inr False
    else bindR (json_load b) (\<lambda>data. bindR (dot_get data ''pong'') (\<lambda>v. Inr (v = Some (JBool True)))))"

definition b64_value :: "json \<Rightarrow> bytes result" where
  "b64_value v =
    (case v of
       JStr s \<Rightarrow>
         if \<not> list_all (\<lambda>c. c < 128) s then Inl (ValueError (lit ''string argument should contain only ASCII characters''))
         else (case b64decode s of None \<Rightarrow> Inl BinasciiError | Some bs \<Rightarrow> Inr (map of_nat bs))
     | _ \<Rightarrow> Inl TypeError)"

definition text_value :: "json \<Rightarrow> bytes result" where
  "text_value v = (case v of JStr s \<Rightarrow> py_encode s | _ \<Rightarrow> Inl AttributeError)"

definition get_reply :: "int \<times> pystr \<Rightarrow> json DittoGetResult option result" where
  "get_reply = (\<lambda>(status, b).
    if status = 404 then Inr None
    else bindR (assert_ok status b) (\<lambda>_.
      bindR (json_load b) (\<lambda>data.
      bindR (dot_get data ''value_base64'') (\<lambda>vb.
      bindR (if (case vb of Some v \<Rightarrow> truthy v | None \<Rightarrow> False)
             then bindR (subscript data ''value_base64'') b64_value
             else bindR (subscript data ''value'') text_value) (\<lambda>value.
      bindR (subscript data ''version'') (\<lambda>version.
        Inr (Some \<lparr>get_value = value, get_version = version\<rparr>)))))))"

definition set_reply :: "int \<times> pystr \<Rightarrow> json DittoSetResult result" where
  "set_reply = (\<lambda>(status, b).
    bindR (assert_ok status b) (\<lambda>_. bindR (json_load b) (\<lambda>data.
    bindR (subscript data ''version'') (\<lambda>v. Inr \<lparr>set_version = v\<rparr>))))"

definition set_nx_reply :: "int \<times> pystr \<Rightarrow> DittoSetNxResult result" where
  "set_nx_reply = (\<lambda>(status, b).
    bindR (raise_if_atomic_http_unsupported status b ''SET_NX'') (\<lambda>_.
    bindR (assert_ok status b) (\<lambda>_. bindR (json_load b) (\<lambda>data.
    bindR (subscript data ''created'') (\<lambda>c.
    bindR (bindR (subscript data ''version'') py_int) (\<lambda>v.
      Inr \<lparr>snx_created = truthy c, snx_version = v\<rparr>))))))"

definition incr_reply :: "int \<times> pystr \<Rightarrow> DittoCounterResult result" where
  "incr_reply = (\<lambda>(status, b).
    bindR (raise_if_atomic_http_unsupported status b ''INCR'') (\<lambda>_.
    bindR (assert_ok status b) (\<lambda>_. bindR (json_load b) (\<lambda>data.
    bindR (bindR (subscript data ''value'') py_int) (\<lambda>n.
    bindR (bindR (subscript data ''version'') py_int) (\<lambda>v.
      Inr \<lparr>ctr_value = n, ctr_version = v\<rparr>))))))"

definition delete_reply :: "int \<times> pystr \<Rightarrow> bool result" where
  "delete_reply = (\<lambda>(status, b).
    if status = 404 then Inr False
    else if status = 204 then Inr True
    else bindR (assert_ok status b) (\<lambda>_. Inr True))"

definition delete_by_pattern_reply :: "int \<times> pystr \<Rightarrow> json DittoDeleteByPatternResult result" where
  "delete_by_pattern_reply = (\<lambda>(status, b).
    bindR (assert_ok status b) (\<lambda>_. bindR (json_load b) (\<lambda>data.
    bindR (subscript data ''deleted'') (\<lambda>v. Inr \<lparr>dbp_deleted = v\<rparr>))))"

definition set_ttl_by_pattern_reply :: "int \<times> pystr \<Rightarrow> json DittoSetTtlByPatternResult result" where
  "set_ttl_by_pattern_reply = (\<lambda>(status, b).
    bindR (assert_ok status b) (\<lambda>_. bindR (json_load b) (\<lambda>data.
    bindR (subscript data ''updated'') (\<lambda>v. Inr \<lparr>stbp_updated = v\<rparr>))))"

definition http_ping :: "http_config \<Rightarrow> bool http_op" where
  "http_ping cfg = thenS (request cfg (get_args (lit ''/ping''))) (\<lambda>r. liftR (ping_reply r))"

definition http_get :: "http_config \<Rightarrow> pystr \<Rightarrow> pystr option \<Rightarrow> json DittoGetResult option http_op" where
  "http_get cfg key ns =
    thenS (liftR (validate_core_inputs (http_strict cfg) ''get'' (Some key) ns)) (\<lambda>_.
    thenS (liftR (bindR (key_path key) (\<lambda>p. Inr ((get_args p)\<lparr>extra_headers := namespace_headers ns\<rparr>)))) (\<lambda>a.
    thenS (request cfg a) (\<lambda>r. liftR (get_reply r))))"

definition set_args :: "pystr \<Rightarrow> pystr \<Rightarrow> int \<Rightarrow> pystr option \<Rightarrow> call_args result" where
  "set_args key value ttl_secs ns =
    bindR (key_path key) (\<lambda>p.
    let p' = (if ttl_secs > 0 then p @ lit ''?ttl='' @ py_str_int ttl_secs else p) in
    bindR (py_encode value) (\<lambda>raw.
      Inr \<lparr>path = p', verb = ''PUT'', body = Some raw, content_type = Some ''text/plain'',
           extra_headers = namespace_headers ns\<rparr>))"

definition http_set :: "http_config \<Rightarrow> pystr \<Rightarrow> pystr \<Rightarrow> int \<Rightarrow> pystr option \<Rightarrow> json DittoSetResult http_op" where
  "http_set cfg key value ttl_secs ns =
    thenS (liftR (validate_core_inputs (http_strict cfg) ''set'' (Some key) ns)) (\<lambda>_.
    thenS (liftR (set_args key value ttl_secs ns)) (\<lambda>a.
    thenS (request cfg a) (\<lambda>r. liftR (set_reply r))))"

definition set_nx_args :: "pystr \<Rightarrow> py_value \<Rightarrow> int \<Rightarrow> pystr option \<Rightarrow> call_args result" where
  "set_nx_args key value ttl_secs ns =
    bindR (key_path key) (\<lambda>p.
    let p1 = p @ lit ''?nx=1'';
        p' = (if ttl_secs > 0 then p1 @ lit ''&ttl='' @ py_str_int ttl_secs else p1) in
    bindR (raw_value value) (\<lambda>raw.
      Inr \<lparr>path = p', verb = ''POST'', body = Some raw, content_type = Some ''application/octet-stream'',
           extra_headers = namespace_headers ns\<rparr>))"

definition http_set_nx ::
  "http_config \<Rightarrow> pystr \<Rightarrow> py_value \<Rightarrow> int \<Rightarrow> pystr option \<Rightarrow> DittoSetNxResult http_op" where
  "http_set_nx cfg key value ttl_secs ns =
    thenS (liftR (validate_core_inputs (http_strict cfg) ''set'' (Some key) ns)) (\<lambda>_.
    thenS (liftR (set_nx_args key value ttl_secs ns)) (\<lambda>a.
    thenS (request cfg a) (\<lambda>r. liftR (set_nx_reply r))))"

text \<open>\<open>json.dumps(obj).encode("utf-8")\<close> as the body of a POST.\<close>

definition json_post :: "pystr \<Rightarrow> (pystr \<times> scalar) list \<Rightarrow> pystr option \<Rightarrow> call_args result" where
  "json_post p obj ns =
    bindR (py_encode (json_dumps obj)) (\<lambda>payload.
      Inr \<lparr>path = p, verb = ''POST'', body = Some payload, content_type = Some ''application/json'',
           extra_headers = namespace_headers ns\<rparr>)"

definition incr_args :: "pystr \<Rightarrow> int \<Rightarrow> int \<Rightarrow> pystr option \<Rightarrow> call_args result" where
  "incr_args key delta ttl_secs_on_create ns =
    (let obj = [(lit ''delta'', SStr (py_str_int delta))]
       @ (if ttl_secs_on_create > 0 then [(lit ''ttl_secs_on_create'', SInt ttl_secs_on_create)] else [])
     in bindR (key_path key) (\<lambda>p. json_post (p @ lit ''/incr'') obj ns))"

definition http_incr :: "http_config \<Rightarrow> pystr \<Rightarrow> int \<Rightarrow> int \<Rightarrow> pystr option \<Rightarrow> DittoCounterResult http_op" where
  "http_incr cfg key delta ttl_secs_on_create ns =
    thenS (liftR (validate_core_inputs (http_strict cfg) ''set'' (Some key) ns)) (\<lambda>_.
    thenS (liftR (incr_args key delta ttl_secs_on_create ns)) (\<lambda>a.
    thenS (request cfg a) (\<lambda>r. liftR (incr_reply r))))"

definition http_delete :: "http_config \<Rightarrow> pystr \<Rightarrow> pystr option \<Rightarrow> bool http_op" where
  "http_delete cfg key ns =
    thenS (liftR (validate_core_inputs (http_strict cfg) ''delete'' (Some key) ns)) (\<lambda>_.
    thenS (liftR (bindR (key_path key) (\<lambda>p.
      Inr ((get_args p)\<lparr>verb := ''DELETE'', extra_headers := namespace_headers ns\<rparr>)))) (\<lambda>a.
    thenS (request cfg a) (\<lambda>r. liftR (delete_reply r))))"

definition http_delete_by_pattern ::
  "http_config \<Rightarrow> pystr \<Rightarrow> pystr option \<Rightarrow> json DittoDeleteByPatternResult http_op" where
  "http_delete_by_pattern cfg pattern ns =
    thenS (liftR (validate_pattern_inputs (http_strict cfg) ''delete_by_pattern'' (Some pattern) ns)) (\<lambda>_.
    thenS (liftR (json_post (lit ''/keys/delete-by-pattern'') [(lit ''pattern'', SStr pattern)] ns)) (\<lambda>a.
    thenS (request cfg a) (\<lambda>r. liftR (delete_by_pattern_reply r))))"

definition ttl_object :: "pystr \<Rightarrow> int \<Rightarrow> (pystr \<times> scalar) list" where
  "ttl_object pattern ttl_secs =
    [(lit ''pattern'', SStr pattern)] @ (if ttl_secs > 0 then [(lit ''ttl_secs'', SInt ttl_secs)] else [])"

definition http_set_ttl_by_pattern ::
  "http_config \<Rightarrow> pystr \<Rightarrow> int \<Rightarrow> pystr option \<Rightarrow> json DittoSetTtlByPatternResult http_op" where
  "http_set_ttl_by_pattern cfg pattern ttl_secs ns =
    thenS (liftR (validate_pattern_inputs (http_strict cfg) ''set_ttl_by_pattern'' (Some pattern) ns)) (\<lambda>_.
    thenS (liftR (json_post (lit ''/keys/ttl-by-pattern'') (ttl_object pattern ttl_secs) ns)) (\<lambda>a.
    thenS (request cfg a) (\<lambda>r. liftR (set_ttl_by_pattern_reply r))))"

text \<open>The defaults of the data class, then the known fields of the body.\<close>

definition default_stats :: DittoStatsResult where
  "default_stats = \<lparr>st_node_id = JStr [], st_status = JStr [], st_is_primary = JBool False,
    st_committed_index = JInt 0, st_key_count = JInt 0, st_memory_used_bytes = JInt 0,
    st_memory_max_bytes = JInt 0, st_evictions = JInt 0, st_hit_count = JInt 0, st_miss_count = JInt 0,
    st_uptime_secs = JInt 0, st_value_size_limit_bytes = JInt 0, st_max_keys_limit = JInt 0,
    st_compression_enabled = JBool False, st_compression_threshold_bytes = JInt 0,
    st_node_name = JStr [], st_backup_dir_bytes = JInt 0\<rparr>"

definition field_or :: "(pystr \<times> json) list \<Rightarrow> string \<Rightarrow> json \<Rightarrow> json" where
  "field_or d k v0 = (case dict_get d k of Some v \<Rightarrow> v | None \<Rightarrow> v0)"

definition stats_of :: "(pystr \<times> json) list \<Rightarrow> DittoStatsResult" where
  "stats_of d = \<lparr>
    st_node_id = field_or d ''node_id'' (st_node_id default_stats),
    st_status = field_or d ''status'' (st_status default_stats),
    st_is_primary = field_or d ''is_primary'' (st_is_primary default_stats),
    st_committed_index = field_or d ''committed_index'' (st_committed_index default_stats),
    st_key_count = field_or d ''key_count'' (st_key_count default_stats),
    st_memory_used_bytes = field_or d ''memory_used_bytes'' (st_memory_used_bytes default_stats),
    st_memory_max_bytes = field_or d ''memory_max_bytes'' (st_memory_max_bytes default_stats),
    st_evictions = field_or d ''evictions'' (st_evictions default_stats),
    st_hit_count = field_or d ''hit_count'' (st_hit_count default_stats),
    st_miss_count = field_or d ''miss_count'' (st_miss_count default_stats),
    st_uptime_secs = field_or d ''uptime_secs'' (st_uptime_secs default_stats),
    st_value_size_limit_bytes = field_or d ''value_size_limit_bytes'' (st_value_size_limit_bytes default_stats),
    st_max_keys_limit = field_or d ''max_keys_limit'' (st_max_keys_limit default_stats),
    st_compression_enabled = field_or d ''compression_enabled'' (st_compression_enabled default_stats),
    st_compression_threshold_bytes = field_or d ''compression_threshold_bytes'' (st_compression_threshold_bytes default_stats),
    st_node_name = field_or d ''node_name'' (st_node_name default_stats),
    st_backup_dir_bytes = field_or d ''backup_dir_bytes'' (st_backup_dir_bytes default_stats)\<rparr>"

definition stats_reply :: "int \<times> pystr \<Rightarrow> DittoStatsResult result" where
  "stats_reply = (\<lambda>(status, b).
    bindR (assert_ok status b) (\<lambda>_. bindR (json_load b) (\<lambda>data.
      (case data of JObj d \<Rightarrow> Inr (stats_of d) | _ \<Rightarrow> Inl AttributeError))))"

definition http_stats :: "http_config \<Rightarrow> DittoStatsResult http_op" where
  "http_stats cfg = thenS (request cfg (get_args (lit ''/stats''))) (\<lambda>r. liftR (stats_reply r))"

section \<open>The client as a context manager\<close>

text \<open>\<open>with DittoHttpClient(...) as client: body\<close>; there is no connection to open or to close.\<close>

definition http_enter :: "unit http_op" where
  "http_enter = returnS ()"

definition http_close :: "unit http_op" where
  "http_close = returnS ()"

definition http_exit :: "unit http_op" where
  "http_exit = http_close"

definition http_with :: "'a http_op \<Rightarrow> 'a http_op" where
  "http_with block = thenS http_enter (\<lambda>_ s. case block s of (r, s1) \<Rightarrow> thenS http_exit (\<lambda>_. liftR r) s1)"

lemma http_with_transparent: "http_with block = block"
  by (rule ext) (simp add: http_with_def http_enter_def http_exit_def http_close_def thenS_def returnS_def liftR_def)

end
