(* ===== verification/Http_Calls.thy ===== *)
theory Http_Calls
  imports Http_Client
begin

text \<open>
  What the methods of the HTTP client send and return. They share one shape, the locale
  \<open>http_call\<close>: check, build the arguments of a request, send it, read the reply.
\<close>

section \<open>The shape of a method\<close>

lemma request_steps: "request cfg a s =
  (case header_error (req_headers (build_request cfg a)) of
     Some e \<Rightarrow> (Inl e, s)
   | None \<Rightarrow>
       (case replies s of
          [] \<Rightarrow> (Inl (OSError None), s\<lparr>sent_requests := sent_requests s @ [build_request cfg a]\<rparr>)
        | r # rs \<Rightarrow> (reply_text r, s\<lparr>replies := rs, sent_requests := sent_requests s @ [build_request cfg a]\<rparr>)))"
  by (cases "header_error (req_headers (build_request cfg a))"; cases "replies s")
     (simp_all add: request_def urlopen_def thenS_def liftR_def Let_def)

locale http_call =
  fixes cfg :: http_config
    and check :: "unit result"
    and args :: "call_args result"
    and post :: "int \<times> pystr \<Rightarrow> 'a result"
    and call :: "'a http_op"
  assumes call_eq: "call = thenS (liftR check) (\<lambda>_. thenS (liftR args) (\<lambda>a. thenS (request cfg a) (\<lambda>r. liftR (post r))))"
begin

lemma steps: "call s =
  (case bindR check (\<lambda>_. args) of
     Inl e \<Rightarrow> (Inl e, s)
   | Inr a \<Rightarrow> (case request cfg a s of (r, s') \<Rightarrow> (bindR r post, s')))"
  by (cases check; cases args; cases "fst (request cfg (projr args) s)")
     (auto simp: call_eq thenS_def liftR_def split: prod.split)

lemma refused: "check = Inl e \<Longrightarrow> call s = (Inl e, s)"
  by (simp add: steps)

lemma one_request:
  "\<exists>reqs. sent_requests (snd (call s)) = sent_requests s @ reqs \<and>
    (reqs = [] \<or> (\<exists>a. check = Inr () \<and> args = Inr a \<and> reqs = [build_request cfg a]))"
  by (cases check; cases args)
     (auto simp: steps request_steps split: option.split list.split)

lemma answered:
  "check = Inr () \<Longrightarrow> args = Inr a \<Longrightarrow> header_error (req_headers (build_request cfg a)) = None \<Longrightarrow> replies s = r # rs \<Longrightarrow>
   call s = (bindR (reply_text r) post, s\<lparr>replies := rs, sent_requests := sent_requests s @ [build_request cfg a]\<rparr>)"
  by (simp add: steps request_steps)

lemma mapped: "http_call cfg check args (\<lambda>r. bindR (post r) (\<lambda>x. Inr (f x))) (thenS call (\<lambda>x. returnS (f x)))"
proof
  show "thenS call (\<lambda>x. returnS (f x)) = thenS (liftR check) (\<lambda>_. thenS (liftR args) (\<lambda>a. thenS (request cfg a)
      (\<lambda>r. liftR (bindR (post r) (\<lambda>x. Inr (f x))))))"
  proof (rule ext)
    fix s
    show "thenS call (\<lambda>x. returnS (f x)) s = thenS (liftR check) (\<lambda>_. thenS (liftR args) (\<lambda>a. thenS (request cfg a)
        (\<lambda>r. liftR (bindR (post r) (\<lambda>x. Inr (f x)))))) s"
      unfolding call_eq by (auto simp: thenS_def liftR_def returnS_def split: prod.split sum.split)
  qed
qed

end

abbreviation http_core :: "http_config \<Rightarrow> string \<Rightarrow> pystr \<Rightarrow> pystr option \<Rightarrow> unit result" where
  "http_core cfg op key ns \<equiv> validate_core_inputs (http_strict cfg) op (Some key) ns"

abbreviation http_pattern :: "http_config \<Rightarrow> string \<Rightarrow> pystr \<Rightarrow> pystr option \<Rightarrow> unit result" where
  "http_pattern cfg op p ns \<equiv> validate_pattern_inputs (http_strict cfg) op (Some p) ns"

lemma thenS_liftR_Inr: "thenS (liftR (Inr x)) f = f x"
  by (rule ext) (simp add: thenS_def liftR_def)

interpretation hping: http_call cfg "Inr ()" "Inr (get_args (lit ''/ping''))" ping_reply "http_ping cfg"
  for cfg
  by unfold_locales (simp add: http_ping_def thenS_liftR_Inr)

interpretation hget: http_call cfg "http_core cfg ''get'' key ns"
    "bindR (key_path key) (\<lambda>p. Inr ((get_args p)\<lparr>extra_headers := namespace_headers ns\<rparr>))" get_reply "http_get cfg key ns"
  for cfg key ns
  by unfold_locales (simp add: http_get_def)

interpretation hset: http_call cfg "http_core cfg ''set'' key ns" "set_args key v ttl ns" set_reply "http_set cfg key v ttl ns"
  for cfg key v ttl ns
  by unfold_locales (simp add: http_set_def)

interpretation hset_nx: http_call cfg "http_core cfg ''set'' key ns" "set_nx_args key v ttl ns" set_nx_reply
    "http_set_nx cfg key v ttl ns"
  for cfg key v ttl ns
  by unfold_locales (simp add: http_set_nx_def)

interpretation hincr: http_call cfg "http_core cfg ''set'' key ns" "incr_args key delta ttl ns" incr_reply
    "http_incr cfg key delta ttl ns"
  for cfg key delta ttl ns
  by unfold_locales (simp add: http_incr_def)

interpretation hdelete: http_call cfg "http_core cfg ''delete'' key ns"
    "bindR (key_path key) (\<lambda>p. Inr ((get_args p)\<lparr>verb := ''DELETE'', extra_headers := namespace_headers ns\<rparr>))"
    delete_reply "http_delete cfg key ns"
  for cfg key ns
  by unfold_locales (simp add: http_delete_def)

interpretation hdelete_by_pattern: http_call cfg "http_pattern cfg ''delete_by_pattern'' p ns"
    "json_post (lit ''/keys/delete-by-pattern'') [(lit ''pattern'', SStr p)] ns" delete_by_pattern_reply
    "http_delete_by_pattern cfg p ns"
  for cfg p ns
  by unfold_locales (simp add: http_delete_by_pattern_def)

interpretation hset_ttl: http_call cfg "http_pattern cfg ''set_ttl_by_pattern'' p ns"
    "json_post (lit ''/keys/ttl-by-pattern'') (ttl_object p ttl) ns" set_ttl_by_pattern_reply
    "http_set_ttl_by_pattern cfg p ttl ns"
  for cfg p ttl ns
  by unfold_locales (simp add: http_set_ttl_by_pattern_def)

interpretation hstats: http_call cfg "Inr ()" "Inr (get_args (lit ''/stats''))" stats_reply "http_stats cfg"
  for cfg
  by unfold_locales (simp add: http_stats_def thenS_liftR_Inr)


section \<open>All methods as data\<close>

datatype http_api =
    HPing
  | HGet pystr "pystr option"
  | HSet pystr pystr int "pystr option"
  | HSetNx pystr py_value int "pystr option"
  | HIncr pystr int int "pystr option"
  | HDelete pystr "pystr option"
  | HDeleteByPattern pystr "pystr option"
  | HSetTtlByPattern pystr int "pystr option"
  | HStats

datatype http_result =
    HFlag bool
  | HFound "json DittoGetResult option"
  | HStored "json DittoSetResult"
  | HCreated DittoSetNxResult
  | HCounted DittoCounterResult
  | HRemoved "json DittoDeleteByPatternResult"
  | HUpdated "json DittoSetTtlByPatternResult"
  | HStatsOf DittoStatsResult

fun http_perform :: "http_config \<Rightarrow> http_api \<Rightarrow> http_result http_op" where
  "http_perform cfg HPing = thenS (http_ping cfg) (\<lambda>x. returnS (HFlag x))"
| "http_perform cfg (HGet k ns) = thenS (http_get cfg k ns) (\<lambda>x. returnS (HFound x))"
| "http_perform cfg (HSet k v ttl ns) = thenS (http_set cfg k v ttl ns) (\<lambda>x. returnS (HStored x))"
| "http_perform cfg (HSetNx k v ttl ns) = thenS (http_set_nx cfg k v ttl ns) (\<lambda>x. returnS (HCreated x))"
| "http_perform cfg (HIncr k d ttl ns) = thenS (http_incr cfg k d ttl ns) (\<lambda>x. returnS (HCounted x))"
| "http_perform cfg (HDelete k ns) = thenS (http_delete cfg k ns) (\<lambda>x. returnS (HFlag x))"
| "http_perform cfg (HDeleteByPattern p ns) = thenS (http_delete_by_pattern cfg p ns) (\<lambda>x. returnS (HRemoved x))"
| "http_perform cfg (HSetTtlByPattern p ttl ns) = thenS (http_set_ttl_by_pattern cfg p ttl ns) (\<lambda>x. returnS (HUpdated x))"
| "http_perform cfg HStats = thenS (http_stats cfg) (\<lambda>x. returnS (HStatsOf x))"

fun http_check :: "http_config \<Rightarrow> http_api \<Rightarrow> unit result" where
  "http_check cfg HPing = Inr ()"
| "http_check cfg (HGet k ns) = http_core cfg ''get'' k ns"
| "http_check cfg (HSet k v ttl ns) = http_core cfg ''set'' k ns"
| "http_check cfg (HSetNx k v ttl ns) = http_core cfg ''set'' k ns"
| "http_check cfg (HIncr k d ttl ns) = http_core cfg ''set'' k ns"
| "http_check cfg (HDelete k ns) = http_core cfg ''delete'' k ns"
| "http_check cfg (HDeleteByPattern p ns) = http_pattern cfg ''delete_by_pattern'' p ns"
| "http_check cfg (HSetTtlByPattern p ttl ns) = http_pattern cfg ''set_ttl_by_pattern'' p ns"
| "http_check cfg HStats = Inr ()"

fun http_args :: "http_api \<Rightarrow> call_args result" where
  "http_args HPing = Inr (get_args (lit ''/ping''))"
| "http_args (HGet k ns) = bindR (key_path k) (\<lambda>p. Inr ((get_args p)\<lparr>extra_headers := namespace_headers ns\<rparr>))"
| "http_args (HSet k v ttl ns) = set_args k v ttl ns"
| "http_args (HSetNx k v ttl ns) = set_nx_args k v ttl ns"
| "http_args (HIncr k d ttl ns) = incr_args k d ttl ns"
| "http_args (HDelete k ns) =
    bindR (key_path k) (\<lambda>p. Inr ((get_args p)\<lparr>verb := ''DELETE'', extra_headers := namespace_headers ns\<rparr>))"
| "http_args (HDeleteByPattern p ns) = json_post (lit ''/keys/delete-by-pattern'') [(lit ''pattern'', SStr p)] ns"
| "http_args (HSetTtlByPattern p ttl ns) = json_post (lit ''/keys/ttl-by-pattern'') (ttl_object p ttl) ns"
| "http_args HStats = Inr (get_args (lit ''/stats''))"

fun http_post :: "http_api \<Rightarrow> int \<times> pystr \<Rightarrow> http_result result" where
  "http_post HPing r = bindR (ping_reply r) (\<lambda>x. Inr (HFlag x))"
| "http_post (HGet k ns) r = bindR (get_reply r) (\<lambda>x. Inr (HFound x))"
| "http_post (HSet k v ttl ns) r = bindR (set_reply r) (\<lambda>x. Inr (HStored x))"
| "http_post (HSetNx k v ttl ns) r = bindR (set_nx_reply r) (\<lambda>x. Inr (HCreated x))"
| "http_post (HIncr k d ttl ns) r = bindR (incr_reply r) (\<lambda>x. Inr (HCounted x))"
| "http_post (HDelete k ns) r = bindR (delete_reply r) (\<lambda>x. Inr (HFlag x))"
| "http_post (HDeleteByPattern p ns) r = bindR (delete_by_pattern_reply r) (\<lambda>x. Inr (HRemoved x))"
| "http_post (HSetTtlByPattern p ttl ns) r = bindR (set_ttl_by_pattern_reply r) (\<lambda>x. Inr (HUpdated x))"
| "http_post HStats r = bindR (stats_reply r) (\<lambda>x. Inr (HStatsOf x))"

lemmas http_mapped = hping.mapped hget.mapped hset.mapped hset_nx.mapped hincr.mapped hdelete.mapped
  hdelete_by_pattern.mapped hset_ttl.mapped hstats.mapped

interpretation http_api: http_call cfg "http_check cfg a" "http_args a" "http_post a" "http_perform cfg a"
  for cfg a
proof -
  show "http_call cfg (http_check cfg a) (http_args a) (http_post a) (http_perform cfg a)"
    using http_mapped by (cases a) (simp_all add: http_post.simps [abs_def])
qed

end
