(* ===== verification/Http_Wire.thy ===== *)
theory Http_Wire
  imports Http_Calls
begin

text \<open>
  What a server reads in the requests of the HTTP client: the path, the query, the headers and
  the JSON bodies give back the call. The reading uses the rules of URLs (the query starts at the
  first question mark, segments end at slashes, percent escapes are bytes of UTF-8), of header
  fields and of JSON, not the client's code.
\<close>

section \<open>Texts on the wire\<close>

lemma ascii_encodable: "list_all (\<lambda>c. c < 128) s \<Longrightarrow> encodable s"
  by (auto simp: encodable_def list_all_iff encodable_cp_def is_surrogate_def dest!: bspec)

lemma unat_utf8_bytes: "encodable s \<Longrightarrow> map unat (utf8_bytes s) = concat (map utf8_cp s)"
  using map_unat_of_nat [OF utf8_concat_bytes] by (simp add: utf8_bytes_def comp_def)

lemma bytes_small: "list_all (\<lambda>b. b < 256) (map unat (bs :: bytes))"
  by (simp add: list_all_iff)

lemma utf8_dec_bytes: "encodable s \<Longrightarrow> utf8_dec (map unat (utf8_bytes s)) = Some s"
  using utf8_roundtrip by (simp add: utf8_decode_opt_def)

lemma hex_digit_ascii: "n < 16 \<Longrightarrow> hex_digit n < 128"
  by (simp add: hex_digit_def)

lemma u_escape_ascii: "u < 0x10000 \<Longrightarrow> list_all (\<lambda>c. c < 128) (u_escape u)"
  by (simp add: u_escape_def hex_digit_ascii less_mult_imp_div_less)

lemma esc_ascii:
  assumes "encodable_cp c"
  shows "list_all (\<lambda>c. c < 128) (esc_cp c)"
proof -
  have "c < 0x110000" using assms by (simp add: encodable_cp_def)
  then have "(c - 0x10000) div 1024 < 1024" "(c - 0x10000) mod 1024 < 1024"
    by (auto intro!: less_mult_imp_div_less)
  then show ?thesis by (simp add: esc_cp_def u_escape_ascii)
qed

lemma dumps_str_ascii: "encodable s \<Longrightarrow> list_all (\<lambda>c. c < 128) (dumps_str s)"
  using esc_ascii by (auto simp: dumps_str_def encodable_def list_all_iff)

lemma py_str_int_ascii: "list_all (\<lambda>c. c < 128) (py_str_int n)"
  using digits_nat_digits(1) [of "nat n"] digits_nat_digits(1) [of "nat (- n)"]
  by (auto simp: py_str_int_def is_digit_def list_all_iff)

lemma dumps_scalar_ascii: "scalar_ok v \<Longrightarrow> list_all (\<lambda>c. c < 128) (dumps_scalar v)"
  by (cases v) (simp_all add: dumps_str_ascii py_str_int_ascii)

lemma dumps_pairs_ascii:
  "list_all (\<lambda>(k, v). encodable k \<and> scalar_ok v) ps \<Longrightarrow> list_all (\<lambda>c. c < 128) (dumps_pairs ps)"
  by (induction ps rule: dumps_pairs.induct) (simp_all add: dumps_str_ascii dumps_scalar_ascii lit_def)

lemma json_dumps_ascii:
  "list_all (\<lambda>(k, v). encodable k \<and> scalar_ok v) ps \<Longrightarrow> list_all (\<lambda>c. c < 128) (json_dumps ps)"
  by (simp add: json_dumps_def dumps_pairs_ascii lit_def)

lemmas json_dumps_encodable = ascii_encodable [OF json_dumps_ascii]

lemma lit_encodable: "list_all (\<lambda>c. of_char c < (128 :: nat)) s \<Longrightarrow> encodable (lit s)"
  by (rule ascii_encodable) (simp add: lit_def list_all_iff)

lemma decimal_digit_ascii: "is_digit c \<Longrightarrow> decimal_digit c = Some (c - 48)"
  by (simp add: decimal_digit_def decimal_zeros_def is_digit_def)

lemma int_digits_ascii:
  "list_all is_digit ds \<Longrightarrow> int_digits ds after n =
    (if ds = [] then if after then Some n else None else Some (foldl (\<lambda>n d. n * 10 + (d - 48)) n ds))"
proof (induction ds arbitrary: after n)
  case (Cons d ds)
  have "d \<noteq> 95" using Cons.prems by (auto simp: is_digit_def)
  with Cons show ?case by (auto simp: decimal_digit_ascii)
qed simp

lemma py_int_str_int: "py_int_str (py_str_int n) = Some n"
proof -
  let ?ds = "digits_nat (nat \<bar>n\<bar>)"
  obtain d ds where dd: "?ds = d # ds" using digits_nat_digits(2) [of "nat \<bar>n\<bar>"] by (cases ?ds) auto
  have all: "list_all is_digit ?ds" by (rule digits_nat_digits)
  have no_space: "\<not> int_space c" if "c = 45 \<or> is_digit c" for c
    using that by (auto simp: int_space_def is_space_def is_digit_def)
  have strip: "rev (dropWhile int_space (rev (dropWhile int_space s))) = s" if "\<forall>c \<in> set s. c = 45 \<or> is_digit c" for s
  proof -
    have "dropWhile int_space t = t" if "\<forall>c \<in> set t. c = 45 \<or> is_digit c" for t
      using that no_space by (cases t) auto
    from this [of s] this [of "rev s"] that show ?thesis by simp
  qed
  have "is_digit d" using all dd by simp
  then have d: "d \<noteq> 45" "d \<noteq> 43" by (auto simp: is_digit_def)
  have num: "int_digits ?ds False 0 = Some (nat \<bar>n\<bar>)"
    using all dd digits_value_digits [of "nat \<bar>n\<bar>"] by (simp add: int_digits_ascii digits_value_def del: int_digits.simps)
  show ?thesis
  proof (cases "n < 0")
    case True
    then show ?thesis
      using all num strip [of "45 # ?ds"] by (simp add: py_int_str_def py_str_int_def list_all_iff)
  next
    case False
    then show ?thesis
      using all num strip [of ?ds] d dd by (simp add: py_int_str_def py_str_int_def list_all_iff)
  qed
qed

section \<open>A server's reading of a request\<close>

datatype request_view =
    ViewPing
  | ViewStats
  | ViewGet pystr "pystr option"
  | ViewDelete pystr "pystr option"
  | ViewPut pystr bytes "int option" "pystr option"
  | ViewCreate pystr bytes "int option" "pystr option"
  | ViewIncr pystr int "int option" "pystr option"
  | ViewDeletePattern pystr "pystr option"
  | ViewTtlPattern pystr "int option" "pystr option"

text \<open>The text before the first separator, and the text behind it if there is one.\<close>

definition split_first :: "nat \<Rightarrow> pystr \<Rightarrow> pystr \<times> pystr option" where
  "split_first c s =
    (takeWhile (\<lambda>x. x \<noteq> c) s, case dropWhile (\<lambda>x. x \<noteq> c) s of [] \<Rightarrow> None | x # r \<Rightarrow> Some r)"

fun query_param :: "string \<Rightarrow> pystr option list \<Rightarrow> pystr option" where
  "query_param k [] = None"
| "query_param k (None # ps) = query_param k ps"
| "query_param k (Some p # ps) =
    (if fst (split_first 61 p) = lit k then snd (split_first 61 p) else query_param k ps)"

definition query_pieces :: "pystr option \<Rightarrow> pystr option list" where
  "query_pieces q =
    (case q of None \<Rightarrow> [] | Some t \<Rightarrow> (case split_first 38 t of (p, r) \<Rightarrow> [Some p, r]))"

definition query_int :: "string \<Rightarrow> pystr option \<Rightarrow> int option" where
  "query_int k q = Option.bind (query_param k (query_pieces q)) py_int_str"

definition read_segment :: "pystr \<Rightarrow> pystr option" where
  "read_segment seg = Option.bind (pct_decode seg) utf8_dec"

definition read_object :: "bytes option \<Rightarrow> (pystr \<times> json) list option" where
  "read_object b =
    Option.bind b (\<lambda>bs. Option.bind (utf8_decode_opt bs) (\<lambda>t.
      case json_loads t of Some (JObj d) \<Rightarrow> Some d | _ \<Rightarrow> None))"

definition member_str :: "(pystr \<times> json) list \<Rightarrow> string \<Rightarrow> pystr option" where
  "member_str d k = (case dict_get d k of Some (JStr s) \<Rightarrow> Some s | _ \<Rightarrow> None)"

definition member_int :: "(pystr \<times> json) list \<Rightarrow> string \<Rightarrow> int option" where
  "member_int d k = (case dict_get d k of Some (JInt n) \<Rightarrow> Some n | _ \<Rightarrow> None)"

text \<open>The requests on one key: the verb, what follows the key in the path, and the query.\<close>

definition key_request ::
  "string \<Rightarrow> pystr option \<Rightarrow> pystr option \<Rightarrow> bytes option \<Rightarrow> pystr option \<Rightarrow> pystr \<Rightarrow> request_view option" where
  "key_request v sub q b ns k =
    (if sub = Some (lit ''incr'') \<and> v = ''POST'' then
       Option.bind (read_object b) (\<lambda>d. Option.bind (member_str d ''delta'') (\<lambda>t. Option.bind (py_int_str t) (\<lambda>n.
         Some (ViewIncr k n (member_int d ''ttl_secs_on_create'') ns))))
     else if sub \<noteq> None then None
     else if v = ''GET'' then Some (ViewGet k ns)
     else if v = ''DELETE'' then Some (ViewDelete k ns)
     else if v = ''PUT'' then map_option (\<lambda>bs. ViewPut k bs (query_int ''ttl'' q) ns) b
     else if v = ''POST'' \<and> query_int ''nx'' q = Some 1 then map_option (\<lambda>bs. ViewCreate k bs (query_int ''ttl'' q) ns) b
     else None)"

definition target_request ::
  "string \<Rightarrow> pystr \<times> pystr option \<Rightarrow> bytes option \<Rightarrow> pystr option \<Rightarrow> request_view option" where
  "target_request v t b ns =
    (if v = ''GET'' \<and> fst t = lit ''/ping'' then Some ViewPing
     else if v = ''GET'' \<and> fst t = lit ''/stats'' then Some ViewStats
     else if v = ''POST'' \<and> fst t = lit ''/keys/delete-by-pattern'' then
       Option.bind (read_object b) (\<lambda>d. map_option (\<lambda>p. ViewDeletePattern p ns) (member_str d ''pattern''))
     else if v = ''POST'' \<and> fst t = lit ''/keys/ttl-by-pattern'' then
       Option.bind (read_object b) (\<lambda>d. map_option (\<lambda>p. ViewTtlPattern p (member_int d ''ttl_secs'') ns) (member_str d ''pattern''))
     else Option.bind (j_word ''/key/'' (fst t)) (\<lambda>p.
       Option.bind (read_segment (fst (split_first 47 p))) (key_request v (snd (split_first 47 p)) (snd t) b ns)))"

definition read_request :: "pystr \<Rightarrow> http_request \<Rightarrow> request_view option" where
  "read_request base req =
    (if take (length base) (url req) \<noteq> base then None
     else target_request (req_verb req) (split_first 63 (drop (length base) (url req))) (req_body req)
            (map_of (req_headers req) ''X-Ditto-Namespace''))"

text \<open>What a call means to ask for: blank namespaces and times to live that are not positive are left out.\<close>

definition ttl_view :: "int \<Rightarrow> int option" where
  "ttl_view n = (if n > 0 then Some n else None)"

definition ns_view :: "pystr option \<Rightarrow> pystr option" where
  "ns_view ns = (case ns of None \<Rightarrow> None | Some n \<Rightarrow> if py_strip n = [] then None else Some (py_strip n))"

fun http_view :: "http_api \<Rightarrow> request_view" where
  "http_view HPing = ViewPing"
| "http_view HStats = ViewStats"
| "http_view (HGet k ns) = ViewGet k (ns_view ns)"
| "http_view (HDelete k ns) = ViewDelete k (ns_view ns)"
| "http_view (HSet k v ttl ns) = ViewPut k (utf8_bytes v) (ttl_view ttl) (ns_view ns)"
| "http_view (HSetNx k v ttl ns) =
    ViewCreate k (case v of StrVal s \<Rightarrow> utf8_bytes s | BytesVal b \<Rightarrow> b) (ttl_view ttl) (ns_view ns)"
| "http_view (HIncr k d ttl ns) = ViewIncr k d (ttl_view ttl) (ns_view ns)"
| "http_view (HDeleteByPattern p ns) = ViewDeletePattern p (ns_view ns)"
| "http_view (HSetTtlByPattern p ttl ns) = ViewTtlPattern p (ttl_view ttl) (ns_view ns)"

text \<open>\<open>json.dumps\<close> writes lone surrogates as escapes, so only the patterns must be texts.\<close>

fun pattern_text :: "http_api \<Rightarrow> bool" where
  "pattern_text (HDeleteByPattern p ns) = encodable p"
| "pattern_text (HSetTtlByPattern p ttl ns) = encodable p"
| "pattern_text _ = True"


section \<open>Requests read back\<close>

lemma split_first_none: "c \<notin> set s \<Longrightarrow> split_first c s = (s, None)"
  by (induction s) (auto simp: split_first_def)

lemma split_first_at: "c \<notin> set s \<Longrightarrow> split_first c (s @ c # r) = (s, Some r)"
proof -
  assume "c \<notin> set s"
  then have "\<And>x. x \<in> set s \<Longrightarrow> x \<noteq> c" by auto
  then show ?thesis
    by (simp add: split_first_def takeWhile_append2 dropWhile_append2)
qed

lemma key_path_segment:
  assumes "key_path k = Inr p"
  obtains seg where "p = lit ''/key/'' @ seg" "read_segment seg = Some k" "\<forall>c \<in> set seg. unreserved c \<or> c = 37"
proof -
  have e: "encodable k" using assms by (auto simp: key_path_def url_encode_def py_encode_def split: if_splits)
  let ?seg = "quote_bytes (map unat (utf8_bytes k))"
  have "p = lit ''/key/'' @ ?seg" using assms e by (simp add: key_path_def url_encode_def)
  moreover have "read_segment ?seg = Some k"
    using pct_decode_quote [OF bytes_small] utf8_dec_bytes [OF e] by (simp add: read_segment_def)
  moreover have "\<forall>c \<in> set ?seg. unreserved c \<or> c = 37"
    using quote_bytes_chars [OF bytes_small] by blast
  ultimately show thesis by (rule that)
qed

lemma namespace_read: "map_of (req_headers (build_request cfg x)) ''X-Ditto-Namespace'' = ns_view ns"
  if "extra_headers x = namespace_headers ns"
  using that by (auto simp: build_request_def namespace_headers_def ns_view_def split: option.split)

lemma read_request_build:
  "extra_headers x = namespace_headers ns \<Longrightarrow>
   read_request (base_url cfg) (build_request cfg x) = target_request (verb x) (split_first 63 (path x)) (body x) (ns_view ns)"
  using namespace_read [of x ns cfg] by (simp add: read_request_def build_request_def)

lemma segment_plain:
  "\<forall>c \<in> set seg. unreserved c \<or> c = 37 \<Longrightarrow> 63 \<notin> set seg \<and> 47 \<notin> set seg"
  by (auto simp: unreserved_def)

text \<open>The path of a key, with a query or another segment behind it.\<close>

lemma key_target:
  assumes seg: "read_segment seg = Some k" "\<forall>c \<in> set seg. unreserved c \<or> c = 37"
  shows "target_request v (split_first 63 (lit ''/key/'' @ seg)) b ns = key_request v None None b ns k"
    and "target_request v (split_first 63 (lit ''/key/'' @ seg @ 63 # q)) b ns = key_request v None (Some q) b ns k"
    and "target_request v (split_first 63 (lit ''/key/'' @ seg @ lit ''/incr'')) b ns = key_request v (Some (lit ''incr'')) None b ns k"
proof -
  note plain = segment_plain [OF seg(2)]
  have key: "target_request v (lit ''/key/'' @ t, q') b ns =
      Option.bind (read_segment (fst (split_first 47 t))) (key_request v (snd (split_first 47 t)) q' b ns)" for t q'
    by (simp add: target_request_def j_word_def lit_def)
  have "63 \<notin> set (lit ''/key/'' @ seg)" "63 \<notin> set (lit ''/key/'' @ seg @ lit ''/incr'')"
    using plain by (simp_all add: lit_def)
  then show "target_request v (split_first 63 (lit ''/key/'' @ seg)) b ns = key_request v None None b ns k"
    "target_request v (split_first 63 (lit ''/key/'' @ seg @ 63 # q)) b ns = key_request v None (Some q) b ns k"
    "target_request v (split_first 63 (lit ''/key/'' @ seg @ lit ''/incr'')) b ns = key_request v (Some (lit ''incr'')) None b ns k"
    using plain seg(1) split_first_at [of 63 "lit ''/key/'' @ seg" q] split_first_at [of 47 seg "lit ''incr''"]
    by (simp_all add: split_first_none key [unfolded lit_def, simplified] lit_def)
qed

lemma digits_plain: "x \<in> set (py_str_int n) \<Longrightarrow> x = 45 \<or> 48 \<le> x \<and> x \<le> 57"
  using digits_nat_digits(1) [of "nat n"] digits_nat_digits(1) [of "nat (- n)"]
  by (auto simp: py_str_int_def is_digit_def list_all_iff split: if_splits)

lemma query_ttl: "query_int ''ttl'' (Some (lit ''ttl='' @ py_str_int n)) = Some n"
  "query_int ''nx'' (Some (lit ''nx=1'')) = Some 1" "query_int ''ttl'' (Some (lit ''nx=1'')) = None"
  "query_int ''nx'' (Some (lit ''nx=1&ttl='' @ py_str_int n)) = Some 1"
  "query_int ''ttl'' (Some (lit ''nx=1&ttl='' @ py_str_int n)) = Some n"
proof -
  have amp: "38 \<notin> set (lit ''ttl='' @ py_str_int n)" using digits_plain [of 38 n] by (auto simp: lit_def)
  have ttl: "split_first 61 (lit ''ttl='' @ py_str_int n) = (lit ''ttl'', Some (py_str_int n))"
    using split_first_at [of 61 "lit ''ttl''" "py_str_int n"] by (simp add: lit_def)
  have nx: "split_first 61 (lit ''nx=1'') = (lit ''nx'', Some (lit ''1''))"
    using split_first_at [of 61 "lit ''nx''" "lit ''1''"] by (simp add: lit_def)
  have one: "py_int_str (lit ''1'') = Some 1" using py_int_str_int [of 1] by (simp add: py_str_int_def lit_def digits_nat.simps [of "Suc 0"])
  have both: "split_first 38 (lit ''nx=1&ttl='' @ py_str_int n) = (lit ''nx=1'', Some (lit ''ttl='' @ py_str_int n))"
    using split_first_at [of 38 "lit ''nx=1''" "lit ''ttl='' @ py_str_int n"] by (simp add: lit_def)
  have single: "split_first 38 (lit ''nx=1'') = (lit ''nx=1'', None)" by (rule split_first_none) (simp add: lit_def)
  show "query_int ''ttl'' (Some (lit ''ttl='' @ py_str_int n)) = Some n"
    by (simp add: query_int_def query_pieces_def split_first_none [OF amp] ttl py_int_str_int)
  show "query_int ''nx'' (Some (lit ''nx=1'')) = Some 1" "query_int ''ttl'' (Some (lit ''nx=1'')) = None"
    by (simp_all add: query_int_def query_pieces_def single nx one) (simp add: lit_def)
  show "query_int ''nx'' (Some (lit ''nx=1&ttl='' @ py_str_int n)) = Some 1"
    "query_int ''ttl'' (Some (lit ''nx=1&ttl='' @ py_str_int n)) = Some n"
    by (simp_all add: query_int_def query_pieces_def both nx one ttl py_int_str_int) (simp add: lit_def)
qed

lemma read_object_dumps:
  "list_all (\<lambda>(k, v). encodable k \<and> scalar_ok v) ps \<Longrightarrow> read_object (Some (utf8_bytes (json_dumps ps))) = Some (pairs_json ps)"
  by (simp add: read_object_def utf8_roundtrip json_dumps_encodable json_loads_dumps)

lemma lit_eq: "lit a = lit b \<longleftrightarrow> a = b"
  by (simp add: lit_def inj_map_eq_map inj_def)

lemmas members = member_str_def member_int_def dict_get_def lit_eq

lemma field_names_encodable: "encodable (lit ''delta'')" "encodable (lit ''ttl_secs_on_create'')" "encodable (lit ''pattern'')"
  "encodable (lit ''ttl_secs'')"
  by (simp_all add: lit_encodable)

lemma query_lits: "lit ''?ttl='' = 63 # lit ''ttl=''" "lit ''?nx=1'' = 63 # lit ''nx=1''"
  "lit ''nx=1'' @ lit ''&ttl='' @ t = lit ''nx=1&ttl='' @ t"
  by (simp_all add: lit_def)

lemma query_none: "query_int k None = None"
  by (simp add: query_int_def query_pieces_def)

lemma post_verb: "''POST'' \<noteq> ''GET''" "''POST'' \<noteq> ''DELETE''" "''POST'' \<noteq> ''PUT''" "''PUT'' \<noteq> ''GET''" "''PUT'' \<noteq> ''DELETE''"
  "''DELETE'' \<noteq> ''GET''"
  by simp_all

lemmas reads = read_request_build key_target key_request_def query_ttl query_lits query_none ttl_view_def

lemma key_read:
  "http_args (HGet k ns) = Inr x \<Longrightarrow> read_request (base_url cfg) (build_request cfg x) = Some (http_view (HGet k ns))"
  "http_args (HDelete k ns) = Inr x \<Longrightarrow> read_request (base_url cfg) (build_request cfg x) = Some (http_view (HDelete k ns))"
  by (auto simp: get_args_def reads elim!: bind_elim key_path_segment)

lemma set_read: "set_args k v ttl ns = Inr x \<Longrightarrow> read_request (base_url cfg) (build_request cfg x) = Some (http_view (HSet k v ttl ns))"
  unfolding set_args_def Let_def
  by (elim bind_elim key_path_segment) (auto simp: reads py_encode_def split: if_splits)

lemma raw_value_bytes: "raw_value v = Inr raw \<Longrightarrow> raw = (case v of StrVal s \<Rightarrow> utf8_bytes s | BytesVal b \<Rightarrow> b)"
  by (auto simp: raw_value_def py_encode_def split: py_value.splits if_splits)

lemma set_nx_read:
  "set_nx_args k v ttl ns = Inr x \<Longrightarrow> read_request (base_url cfg) (build_request cfg x) = Some (http_view (HSetNx k v ttl ns))"
  unfolding set_nx_args_def Let_def
  by (elim bind_elim key_path_segment) (auto simp: reads dest: raw_value_bytes split: if_splits)

lemma py_str_int_encodable: "encodable (py_str_int n)"
  by (rule ascii_encodable [OF py_str_int_ascii])

lemma incr_read:
  "incr_args k d ttl ns = Inr x \<Longrightarrow> read_request (base_url cfg) (build_request cfg x) = Some (http_view (HIncr k d ttl ns))"
  unfolding incr_args_def Let_def json_post_def
  by (elim bind_elim key_path_segment)
     (auto simp: reads read_object_dumps json_dumps_encodable field_names_encodable py_str_int_encodable members py_int_str_int)

lemma target_pattern:
  "target_request ''POST'' (split_first 63 (lit ''/keys/delete-by-pattern'')) b ns =
    Option.bind (read_object b) (\<lambda>d. map_option (\<lambda>p. ViewDeletePattern p ns) (member_str d ''pattern''))"
  "target_request ''POST'' (split_first 63 (lit ''/keys/ttl-by-pattern'')) b ns =
    Option.bind (read_object b) (\<lambda>d. map_option (\<lambda>p. ViewTtlPattern p (member_int d ''ttl_secs'') ns) (member_str d ''pattern''))"
proof -
  have "63 \<notin> set (lit ''/keys/delete-by-pattern'')" "63 \<notin> set (lit ''/keys/ttl-by-pattern'')" by (simp_all add: lit_def)
  then show "target_request ''POST'' (split_first 63 (lit ''/keys/delete-by-pattern'')) b ns =
      Option.bind (read_object b) (\<lambda>d. map_option (\<lambda>p. ViewDeletePattern p ns) (member_str d ''pattern''))"
    "target_request ''POST'' (split_first 63 (lit ''/keys/ttl-by-pattern'')) b ns =
      Option.bind (read_object b) (\<lambda>d. map_option (\<lambda>p. ViewTtlPattern p (member_int d ''ttl_secs'') ns) (member_str d ''pattern''))"
    by (simp_all add: split_first_none target_request_def lit_eq)
qed

lemma pattern_read:
  "encodable p \<Longrightarrow> http_args (HDeleteByPattern p ns) = Inr x \<Longrightarrow>
   read_request (base_url cfg) (build_request cfg x) = Some (http_view (HDeleteByPattern p ns))"
  "encodable p \<Longrightarrow> http_args (HSetTtlByPattern p ttl ns) = Inr x \<Longrightarrow>
   read_request (base_url cfg) (build_request cfg x) = Some (http_view (HSetTtlByPattern p ttl ns))"
  by (auto simp: json_post_def ttl_object_def reads target_pattern read_object_dumps json_dumps_encodable
      field_names_encodable members elim!: bind_elim)

lemma plain_read:
  "read_request (base_url cfg) (build_request cfg (get_args (lit ''/ping''))) = Some ViewPing"
  "read_request (base_url cfg) (build_request cfg (get_args (lit ''/stats''))) = Some ViewStats"
proof -
  have "63 \<notin> set (lit ''/ping'')" "63 \<notin> set (lit ''/stats'')" by (simp_all add: lit_def)
  then show "read_request (base_url cfg) (build_request cfg (get_args (lit ''/ping''))) = Some ViewPing"
    "read_request (base_url cfg) (build_request cfg (get_args (lit ''/stats''))) = Some ViewStats"
    using read_request_build [of _ None] by (simp_all add: get_args_def namespace_headers_def split_first_none target_request_def lit_eq)
qed

lemma args_read:
  "http_args a = Inr x \<Longrightarrow> pattern_text a \<Longrightarrow> read_request (base_url cfg) (build_request cfg x) = Some (http_view a)"
  using plain_read key_read set_read set_nx_read incr_read pattern_read by (cases a) auto

end
