(* ===== verification/Http_Api.thy ===== *)
theory Http_Api
  imports Http_Wire
begin

text \<open>
  What the HTTP client guarantees: one request per call that asks for what was meant, values and
  counters read back from the replies, the errors of the server by name or by status, and
  verified TLS unless the environment allows otherwise.
\<close>

section \<open>Requests\<close>

text \<open>
  C9: a call of any method sends at most one request and never repeats it, whatever the server or
  the network does; it sends one only when its inputs pass the checks, and a server reads in it
  the operation, key, value, delta, namespace and time to live that were asked for. The call takes
  exactly one reply per request.
\<close>

theorem http_one_request:
  "\<exists>reqs. sent_requests (snd (http_perform cfg a s)) = sent_requests s @ reqs \<and> length reqs \<le> 1 \<and>
     replies (snd (http_perform cfg a s)) = drop (length reqs) (replies s) \<and>
     list_all (\<lambda>q. http_check cfg a = Inr () \<and>
       (pattern_text a \<longrightarrow> read_request (base_url cfg) q = Some (http_view a))) reqs"
proof (cases "bindR (http_check cfg a) (\<lambda>_. http_args a)")
  case (Inl e)
  then show ?thesis by (intro exI [of _ "[]"]) (simp add: http_api.steps)
next
  case (Inr x)
  then have x: "http_check cfg a = Inr ()" "http_args a = Inr x" by (auto simp: bindR_eq_Inr)
  show ?thesis
  proof (cases "header_error (req_headers (build_request cfg x))")
    case None
    then show ?thesis
      using x args_read [OF x(2)]
      by (intro exI [of _ "[build_request cfg x]"])
         (auto simp: http_api.steps request_steps split: list.split)
  next
    case (Some e)
    then show ?thesis
      using x by (intro exI [of _ "[]"]) (simp add: http_api.steps request_steps)
  qed
qed

text \<open>A call that passes the checks, with headers that can be sent, is sent.\<close>

lemma http_sends:
  assumes "http_check cfg a = Inr ()" "http_args a = Inr x" "header_error (req_headers (build_request cfg x)) = None"
  shows "sent_requests (snd (http_perform cfg a s)) = sent_requests s @ [build_request cfg x]"
  using assms by (auto simp: http_api.steps request_steps split: list.split)

definition sample_http :: http_config where
  "sample_http = \<lparr>base_url = lit ''http://h:7778'', auth_header = None, http_ctx = None, http_strict = True\<rparr>"

lemma sample_http_sel [simp]:
  "base_url sample_http = lit ''http://h:7778''" "auth_header sample_http = None" "http_strict sample_http = True"
  by (simp_all add: sample_http_def)

theorem http_one_request_witness:
  "\<exists>reqs. sent_requests (snd (http_perform sample_http (HIncr (lit ''n'') (-2) 60 (Some (lit ''t'')))
       \<lparr>replies = [NoReply (OSError None), Replied 200 []], sent_requests = []\<rparr>)) = reqs \<and> length reqs \<le> 1 \<and>
     list_all (\<lambda>q. read_request (lit ''http://h:7778'') q = Some (ViewIncr (lit ''n'') (-2) (Some 60) (Some (lit ''t'')))) reqs"
proof -
  let ?a = "HIncr (lit ''n'') (-2) 60 (Some (lit ''t''))"
  have "http_view ?a = ViewIncr (lit ''n'') (-2) (Some 60) (Some (lit ''t''))"
    by (simp add: ttl_view_def ns_view_def py_strip_def lstrip_def is_space_def lit_def)
  then show ?thesis
    using http_one_request [of sample_http ?a "\<lparr>replies = [NoReply (OSError None), Replied 200 []], sent_requests = []\<rparr>"]
    by (auto simp: list_all_iff)
qed


section \<open>Replies\<close>

lemma field_encodable: "encodable (lit ''value_base64'')" "encodable (lit ''value'')" "encodable (lit ''version'')"
  "encodable (lit ''error'')" "encodable (lit ''message'')"
  by (simp_all add: lit_encodable)

lemma b64_char_ascii: "v < 64 \<Longrightarrow> b64_char v < 128"
  by (auto simp: b64_char_def)

lemma b64encode_ascii: "list_all (\<lambda>b. b < 256) bs \<Longrightarrow> list_all (\<lambda>c. c < 128) (b64encode bs)"
proof (induction bs rule: b64encode.induct)
  case (2 a)
  then show ?case using b64_parts [of a 0 0] by (simp add: b64_char_ascii)
next
  case (3 a b)
  then show ?case using b64_parts [of a b 0] by (simp add: b64_char_ascii)
next
  case (4 a b c bs)
  then show ?case using b64_parts [of a b c] by (simp add: b64_char_ascii)
qed simp

lemma b64encode_empty: "b64encode bs = [] \<longleftrightarrow> bs = []"
  by (cases bs rule: b64encode.cases) simp_all

text \<open>
  The value that the members of a reply carry: the bytes of a non-empty \<open>value_base64\<close>, whatever
  else is there, and only without it the text \<open>value\<close>. The document may have any layout and any other members.
\<close>

definition carries :: "(pystr \<times> json) list \<Rightarrow> bytes \<Rightarrow> bool" where
  "carries d bs \<longleftrightarrow>
    dict_get d ''value_base64'' = Some (JStr (b64encode (map unat bs))) \<and> bs \<noteq> [] \<or>
    dict_get d ''value_base64'' \<in> {None, Some JNull, Some (JStr [])} \<and>
      (\<exists>t. dict_get d ''value'' = Some (JStr t) \<and> encodable t \<and> bs = utf8_bytes t)"

lemma b64_value_bytes: "b64_value (JStr (b64encode (map unat bs))) = Inr bs"
  using b64encode_ascii [OF bytes_small] b64_roundtrip [OF bytes_small, of bs]
  by (simp add: b64_value_def comp_def)

lemma get_reply_value:
  assumes "200 \<le> status" "status < 300" "json_load t = Inr (JObj d)" "carries d bs" "dict_get d ''version'' = Some v"
  shows "get_reply (status, t) = Inr (Some \<lparr>get_value = bs, get_version = v\<rparr>)"
  using assms unfolding carries_def
  by (auto simp: get_reply_def assert_ok_def dot_get_def subscript_def b64encode_empty b64_value_bytes text_value_def)

text \<open>
  C10: \<open>get\<close> returns the value of a successful reply byte for byte, with its version. The body may be any JSON
  object, laid out in any way and with any other members: a non-empty \<open>value_base64\<close> is decoded
  and takes precedence over \<open>value\<close>; without it, or when it is null or empty, \<open>value\<close>, a text, is
  the value, in UTF-8; the version is the member as it came. The call sends the one request for
  the key.
\<close>

theorem http_get_value:
  assumes "http_check cfg (HGet k ns) = Inr ()" "http_args (HGet k ns) = Inr x"
    and "header_error (req_headers (build_request cfg x)) = None"
    and "replies s = Replied status raw # rs" "200 \<le> status" "status < 300"
    and "py_decode raw = Inr t" "json_load t = Inr (JObj d)" "carries d bs" "dict_get d ''version'' = Some v"
  shows "http_get cfg k ns s = (Inr (Some \<lparr>get_value = bs, get_version = v\<rparr>),
    s\<lparr>replies := rs, sent_requests := sent_requests s @ [build_request cfg x]\<rparr>) \<and>
    read_request (base_url cfg) (build_request cfg x) = Some (ViewGet k (ns_view ns))"
  using assms hget.answered [of cfg k ns x s] args_read [OF assms(2)] get_reply_value [OF assms(5,6,8-10)]
  by (simp add: reply_text_def)

text \<open>A compact body that carries the value in both forms, the text one lossy.\<close>

definition quoted :: "string \<Rightarrow> pystr" where
  "quoted w = [34] @ lit w @ [34]"

definition sample_body :: pystr where
  "sample_body = [123] @ quoted ''value'' @ [58] @ quoted ''?'' @ [44] @ quoted ''version'' @ [58, 55, 44]
     @ quoted ''value_base64'' @ [58] @ quoted ''AP8='' @ [125]"

lemma sample_plain: "list_all plain_cp (lit ''value'')" "list_all plain_cp (lit ''version'')"
  "list_all plain_cp (lit ''value_base64'')" "list_all plain_cp (lit ''?'')" "list_all plain_cp (lit ''AP8='')"
  "list_all plain_cp (lit ''error'')" "list_all plain_cp (lit ''message'')" "list_all plain_cp (lit ''QuotaExceeded'')"
  "list_all plain_cp (lit ''full'')"
  by (simp_all add: plain_cp_def lit_def)

lemmas parse_sample = json_load_def json_loads_def quoted_def json_unfold j_ws_def j_space_def j_string_plain sample_plain

lemma sample_body_loads:
  "json_load sample_body =
    Inr (JObj [(lit ''value'', JStr (lit ''?'')), (lit ''version'', JInt 7), (lit ''value_base64'', JStr (lit ''AP8=''))])"
proof -
  have "j_scalar (55 # r) = j_number (55 # r)" for r
    by (simp add: j_scalar_def j_word_other)
  moreover have "j_number (55 # 44 # r) = Some (JInt 7, 44 # r)" for r
    using frac_exp_none [of "44 # r"] by (simp add: j_number_def is_digit_def number_value_def digits_value_def ends_number_def)
  ultimately show ?thesis
    by (simp add: parse_sample sample_body_def)
qed

theorem http_get_value_witness:
  "\<exists>x. http_get sample_http (lit ''k'') None \<lparr>replies = [Replied 200 (utf8_bytes sample_body)], sent_requests = []\<rparr> =
       (Inr (Some \<lparr>get_value = [0, 255], get_version = JInt 7\<rparr>), \<lparr>replies = [], sent_requests = [x]\<rparr>) \<and>
     read_request (lit ''http://h:7778'') x = Some (ViewGet (lit ''k'') None)"
proof -
  let ?x = "\<lparr>path = lit ''/key/k'', verb = ''GET'', body = None, content_type = None, extra_headers = None\<rparr>"
  have check: "http_check sample_http (HGet (lit ''k'') None) = Inr ()"
    by (simp add: core.strict_iff) (simp add: strict_key_def strict_ns_def token_char_def lit_def)
  have args: "http_args (HGet (lit ''k'') None) = Inr ?x"
    by (simp add: key_path_def url_encode_def lit_def utf8_bytes_def utf8_cp_def encodable_def encodable_cp_def
        is_surrogate_def quote_bytes_def quote_byte_def unreserved_def get_args_def namespace_headers_def)
  have hd: "header_error (req_headers (build_request sample_http ?x)) = None"
    by (simp add: build_request_def)
  have enc: "py_decode (utf8_bytes sample_body) = Inr sample_body"
    by (simp add: sample_body_def quoted_def encodable_def encodable_cp_def is_surrogate_def lit_def)
  have v: "carries [(lit ''value'', JStr (lit ''?'')), (lit ''version'', JInt 7), (lit ''value_base64'', JStr (lit ''AP8=''))] [0, 255]"
    by (simp add: carries_def dict_get_def lit_def b64_char_def)
  show ?thesis
    using http_get_value [OF check args hd _ _ _ enc sample_body_loads v,
      of "\<lparr>replies = [Replied 200 (utf8_bytes sample_body)], sent_requests = []\<rparr>" 200 "[]" "JInt 7"]
    by (intro exI [of _ "build_request sample_http ?x"]) (simp add: ns_view_def dict_get_def lit_def)
qed

section \<open>Errors of the server\<close>

text \<open>The calls that take a status of their own before the general check.\<close>

fun is_get :: "http_api \<Rightarrow> bool" where
  "is_get (HGet k ns) = True"
| "is_get _ = False"

fun is_delete :: "http_api \<Rightarrow> bool" where
  "is_delete (HDelete k ns) = True"
| "is_delete _ = False"

fun atomic_name :: "http_api \<Rightarrow> string option" where
  "atomic_name (HSetNx k v ttl ns) = Some ''SET_NX''"
| "atomic_name (HIncr k d ttl ns) = Some ''INCR''"
| "atomic_name _ = None"

lemma find_error_code_value: "find_error_code (lit (error_code_value c)) = Some c"
proof -
  have "(\<lambda>d. lit (error_code_value d) = lit (error_code_value c)) = (\<lambda>d. d = c)"
    by (auto simp: lit_eq dest: error_code_value_inj)
  then have "find_error_code (lit (error_code_value c)) = List.find (\<lambda>d. d = c) Enum.enum"
    by (simp add: find_error_code_def)
  also have "\<dots> = Some c"
    by (cases c) (simp_all add: enum_DittoErrorCode_def all_error_codes_def)
  finally show ?thesis .
qed

lemma error_code_encodable: "encodable (lit (error_code_value c))"
  by (rule lit_encodable) (cases c; simp)

lemma error_code_nonempty: "lit (error_code_value c) \<noteq> []"
  by (cases c) (simp_all add: lit_def)

lemma unsupported_name: "error_code_value c = ''UnsupportedRequest'' \<longleftrightarrow> c = UNSUPPORTED_REQUEST"
  using error_code_value_inj [of c UNSUPPORTED_REQUEST] by auto

lemma post_not_ok:
  assumes "\<not> (200 \<le> status \<and> status < 300)"
  shows "http_post a (status, b) =
    (if a = HPing then Inr (HFlag False)
     else if status = 404 \<and> is_get a then Inr (HFound None)
     else if status = 404 \<and> is_delete a then Inr (HFlag False)
     else (case atomic_name a of
         Some op \<Rightarrow> if status \<in> {400, 404, 501} then Inl (atomic_http_unsupported_error b op)
                    else Inl (projl (assert_ok status b))
       | None \<Rightarrow> Inl (projl (assert_ok status b))))"
proof -
  have "\<exists>c m. assert_ok status b = Inl (DittoError c m)"
    using assms by (auto simp: assert_ok_def Let_def split: prod.split)
  then show ?thesis
    using assms by (cases a) (auto simp: ping_reply_def get_reply_def set_reply_def set_nx_reply_def incr_reply_def
        delete_reply_def delete_by_pattern_reply_def set_ttl_by_pattern_reply_def stats_reply_def
        raise_if_atomic_http_unsupported_def ATOMIC_UNSUPPORTED_STATUSES_def)
qed

text \<open>The code for the name of an error: the member of the enumeration, or the name itself.\<close>

definition named_code :: "pystr \<Rightarrow> err_code \<Rightarrow> bool" where
  "named_code e code \<longleftrightarrow>
    (\<exists>c. e = lit (error_code_value c) \<and> code = Code c) \<or> (\<forall>c. e \<noteq> lit (error_code_value c)) \<and> code = CodeText e"

lemma named_code_found: "named_code e code \<Longrightarrow> (case find_error_code e of Some c \<Rightarrow> Code c | None \<Rightarrow> CodeText e) = code"
proof -
  have "find_error_code e = None" if "\<forall>c. e \<noteq> lit (error_code_value c)"
    unfolding find_error_code_def using that by (auto simp: find_None_iff)
  then show "named_code e code \<Longrightarrow> (case find_error_code e of Some c \<Rightarrow> Code c | None \<Rightarrow> CodeText e) = code"
    by (auto simp: named_code_def find_error_code_value)
qed

text \<open>The message of the body, or the name of the error if it has none.\<close>

definition reply_message :: "(pystr \<times> json) list \<Rightarrow> pystr \<Rightarrow> exc_text" where
  "reply_message d e =
    (case dict_get d ''message'' of Some m \<Rightarrow> if truthy m then json_text m else Text e | None \<Rightarrow> Text e)"

text \<open>
  C11: when the server answers with an error status and a JSON object, in any layout, that names the error by a
  non-empty text, every method raises \<open>DittoError\<close>: with the code of that name, or with the name itself if the
  client does not know it, and with the message of the body, or the name if there is none. The exceptions are those of the
  methods: \<open>ping\<close> is false, a missing key is no error for \<open>get\<close> and \<open>delete\<close>, and the statuses
  400, 404 and 501 of the atomic operations become \<open>UNSUPPORTED_REQUEST\<close>, whatever error the
  body names.
\<close>

theorem http_error_named:
  assumes "\<not> (200 \<le> status \<and> status < 300)" "json_loads b = Some (JObj d)"
    and "dict_get d ''error'' = Some (JStr e)" "e \<noteq> []" "named_code e code"
  shows "http_post a (status, b) =
    (if a = HPing then Inr (HFlag False)
     else if status = 404 \<and> is_get a then Inr (HFound None)
     else if status = 404 \<and> is_delete a then Inr (HFlag False)
     else if status \<in> {400, 404, 501} \<and> atomic_name a \<noteq> None then
       Inl (if e = lit ''UnsupportedRequest'' then DittoError (Code UNSUPPORTED_REQUEST) (reply_message d e)
            else unsupported_atomic_operation_error (the (atomic_name a)))
     else Inl (DittoError code (reply_message d e)))"
proof -
  have "atomic_http_unsupported_error b op = (if e = lit ''UnsupportedRequest''
      then DittoError (Code UNSUPPORTED_REQUEST) (reply_message d e) else unsupported_atomic_operation_error op)" for op
    using assms(2,3) by (auto simp: atomic_http_unsupported_error_def reply_message_def or_else_def)
  moreover have "or_else (dict_get d ''message'') (or_else (dict_get d ''error'') (Text b)) = reply_message d e"
    using assms(3,4) by (simp add: or_else_def reply_message_def json_text_def)
  then have "assert_ok status b = Inl (DittoError code (reply_message d e))"
    using assms(1-4) named_code_found [OF assms(5)] by (simp add: assert_ok_def body_error_def)
  ultimately show ?thesis
    using post_not_ok [OF assms(1)] by (simp split: option.split)
qed

text \<open>A compact body with an error the client does not know.\<close>

definition sample_error :: pystr where
  "sample_error = [123] @ quoted ''message'' @ [58] @ quoted ''full'' @ [44] @ quoted ''error'' @ [58] @ quoted ''QuotaExceeded'' @ [125]"

lemma sample_error_loads:
  "json_loads sample_error = Some (JObj [(lit ''message'', JStr (lit ''full'')), (lit ''error'', JStr (lit ''QuotaExceeded''))])"
  by (simp add: parse_sample sample_error_def)

theorem http_error_named_witness:
  "http_post (HIncr (lit ''n'') 1 0 None) (409, sample_error) = Inl (DittoError (CodeText (lit ''QuotaExceeded'')) (Text (lit ''full'')))"
proof -
  have "lit ''QuotaExceeded'' \<noteq> lit (error_code_value c)" for c
    by (cases c) (simp_all add: lit_eq)
  then have "named_code (lit ''QuotaExceeded'') (CodeText (lit ''QuotaExceeded''))"
    by (simp add: named_code_def)
  from http_error_named [OF _ sample_error_loads _ _ this, of 409 "HIncr (lit ''n'') 1 0 None"] show ?thesis
    by (simp add: dict_get_def lit_eq reply_message_def) (simp add: lit_def json_text_def)
qed

text \<open>
  When the body of an error reply is not JSON, the status alone decides the code, and the
  message is the body as it came.
\<close>

theorem http_error_by_status:
  assumes "\<not> (200 \<le> status \<and> status < 300)" "json_loads b = None"
    and "a \<noteq> HPing" "\<not> is_get a" "\<not> is_delete a" "atomic_name a = None"
  shows "http_post a (status, b) = Inl (DittoError (Code
    (if status = 503 then NODE_INACTIVE else if status = 504 then WRITE_TIMEOUT
     else if status = 404 then KEY_NOT_FOUND else if status = 429 then RATE_LIMITED else INTERNAL_ERROR)) (Text b))"
  using post_not_ok [OF assms(1), of a b] assms by (simp add: assert_ok_def body_error_def status_code_def)

theorem http_error_by_status_witness:
  "http_post HStats (504, []) = Inl (DittoError (Code WRITE_TIMEOUT) (Text ([])))"
proof -
  have "json_loads [] = None"
    by (simp add: json_loads_def j_ws_def j_value.simps(2) [of 0])
  with http_error_by_status [of 504 "[]" HStats] show ?thesis by simp
qed

section \<open>Transport security and credentials\<close>

text \<open>
  C12: a client with TLS verifies certificates and host names unless an insecure option was given, and
  an insecure option is accepted only when the environment variable of the gate is set to
  one of its four values; otherwise the constructor raises \<open>ValueError\<close> and there is no client. A client without TLS has
  no context.
\<close>

theorem http_tls_verified:
  "case init_http env load_ca h p tls u pw reject_unauthorized dev_insecure_tls ca strict of
     Inr cfg \<Rightarrow>
       (case http_ctx cfg of
          None \<Rightarrow> \<not> tls
        | Some c \<Rightarrow>
            tls \<and> check_hostname c = cert_required c \<and>
            cert_required c = (reject_unauthorized \<and> \<not> dev_insecure_tls) \<and>
            (cert_required c \<or> (\<exists>v. env = Some v \<and> py_lower (py_strip v) \<in> {lit ''1'', lit ''true'', lit ''yes'', lit ''on''})) \<and>
            cafile c = non_blank ca)
   | Inl e \<Rightarrow>
       e = UnicodeEncodeError \<and> (\<exists>x y. u = Some x \<and> pw = Some y \<and> \<not> encodable (x @ lit '':'' @ y)) \<or>
       tls \<and> \<not> allow_insecure_tls_dev env \<and>
         (dev_insecure_tls \<and> e = insecure_refused ''dev_insecure_tls=True'' \<or>
          \<not> dev_insecure_tls \<and> \<not> reject_unauthorized \<and> e = insecure_refused ''reject_unauthorized=False'') \<or>
       tls \<and> load_ca = Some e \<and> non_blank ca \<noteq> None"
proof -
  have gate: "allow_insecure_tls_dev env \<longleftrightarrow>
      (\<exists>v. env = Some v \<and> py_lower (py_strip v) \<in> {lit ''1'', lit ''true'', lit ''yes'', lit ''on''})"
    by (cases env) (auto simp: allow_insecure_tls_dev_def Let_def py_lower_def lit_def)
  have auth: "basic_auth u pw = Inl e \<Longrightarrow> e = UnicodeEncodeError \<and> (\<exists>x y. u = Some x \<and> pw = Some y \<and> \<not> encodable (x @ lit '':'' @ y))" for e
    by (auto simp: basic_auth_def py_encode_def split: option.splits if_splits)
  have relax: "relax env o' on c = (if \<not> on then Inr c else if allow_insecure_tls_dev env
      then Inr (c\<lparr>check_hostname := False, cert_required := False\<rparr>) else Inl (insecure_refused o'))" for o' on c
    by (simp add: relax_def)
  show ?thesis
  proof (cases "basic_auth u pw")
    case (Inl e)
    then show ?thesis using auth by (simp add: init_http_def)
  next
    case (Inr a)
    then show ?thesis
      by (cases "non_blank ca"; cases load_ca)
         (auto simp: init_http_def tls_context_def relax default_context_def gate [symmetric] simp del: insert_iff split: sum.split)
  qed
qed

text \<open>
  C13: a client made with a user name and a password sends, with every request, an \<open>Authorization\<close>
  header whose base64 text decodes to exactly the name and the password joined by a colon.
\<close>

theorem http_credentials_sent:
  assumes "init_http env load_ca h p tls (Some u) (Some pw) reject_unauthorized dev_insecure_tls ca strict = Inr cfg"
    and "u \<noteq> []" "pw \<noteq> []"
  shows "\<exists>t bs. map_of (req_headers (build_request cfg x)) ''Authorization'' = Some (lit ''Basic '' @ t) \<and>
    b64decode t = Some bs \<and> utf8_dec bs = Some (u @ lit '':'' @ pw)"
proof -
  let ?c = "u @ lit '':'' @ pw"
  have e: "encodable ?c" and auth: "auth_header cfg = Some (lit ''Basic '' @ b64encode (map unat (utf8_bytes ?c)))"
    using assms by (auto simp: init_http_def basic_auth_def py_encode_def bindR_eq_Inr split: if_splits)
  have "map_of (req_headers (build_request cfg x)) ''Authorization'' = auth_header cfg"
    by (simp add: build_request_def auth lit_def)
  with auth e show ?thesis
    using b64_roundtrip [OF bytes_small] utf8_dec_bytes by auto
qed

theorem http_credentials_sent_witness:
  "\<exists>cfg t bs. init_http None None (lit ''h'') 7778 False (Some (lit ''ann'')) (Some (lit ''p:w'')) True False None False = Inr cfg \<and>
     map_of (req_headers (build_request cfg (get_args (lit ''/ping'')))) ''Authorization'' = Some (lit ''Basic '' @ t) \<and>
     b64decode t = Some bs \<and> utf8_dec bs = Some (lit ''ann:p:w'')"
proof -
  have "encodable (lit ''ann'' @ lit '':'' @ lit ''p:w'')"
    using lit_encodable [of "''ann:p:w''"] by (simp add: lit_def)
  then obtain cfg where cfg: "init_http None None (lit ''h'') 7778 False (Some (lit ''ann'')) (Some (lit ''p:w'')) True False None False = Inr cfg"
    by (auto simp: init_http_def basic_auth_def lit_def)
  have "lit ''ann'' \<noteq> []" "lit ''p:w'' \<noteq> []" "lit ''ann'' @ lit '':'' @ lit ''p:w'' = lit ''ann:p:w''"
    by (simp_all add: lit_def)
  with http_credentials_sent [OF cfg, of "get_args (lit ''/ping'')"] cfg show ?thesis by auto
qed

end
