(* ===== verification/Script_Base.thy ===== *)
theory Script_Base
  imports Http_Client "HOL-Library.List_Lexorder"
begin

text \<open>
  What the scripts of the repository share: reading text and JSON files, the keys and items of a
  dictionary, \<open>isinstance\<close>, \<open>str\<close> and \<open>==\<close> of JSON values, iteration, prefixes, suffixes and
  splitting of strings, and the calls that end a script with a message.
  A script is a function of the files it reads; it returns an exit code and what it prints, or
  ends with an exception that nothing catches.
\<close>

section \<open>Files\<close>

text \<open>The readable files by path; a path that is not there raises \<open>FileNotFoundError\<close>.\<close>

type_synonym files = "pystr \<Rightarrow> bytes option"

definition ENOENT :: int where
  "ENOENT = 2"

text \<open>Text mode reads every line end as a line feed.\<close>

fun newlines :: "pystr \<Rightarrow> pystr" where
  "newlines [] = []"
| "newlines (c # cs) =
    (if c = 13 then 10 # (case cs of [] \<Rightarrow> [] | d # ds \<Rightarrow> if d = 10 then newlines ds else newlines cs)
     else c # newlines cs)"

definition read_bytes :: "files \<Rightarrow> pystr \<Rightarrow> bytes result" where
  "read_bytes fs p = (case fs p of None \<Rightarrow> Inl (OSError (Some ENOENT)) | Some b \<Rightarrow> Inr b)"

definition decode_text :: "bytes \<Rightarrow> pystr result" where
  "decode_text b = bindR (py_decode b) (\<lambda>t. Inr (newlines t))"

definition read_text :: "files \<Rightarrow> pystr \<Rightarrow> pystr result" where
  "read_text fs p = bindR (read_bytes fs p) decode_text"

text \<open>The encoding \<open>utf-8-sig\<close> drops a byte order mark at the start.\<close>

definition drop_bom :: "bytes \<Rightarrow> bytes" where
  "drop_bom b = (if take 3 b = [0xEF, 0xBB, 0xBF] then drop 3 b else b)"

definition load_json :: "files \<Rightarrow> pystr \<Rightarrow> json result" where
  "load_json fs p = bindR (read_text fs p) json_load"

definition load_json_sig :: "files \<Rightarrow> pystr \<Rightarrow> json result" where
  "load_json_sig fs p = bindR (read_bytes fs p) (\<lambda>b. bindR (decode_text (drop_bom b)) json_load)"


lemma read_text_error: "read_text fs p = Inl e \<Longrightarrow> e = OSError (Some ENOENT) \<or> e = UnicodeDecodeError"
  by (auto simp: read_text_def read_bytes_def decode_text_def py_decode_def bindR_eq_Inl split: option.splits)

lemma load_json_error:
  "load_json fs p = Inl e \<Longrightarrow> e \<in> {OSError (Some ENOENT), UnicodeDecodeError, JSONDecodeError}"
  "load_json_sig fs p = Inl e \<Longrightarrow> e \<in> {OSError (Some ENOENT), UnicodeDecodeError, JSONDecodeError}"
  using read_text_error [of fs p]
  by (auto simp: load_json_def load_json_sig_def read_bytes_def decode_text_def py_decode_def json_load_def bindR_eq_Inl
      split: option.splits)


section \<open>Dictionaries\<close>

text \<open>A repeated key keeps its first place and its last value.\<close>

type_synonym dict = "(pystr \<times> json) list"

definition dict_keys :: "dict \<Rightarrow> pystr list" where
  "dict_keys d = rev (remdups (rev (map fst d)))"

definition dict_items :: "dict \<Rightarrow> (pystr \<times> json) list" where
  "dict_items d = map (\<lambda>k. (k, the (map_of (rev d) k))) (dict_keys d)"

definition has_key :: "dict \<Rightarrow> pystr \<Rightarrow> bool" where
  "has_key d k \<longleftrightarrow> k \<in> set (map fst d)"

text \<open>\<open>sorted(required - set(d.keys()))\<close>, the required names given in their order.\<close>

definition missing_keys :: "pystr list \<Rightarrow> dict \<Rightarrow> pystr list" where
  "missing_keys required d = filter (\<lambda>k. \<not> has_key d k) (sort required)"

lemma missing_keys_none: "missing_keys required d = [] \<longleftrightarrow> list_all (has_key d) required"
  by (auto simp: missing_keys_def filter_empty_conv list_all_iff)

lemma set_dict_keys: "set (dict_keys d) = set (map fst d)"
  by (simp add: dict_keys_def)

lemma map_of_rev_has: "has_key d k \<longleftrightarrow> (\<exists>v. map_of (rev d) k = Some v)"
proof -
  have "has_key d k \<longleftrightarrow> k \<in> dom (map_of (rev d))"
    by (simp add: has_key_def dom_map_of_conv_image_fst)
  then show ?thesis by auto
qed

lemma dict_items_iff: "(k, v) \<in> set (dict_items d) \<longleftrightarrow> map_of (rev d) k = Some v"
  using map_of_rev_has [of d k] by (auto simp: dict_items_def set_dict_keys has_key_def)

lemma has_key_get: "has_key d (lit k) \<longleftrightarrow> dict_get d k \<noteq> None"
  by (auto simp: map_of_rev_has dict_get_def)


section \<open>Values\<close>

definition is_string :: "json \<Rightarrow> bool" where
  "is_string v = (case v of JStr s \<Rightarrow> True | _ \<Rightarrow> False)"

text \<open>A truth value is an \<open>int\<close>, too.\<close>

definition is_integer :: "json \<Rightarrow> bool" where
  "is_integer v = (case v of JInt n \<Rightarrow> True | JBool b \<Rightarrow> True | _ \<Rightarrow> False)"

text \<open>
  \<open>str(v)\<close>. The rendering of floats, lists and dictionaries is the argument; nothing below
  depends on it.
\<close>

definition py_str :: "(json \<Rightarrow> pystr) \<Rightarrow> json \<Rightarrow> pystr" where
  "py_str render v =
    (case v of
       JNull \<Rightarrow> lit ''None''
     | JBool b \<Rightarrow> if b then lit ''True'' else lit ''False''
     | JInt n \<Rightarrow> py_str_int n
     | JStr s \<Rightarrow> s
     | _ \<Rightarrow> render v)"


text \<open>Numbers are equal by value, a truth value counts as 0 or 1, and NaN equals nothing.\<close>

fun number_of :: "json \<Rightarrow> (int \<times> int) option" where
  "number_of (JInt n) = Some (n, 0)"
| "number_of (JBool b) = Some (of_bool b, 0)"
| "number_of (JFloat (Finite neg m e)) = Some (if neg then - int m else int m, e)"
| "number_of _ = None"

definition same_number :: "int \<times> int \<Rightarrow> int \<times> int \<Rightarrow> bool" where
  "same_number x y \<longleftrightarrow>
    fst x * 2 ^ (nat (snd x) + nat (- snd y)) = fst y * 2 ^ (nat (snd y) + nat (- snd x))"

definition same_scalar :: "json \<Rightarrow> json \<Rightarrow> bool" where
  "same_scalar a b =
    (case (a, b) of
       (JNull, JNull) \<Rightarrow> True
     | (JStr s, JStr t) \<Rightarrow> s = t
     | (JFloat (Infinity p), JFloat (Infinity q)) \<Rightarrow> p = q
     | _ \<Rightarrow> (case (number_of a, number_of b) of (Some x, Some y) \<Rightarrow> same_number x y | _ \<Rightarrow> False))"

lemma size_dict_item: "(k, x) \<in> set (dict_items d) \<Longrightarrow> size x < Suc (size_list (size_prod (\<lambda>c. 0) size) d)"
proof -
  assume "(k, x) \<in> set (dict_items d)"
  then have "(k, x) \<in> set d" by (auto simp: dict_items_iff dest: map_of_SomeD)
  then show ?thesis by (induction d) (auto simp: less_Suc_eq_le)
qed

text \<open>\<open>a == b\<close>: lists element by element, dictionaries key by key.\<close>

function py_eq :: "json \<Rightarrow> json \<Rightarrow> bool" where
  "py_eq (JList xs) b =
    (case b of JList ys \<Rightarrow> length xs = length ys \<and> list_all (\<lambda>(x, y). py_eq x y) (zip xs ys) | _ \<Rightarrow> False)"
| "py_eq (JObj d) b =
    (case b of
       JObj e \<Rightarrow> length (dict_keys d) = length (dict_keys e) \<and>
         list_all (\<lambda>(k, x). case map_of (rev e) k of Some y \<Rightarrow> py_eq x y | None \<Rightarrow> False) (dict_items d)
     | _ \<Rightarrow> False)"
| "py_eq JNull b = same_scalar JNull b"
| "py_eq (JBool v) b = same_scalar (JBool v) b"
| "py_eq (JInt n) b = same_scalar (JInt n) b"
| "py_eq (JFloat f) b = same_scalar (JFloat f) b"
| "py_eq (JStr s) b = same_scalar (JStr s) b"
  by pat_completeness auto
termination
  by (relation "measure (\<lambda>(a, b). size a)") (auto dest!: set_zip_leftD size_dict_item simp: less_Suc_eq_le intro: size_list_estimation')

text \<open>\<open>d.get(k)\<close> as a value: \<open>None\<close> for a missing key, as for null.\<close>

definition get_value_of :: "json \<Rightarrow> string \<Rightarrow> json result" where
  "get_value_of d k = bindR (dot_get d k) (\<lambda>v. Inr (case v of Some x \<Rightarrow> x | None \<Rightarrow> JNull))"

definition get_default :: "json \<Rightarrow> string \<Rightarrow> json \<Rightarrow> json result" where
  "get_default d k v0 = bindR (dot_get d k) (\<lambda>v. Inr (case v of Some x \<Rightarrow> x | None \<Rightarrow> v0))"

text \<open>A list or a dictionary is no element of a set and no key of a dictionary.\<close>

definition hashable :: "json \<Rightarrow> bool" where
  "hashable v = (case v of JList xs \<Rightarrow> False | JObj d \<Rightarrow> False | _ \<Rightarrow> True)"

text \<open>Iterating over a JSON value.\<close>

definition iterate :: "json \<Rightarrow> json list result" where
  "iterate v =
    (case v of
       JList xs \<Rightarrow> Inr xs
     | JStr s \<Rightarrow> Inr (map (\<lambda>c. JStr [c]) s)
     | JObj d \<Rightarrow> Inr (map JStr (dict_keys d))
     | _ \<Rightarrow> Inl TypeError)"

lemma iterate_error: "iterate v = Inl e \<Longrightarrow> e = TypeError"
  by (auto simp: iterate_def split: json.splits)

lemma subscript_error: "subscript v k = Inl e \<Longrightarrow> e = KeyError \<or> e = TypeError"
  by (auto simp: subscript_def split: json.splits option.splits)


section \<open>Strings\<close>

definition starts_with :: "pystr \<Rightarrow> pystr \<Rightarrow> bool" where
  "starts_with s p \<longleftrightarrow> take (length p) s = p"

definition ends_with :: "pystr \<Rightarrow> pystr \<Rightarrow> bool" where
  "ends_with s p \<longleftrightarrow> length p \<le> length s \<and> drop (length s - length p) s = p"

lemma starts_with_prefix: "starts_with s p \<longleftrightarrow> prefix p s"
  by (simp add: starts_with_def take_eq_prefix)

lemma ends_with_suffix: "ends_with s p \<longleftrightarrow> suffix p s"
proof
  assume "suffix p s"
  then obtain r where "s = r @ p" by (auto simp: suffix_def)
  then show "ends_with s p" by (simp add: ends_with_def)
next
  assume "ends_with s p"
  then show "suffix p s" by (metis ends_with_def suffix_drop)
qed

text \<open>\<open>s.split(c)\<close> for a single character.\<close>

fun split_on :: "nat \<Rightarrow> pystr \<Rightarrow> pystr list" where
  "split_on c [] = [[]]"
| "split_on c (x # xs) =
    (if x = c then [] # split_on c xs
     else (case split_on c xs of [] \<Rightarrow> [[x]] | p # ps \<Rightarrow> (x # p) # ps))"

lemma split_on_nonempty: "split_on c s \<noteq> []"
  by (induction s) (auto split: list.split)


section \<open>Scripts that stop\<close>

text \<open>A script that calls \<open>fail\<close> ends with its message and exit code 1; other exceptions end it, too.\<close>

datatype 'm stop = Fail 'm | Raise py_exc

type_synonym ('m, 'a) script = "'m stop + 'a"

definition lift :: "'a result \<Rightarrow> ('m, 'a) script" where
  "lift r = (case r of Inl e \<Rightarrow> Inl (Raise e) | Inr x \<Rightarrow> Inr x)"

lemma lift_Inr: "lift r = Inr x \<longleftrightarrow> r = Inr x"
  by (auto simp: lift_def split: sum.split)

definition guard :: "bool \<Rightarrow> 'm \<Rightarrow> ('m, unit) script" where
  "guard ok m = (if ok then Inr () else Inl (Fail m))"

lemma guard_Inr: "guard ok m = Inr () \<longleftrightarrow> ok"
  by (simp add: guard_def)

lemma bind_lift: "bindR (lift r) f = Inr y \<longleftrightarrow> (\<exists>x. r = Inr x \<and> f x = Inr y)"
  by (simp add: bindR_eq_Inr lift_Inr)

lemma bind_guard: "bindR (guard ok m) f = Inr y \<longleftrightarrow> ok \<and> f () = Inr y"
  by (simp add: guard_def)

lemma some_case: "(case v of None \<Rightarrow> Inl e | Some m \<Rightarrow> f m) = Inr y \<longleftrightarrow> (\<exists>m. v = Some m \<and> f m = Inr y)"
  by (simp split: option.split)

fun all_checks :: "('m, unit) script list \<Rightarrow> ('m, unit) script" where
  "all_checks [] = Inr ()"
| "all_checks (c # cs) = bindR c (\<lambda>_. all_checks cs)"

lemma all_checks_iff: "all_checks cs = Inr () \<longleftrightarrow> list_all (\<lambda>c. c = Inr ()) cs"
  by (induction cs) (auto simp: bindR_eq_Inr)

text \<open>\<open>d.get(k) or {}\<close>\<close>

definition get_or_empty :: "json \<Rightarrow> string \<Rightarrow> json result" where
  "get_or_empty d k =
    bindR (dot_get d k) (\<lambda>v. Inr (case v of Some x \<Rightarrow> if truthy x then x else JObj [] | None \<Rightarrow> JObj []))"

end
