(* ===== verification/Contract_Check.thy ===== *)
theory Contract_Check
  imports Script_Base
begin

text \<open>
  The checks of the JSON contracts: \<open>contracts/validate_contracts.py\<close> for the suites shared
  by the clients and \<open>scripts/validate_protocol_snapshot.py\<close> for the protocol snapshot. A
  constructor of an issue stands for the message with those arguments.
\<close>

section \<open>Contract suites\<close>

definition REQUIRED_TOP_LEVEL :: "pystr list" where
  "REQUIRED_TOP_LEVEL = [lit ''version'', lit ''suite'', lit ''cases'']"

definition REQUIRED_CASE_FIELDS :: "pystr list" where
  "REQUIRED_CASE_FIELDS = [lit ''id'', lit ''operation'', lit ''inputs'', lit ''expect'']"

datatype contract_issue =
    InvalidJson pystr
  | MissingTopLevel pystr "pystr list"
  | CasesNotArray pystr
  | CaseNotObject pystr nat
  | CaseMissingFields pystr nat "pystr list"
  | DuplicateCaseId pystr pystr

fun check_cases :: "(json \<Rightarrow> pystr) \<Rightarrow> pystr \<Rightarrow> nat \<Rightarrow> pystr list \<Rightarrow> json list \<Rightarrow> contract_issue list" where
  "check_cases render p idx seen_ids [] = []"
| "check_cases render p idx seen_ids (JObj c # cs) =
    (if missing_keys REQUIRED_CASE_FIELDS c \<noteq> []
     then CaseMissingFields p idx (missing_keys REQUIRED_CASE_FIELDS c) # check_cases render p (idx + 1) seen_ids cs
     else
       let case_id = py_str render (the (dict_get c ''id'')) in
       (if case_id \<in> set seen_ids then [DuplicateCaseId p case_id] else [])
         @ check_cases render p (idx + 1) (case_id # seen_ids) cs)"
| "check_cases render p idx seen_ids (c # cs) = CaseNotObject p idx # check_cases render p (idx + 1) seen_ids cs"

definition validate_contract :: "(json \<Rightarrow> pystr) \<Rightarrow> files \<Rightarrow> pystr \<Rightarrow> contract_issue list result" where
  "validate_contract render fs p =
    (case load_json fs p of
       Inl e \<Rightarrow> Inr [InvalidJson p]
     | Inr (JObj d) \<Rightarrow>
         Inr (if missing_keys REQUIRED_TOP_LEVEL d \<noteq> [] then [MissingTopLevel p (missing_keys REQUIRED_TOP_LEVEL d)]
              else (case dict_get d ''cases'' of
                  Some (JList cs) \<Rightarrow> if cs = [] then [CasesNotArray p] else check_cases render p 0 [] cs
                | _ \<Rightarrow> [CasesNotArray p]))
     | Inr _ \<Rightarrow> Inl AttributeError)"

text \<open>
  The directory lists its entries, in any order; an entry that is no file is not among the
  readable ones. The exit code, with the number of files or the issues printed.
\<close>

datatype contracts_report = NoContracts | ContractIssues "contract_issue list" | Validated nat

definition contract_files :: "pystr list \<Rightarrow> pystr list" where
  "contract_files entries = sort (filter (\<lambda>p. ends_with p (lit ''.contract.json'')) entries)"

fun all_issues :: "(json \<Rightarrow> pystr) \<Rightarrow> files \<Rightarrow> pystr list \<Rightarrow> contract_issue list result" where
  "all_issues render fs [] = Inr []"
| "all_issues render fs (p # ps) =
    bindR (validate_contract render fs p) (\<lambda>xs. bindR (all_issues render fs ps) (\<lambda>ys. Inr (xs @ ys)))"

definition contracts_main :: "(json \<Rightarrow> pystr) \<Rightarrow> files \<Rightarrow> pystr list \<Rightarrow> (int \<times> contracts_report) result" where
  "contracts_main render fs entries =
    (let ps = contract_files entries in
     if ps = [] then Inr (1, NoContracts)
     else bindR (all_issues render fs ps) (\<lambda>xs.
       Inr (if xs \<noteq> [] then (1, ContractIssues xs) else (0, Validated (length ps)))))"


section \<open>What a valid suite is\<close>

definition case_ok :: "json \<Rightarrow> bool" where
  "case_ok v \<longleftrightarrow> (\<exists>c. v = JObj c \<and> list_all (has_key c) REQUIRED_CASE_FIELDS)"

definition id_of :: "(json \<Rightarrow> pystr) \<Rightarrow> json \<Rightarrow> pystr" where
  "id_of render v = (case v of JObj c \<Rightarrow> py_str render (the (dict_get c ''id'')) | _ \<Rightarrow> [])"

definition contract_ok :: "(json \<Rightarrow> pystr) \<Rightarrow> json \<Rightarrow> bool" where
  "contract_ok render v \<longleftrightarrow>
    (\<exists>d cs. v = JObj d \<and> list_all (has_key d) REQUIRED_TOP_LEVEL \<and> dict_get d ''cases'' = Some (JList cs) \<and>
       cs \<noteq> [] \<and> list_all case_ok cs \<and> distinct (map (id_of render) cs))"

lemma check_cases_none:
  "check_cases render p idx seen cs = [] \<longleftrightarrow>
    list_all case_ok cs \<and> distinct (map (id_of render) cs) \<and> set seen \<inter> set (map (id_of render) cs) = {}"
  by (induction render p idx seen cs rule: check_cases.induct)
     (auto simp: case_ok_def id_of_def missing_keys_none Let_def)

lemma validate_contract_none:
  "validate_contract render fs p = Inr [] \<longleftrightarrow> (\<exists>v. load_json fs p = Inr v \<and> contract_ok render v)"
  by (auto simp: validate_contract_def contract_ok_def missing_keys_none check_cases_none
      split: sum.splits json.splits option.splits if_splits)

lemma all_issues_none: "all_issues render fs ps = Inr [] \<longleftrightarrow> list_all (\<lambda>p. validate_contract render fs p = Inr []) ps"
  by (induction ps) (auto simp: bindR_eq_Inr)

text \<open>
  C26: the contract check succeeds exactly when there is a contract file and every one of them is
  valid JSON with all required fields, at least one case, and distinct case identifiers; in every other case
  the script returns 1 with a report, or stops with \<open>AttributeError\<close> on a suite that is no object.
\<close>

theorem contracts_accepted_iff:
  "(contracts_main render fs entries = Inr (0, Validated (length (contract_files entries))) \<longleftrightarrow>
     contract_files entries \<noteq> [] \<and>
     list_all (\<lambda>p. \<exists>v. load_json fs p = Inr v \<and> contract_ok render v) (contract_files entries)) \<and>
   (case contracts_main render fs entries of
      Inr (code, report) \<Rightarrow> code = (case report of Validated n \<Rightarrow> 0 | _ \<Rightarrow> 1)
    | Inl e \<Rightarrow> e = AttributeError)"
proof -
  have "all_issues render fs ps = Inl e \<Longrightarrow> e = AttributeError" for ps e
    by (induction ps) (auto simp: bindR_eq_Inl validate_contract_def split: sum.splits json.splits)
  then show ?thesis
    using all_issues_none [of render fs "contract_files entries"]
    by (auto simp: contracts_main_def Let_def validate_contract_none bindR_eq_Inr bindR_eq_Inl
        split: sum.split bindR_splits)
qed


section \<open>The protocol snapshot\<close>

definition SNAPSHOT :: pystr where
  "SNAPSHOT = lit ''contracts/protocol-contract.snapshot.json''"

definition REQUIRED_ENUMS :: "pystr list" where
  "REQUIRED_ENUMS = [lit ''NodeStatus'', lit ''ErrorCode'']"

definition REQUIRED_MESSAGES :: "pystr list" where
  "REQUIRED_MESSAGES = [lit ''Envelope'', lit ''ClientRequest'', lit ''ClientResponse'', lit ''ClusterMessage'',
    lit ''GossipMessage'', lit ''AdminRequest'', lit ''AdminResponse'', lit ''NodeStats'',
    lit ''NamespaceQuotaUsage'', lit ''NamespaceLatencySummary'', lit ''HotKeyUsage'']"

definition REQUIRED_FIELD_KEYS :: "pystr list" where
  "REQUIRED_FIELD_KEYS = [lit ''name'', lit ''type'', lit ''repeated'', lit ''tag'', lit ''oneof'']"

datatype snapshot_report =
    MissingSnapshot
  | InvalidSnapshot
  | NoProtocolVersion
  | NoSourcePackage
  | NoEnumsMessages
  | MissingEnums "pystr list"
  | MissingMessages "pystr list"
  | BadEnum pystr
  | BadMessage pystr
  | BadField pystr nat
  | FieldMissingKeys pystr nat "pystr list"
  | SnapshotOk json pystr nat

definition enum_values :: "json \<Rightarrow> bool" where
  "enum_values v = (case v of JList xs \<Rightarrow> list_all is_string xs | _ \<Rightarrow> False)"

fun check_fields :: "pystr \<Rightarrow> nat \<Rightarrow> json list \<Rightarrow> snapshot_report option" where
  "check_fields name idx [] = None"
| "check_fields name idx (JObj f # fs) =
    (if missing_keys REQUIRED_FIELD_KEYS f \<noteq> [] then Some (FieldMissingKeys name idx (missing_keys REQUIRED_FIELD_KEYS f))
     else check_fields name (idx + 1) fs)"
| "check_fields name idx (f # fs) = Some (BadField name idx)"

fun check_enums :: "(pystr \<times> json) list \<Rightarrow> snapshot_report option" where
  "check_enums [] = None"
| "check_enums ((name, values) # es) = (if \<not> enum_values values then Some (BadEnum name) else check_enums es)"

fun check_messages :: "(pystr \<times> json) list \<Rightarrow> snapshot_report option" where
  "check_messages [] = None"
| "check_messages ((name, msg) # ms) =
    (case msg of
       JList fs \<Rightarrow> (case check_fields name 0 fs of Some r \<Rightarrow> Some r | None \<Rightarrow> check_messages ms)
     | _ \<Rightarrow> Some (BadMessage name))"

definition opt_holds :: "(json \<Rightarrow> bool) \<Rightarrow> json option \<Rightarrow> bool" where
  "opt_holds P v = (case v of None \<Rightarrow> False | Some x \<Rightarrow> P x)"

definition ok_report :: "dict \<Rightarrow> dict \<Rightarrow> snapshot_report" where
  "ok_report d enums =
    SnapshotOk (the (dict_get d ''protocol_version''))
      (case dict_get d ''package'' of Some (JStr p) \<Rightarrow> p | _ \<Rightarrow> [])
      (case dict_get enums ''ErrorCode'' of Some (JList xs) \<Rightarrow> length xs | _ \<Rightarrow> 0)"

text \<open>The checks after the file has been read, in the order of the code.\<close>

definition check_snapshot :: "dict \<Rightarrow> int \<times> snapshot_report" where
  "check_snapshot d =
    (if \<not> opt_holds is_integer (dict_get d ''protocol_version'') then (1, NoProtocolVersion)
     else if \<not> opt_holds is_string (dict_get d ''source'') \<or> \<not> opt_holds is_string (dict_get d ''package'') then (1, NoSourcePackage)
     else (case (dict_get d ''enums'', dict_get d ''messages'') of
         (Some (JObj enums), Some (JObj messages)) \<Rightarrow>
           if missing_keys REQUIRED_ENUMS enums \<noteq> [] then (1, MissingEnums (missing_keys REQUIRED_ENUMS enums))
           else if missing_keys REQUIRED_MESSAGES messages \<noteq> [] then (1, MissingMessages (missing_keys REQUIRED_MESSAGES messages))
           else (case check_enums (dict_items enums) of
               Some r \<Rightarrow> (1, r)
             | None \<Rightarrow>
                 (case check_messages (dict_items messages) of
                    Some r \<Rightarrow> (1, r)
                  | None \<Rightarrow>
                      (0, ok_report d enums)))
       | _ \<Rightarrow> (1, NoEnumsMessages)))"

definition snapshot_main :: "files \<Rightarrow> (int \<times> snapshot_report) result" where
  "snapshot_main fs =
    (if fs SNAPSHOT = None then Inr (1, MissingSnapshot)
     else (case load_json_sig fs SNAPSHOT of
         Inl e \<Rightarrow> Inr (1, InvalidSnapshot)
       | Inr (JObj d) \<Rightarrow> Inr (check_snapshot d)
       | Inr _ \<Rightarrow> Inl AttributeError))"

text \<open>The shape of a snapshot, as the docstring of the script describes it.\<close>

definition field_ok :: "json \<Rightarrow> bool" where
  "field_ok v \<longleftrightarrow> (\<exists>f. v = JObj f \<and> list_all (has_key f) REQUIRED_FIELD_KEYS)"

definition message_ok :: "json \<Rightarrow> bool" where
  "message_ok v \<longleftrightarrow> (\<exists>fs. v = JList fs \<and> list_all field_ok fs)"

definition snapshot_ok :: "json \<Rightarrow> bool" where
  "snapshot_ok v \<longleftrightarrow>
    (\<exists>d enums messages ver src pkg. v = JObj d \<and>
       dict_get d ''protocol_version'' = Some ver \<and> is_integer ver \<and>
       dict_get d ''source'' = Some (JStr src) \<and> dict_get d ''package'' = Some (JStr pkg) \<and>
       dict_get d ''enums'' = Some (JObj enums) \<and> dict_get d ''messages'' = Some (JObj messages) \<and>
       list_all (has_key enums) REQUIRED_ENUMS \<and> list_all (has_key messages) REQUIRED_MESSAGES \<and>
       list_all (\<lambda>(k, e). enum_values e) (dict_items enums) \<and>
       list_all (\<lambda>(k, m). message_ok m) (dict_items messages))"

lemma check_fields_none: "check_fields name idx fs = None \<longleftrightarrow> list_all field_ok fs"
  by (induction name idx fs rule: check_fields.induct) (auto simp: field_ok_def missing_keys_none)

lemma check_fields_some: "check_fields name idx fs = Some r \<Longrightarrow> \<not> list_all field_ok fs"
  using check_fields_none [of name idx fs] by simp

lemma check_enums_none: "check_enums es = None \<longleftrightarrow> list_all (\<lambda>(k, e). enum_values e) es"
  by (induction es rule: check_enums.induct) auto

lemma check_messages_none: "check_messages ms = None \<longleftrightarrow> list_all (\<lambda>(k, m). message_ok m) ms"
  by (induction ms rule: check_messages.induct)
     (auto simp: message_ok_def check_fields_none dest: check_fields_some split: json.split option.split)

lemma check_some: "check_enums es = Some r \<Longrightarrow> \<not> list_all (\<lambda>(k, e). enum_values e) es"
  "check_messages ms = Some r \<Longrightarrow> \<not> list_all (\<lambda>(k, m). message_ok m) ms"
  using check_enums_none [of es] check_messages_none [of ms] by auto

lemma opt_string: "opt_holds is_string v \<longleftrightarrow> (\<exists>s. v = Some (JStr s))"
  by (auto simp: opt_holds_def is_string_def split: option.split json.split)

lemma opt_integer: "opt_holds is_integer v \<longleftrightarrow> (\<exists>x. v = Some x \<and> is_integer x)"
  by (auto simp: opt_holds_def split: option.split)

lemma check_snapshot_code: "fst (check_snapshot d) = (if snapshot_ok (JObj d) then 0 else 1)"
  by (auto simp: check_snapshot_def snapshot_ok_def opt_string opt_integer missing_keys_none
      check_enums_none check_messages_none dest: check_some split: option.splits json.splits)

text \<open>
  C27: the snapshot check returns 0 exactly when the snapshot is a JSON object of the documented
  shape (version, source, package, the required enumerations and messages, every enumeration a
  list of strings, every message a list of fields with all five keys), and 1 otherwise; only a
  snapshot that is no object makes it stop with an exception.
\<close>

theorem snapshot_accepted_iff:
  "case snapshot_main fs of
     Inr (code, report) \<Rightarrow>
       code = (if \<exists>v. load_json_sig fs SNAPSHOT = Inr v \<and> snapshot_ok v then 0 else 1)
   | Inl e \<Rightarrow> e = AttributeError \<and> (\<exists>v. load_json_sig fs SNAPSHOT = Inr v \<and> (\<nexists>d. v = JObj d))"
proof -
  have gone: "load_json_sig fs SNAPSHOT = Inl (OSError (Some ENOENT))" if "fs SNAPSHOT = None"
    using that by (simp add: load_json_sig_def read_bytes_def)
  have code: "check_snapshot d = (a, b) \<Longrightarrow> a = (if snapshot_ok (JObj d) then 0 else 1)" for d a b
    using check_snapshot_code [of d] by simp
  show ?thesis
    using gone by (auto simp: snapshot_main_def dest: code split: sum.split json.split prod.split)
qed

end
