(* ===== verification/Py_Dumps.thy ===== *)
theory Py_Dumps
  imports Script_Base
begin

text \<open>
  \<open>json.dumps(v, indent=2, sort_keys=True)\<close> as the scripts use it: the text of a float, the
  text of a value whose keys are sorted, and the normal form \<open>canon\<close> that sorting produces.
  What is written reads back as the normal form, for every value that a file can hold; so two
  values have the same text exactly when \<open>same_data\<close> holds of them.
\<close>

section \<open>\<open>repr\<close> of a float\<close>

definition strip_zeros :: "pystr \<Rightarrow> pystr" where
  "strip_zeros ds = rev (dropWhile (\<lambda>c. c = 48) (rev ds))"

definition two_digits :: "nat \<Rightarrow> pystr" where
  "two_digits n = (if n < 10 then 48 # digits_nat n else digits_nat n)"

text \<open>The digits \<open>ds\<close> with the decimal point behind the first \<open>p\<close> of them.\<close>

definition float_text :: "bool \<Rightarrow> pystr \<Rightarrow> int \<Rightarrow> pystr" where
  "float_text sg ds p =
    (if sg then [45] else []) @
    (if p \<le> - 4 \<or> p > 16 then
       take 1 ds @ (if length ds > 1 then 46 # drop 1 ds else []) @
       [101, if p \<le> 0 then 45 else 43] @ two_digits (nat \<bar>p - 1\<bar>)
     else if p \<le> 0 then [48, 46] @ replicate (nat (- p)) 48 @ ds
     else if int (length ds) \<le> p then ds @ replicate (nat p - length ds) 48 @ [46, 48]
     else take (nat p) ds @ 46 # drop (nat p) ds)"

text \<open>The value as a fraction, and its decimal exponent: \<open>10 ^ (p - 1) \<le> num / den < 10 ^ p\<close>.\<close>

definition fraction_of :: "nat \<Rightarrow> int \<Rightarrow> nat \<times> nat" where
  "fraction_of m k = (m * 2 ^ nat k, 2 ^ nat (- k))"

definition decimal_exponent :: "nat \<Rightarrow> nat \<Rightarrow> int" where
  "decimal_exponent num den =
    (let p = int (length (digits_nat num)) - int (length (digits_nat den))
     in if den * 10 ^ nat p \<le> num * 10 ^ nat (- p) then p + 1 else p)"

text \<open>The two numbers of \<open>n\<close> digits around the value, the nearer one first.\<close>

definition candidates :: "bool \<Rightarrow> nat \<Rightarrow> int \<Rightarrow> nat \<Rightarrow> pystr list" where
  "candidates sg m k n =
    (case fraction_of m k of (num, den) \<Rightarrow>
       let p = decimal_exponent num den; x = int n - p;
           a = num * 10 ^ nat x; b = den * 10 ^ nat (- x);
           q = a div b; near = round_even a b;
           show_digits = (\<lambda>d. let ds = digits_nat d in
             float_text sg (strip_zeros ds) (p + int (length ds) - int n))
       in [show_digits near, show_digits (if near = q then q + 1 else q)])"

text \<open>
  The shortest decimal that reads back as the same double. Seventeen digits are always enough;
  the exact decimal behind them makes the function total without that theorem.
\<close>

definition exact_text :: "bool \<Rightarrow> nat \<Rightarrow> int \<Rightarrow> pystr" where
  "exact_text sg m k =
    (if sg then [45] else []) @
    digits_nat (m * (if 0 \<le> k then 2 ^ nat k else 5 ^ nat (- k))) @ 101 # py_str_int (min k 0)"

fun float_repr :: "pyfloat \<Rightarrow> pystr" where
  "float_repr NaN = lit ''NaN''"
| "float_repr (Infinity sg) = (if sg then lit ''-Infinity'' else lit ''Infinity'')"
| "float_repr (Finite sg m k) =
    (if m = 0 then (if sg then [45] else []) @ lit ''0.0''
     else (case List.find (\<lambda>t. j_number t = Some (JFloat (Finite sg m k), []))
               (concat (map (candidates sg m k) [1..<18])) of
             Some t \<Rightarrow> t
           | None \<Rightarrow> exact_text sg m k))"


section \<open>Writing\<close>

definition newline_indent :: "nat \<Rightarrow> pystr" where
  "newline_indent l = 10 # replicate (2 * l) 32"

fun join_with :: "pystr \<Rightarrow> pystr list \<Rightarrow> pystr" where
  "join_with sep [] = []"
| "join_with sep [x] = x"
| "join_with sep (x # y # xs) = x @ sep @ join_with sep (y # xs)"

text \<open>A value whose dictionaries are in the order in which they are written.\<close>

fun dumps :: "nat \<Rightarrow> json \<Rightarrow> pystr" where
  "dumps l JNull = lit ''null''"
| "dumps l (JBool b) = (if b then lit ''true'' else lit ''false'')"
| "dumps l (JInt n) = py_str_int n"
| "dumps l (JFloat f) = float_repr f"
| "dumps l (JStr s) = dumps_str s"
| "dumps l (JList xs) =
    (if xs = [] then lit ''[]''
     else 91 # newline_indent (l + 1) @ join_with (44 # newline_indent (l + 1)) (map (dumps (l + 1)) xs) @
       newline_indent l @ [93])"
| "dumps l (JObj d) =
    (if d = [] then lit ''{}''
     else 123 # newline_indent (l + 1) @
       join_with (44 # newline_indent (l + 1)) (map (\<lambda>p. dumps_str (fst p) @ [58, 32] @ dumps (l + 1) (snd p)) d) @
       newline_indent l @ [125])"

text \<open>A dictionary has every key once; \<open>sort_keys\<close> puts them in order.\<close>

function canon :: "json \<Rightarrow> json" where
  "canon (JList xs) = JList (map canon xs)"
| "canon (JObj d) = JObj (sort_key fst (map (\<lambda>p. (fst p, canon (snd p))) (dict_items d)))"
| "canon JNull = JNull"
| "canon (JBool b) = JBool b"
| "canon (JInt n) = JInt n"
| "canon (JFloat f) = JFloat f"
| "canon (JStr s) = JStr s"
  by pat_completeness auto
termination
  by (relation "measure size")
     (auto simp: less_Suc_eq_le intro: size_list_estimation' dest: size_dict_item)

definition dumps_sorted :: "json \<Rightarrow> pystr" where
  "dumps_sorted v = dumps 0 (canon v)"

section \<open>Numbers read back\<close>

lemma span_append:
  assumes "ends_number r"
  shows "takeWhile is_digit (t @ r) = takeWhile is_digit t" "dropWhile is_digit (t @ r) = dropWhile is_digit t @ r"
proof -
  have r: "takeWhile is_digit r = []" "dropWhile is_digit r = r"
    using assms by (auto simp: ends_number_def split: list.splits)
  show "takeWhile is_digit (t @ r) = takeWhile is_digit t" "dropWhile is_digit (t @ r) = dropWhile is_digit t @ r"
    by (induction t) (simp_all add: r)
qed

lemma j_frac_append:
  assumes "ends_number r"
  shows "j_frac (t @ r) = (fst (j_frac t), snd (j_frac t) @ r)"
proof (cases t)
  case Nil
  then show ?thesis using frac_exp_none(1) [OF assms] by simp
next
  case (Cons p u)
  then show ?thesis using assms span_append [OF assms, of "tl u"] by (cases u; cases r) (auto simp: ends_number_def)
qed

lemma exp_sign_append: "snd (exp_sign s) \<noteq> [] \<Longrightarrow> exp_sign (s @ r) = (fst (exp_sign s), snd (exp_sign s) @ r)"
  by (cases s) (auto simp: exp_sign_def)

lemma j_exp_append:
  assumes "ends_number r" "j_exp t = (x, [])"
  shows "j_exp (t @ r) = (x, r)"
proof (cases t)
  case Nil
  with assms show ?thesis using frac_exp_none(2) [of r] by (simp add: j_exp_def)
next
  case (Cons e es)
  obtain neg ds where sg: "exp_sign es = (neg, ds)" by (cases "exp_sign es")
  have "ds \<noteq> []" using assms(2) sg by (auto simp: Cons j_exp_def split: if_splits)
  then have "exp_sign (es @ r) = (neg, ds @ r)" using exp_sign_append [of es r] sg by simp
  then show ?thesis
    using assms sg by (auto simp: Cons j_exp_def span_append Let_def split: if_splits)
qed

lemma j_number_append:
  assumes "ends_number r" "j_number t = Some (v, [])"
  shows "j_number (t @ r) = Some (v, r)"
proof -
  define neg where "neg = (case t of c # cs \<Rightarrow> c = 45 | [] \<Rightarrow> False)"
  define t1 where "t1 = (if neg then tl t else t)"
  obtain c cs where t1: "t1 = c # cs" "is_digit c"
    using assms(2) by (auto simp: j_number_def Let_def t1_def neg_def split: list.splits if_splits)
  have "t \<noteq> []" using t1 by (auto simp: t1_def neg_def split: if_splits list.splits)
  then have app: "(case t @ r of c # cs \<Rightarrow> c = 45 | [] \<Rightarrow> False) = neg" "(if neg then tl (t @ r) else t @ r) = c # cs @ r"
    using t1(1) by (cases t; auto simp: t1_def neg_def)+
  have "t1 @ r = c # cs @ r" using t1 by simp
  define t2 where "t2 = (if c = 48 then cs else dropWhile is_digit t1)"
  have t2: "(if c = 48 then cs @ r else dropWhile is_digit (c # cs @ r)) = t2 @ r"
    using span_append(2) [OF assms(1), of t1] t1 by (simp add: t2_def)
  have ip: "takeWhile is_digit (c # cs @ r) = takeWhile is_digit (c # cs)"
    using span_append(1) [OF assms(1), of t1] t1 by simp
  obtain fp t3 where f: "j_frac t2 = (fp, t3)" by (cases "j_frac t2")
  obtain ex where e: "j_exp t3 = (ex, [])"
    and v: "number_value neg (if c = 48 then [48] else takeWhile is_digit (c # cs)) fp ex = v"
    using assms(2) t1 f unfolding j_number_def Let_def neg_def [symmetric] t1_def [symmetric] t2_def
    by (auto split: prod.splits)
  show ?thesis
    using t1(2) t2 f j_frac_append [OF assms(1), of t2] j_exp_append [OF assms(1) e] v
    unfolding j_number_def Let_def app ip by simp
qed

lemma j_number_head:
  "j_number s = Some x \<Longrightarrow> (\<exists>c cs. s = c # cs \<and> is_digit c) \<or> (\<exists>c cs. s = 45 # c # cs \<and> is_digit c)"
  by (auto simp: j_number_def Let_def split: list.splits if_splits)

lemma j_scalar_number: "j_number s = Some x \<Longrightarrow> j_scalar s = Some x"
proof -
  assume num: "j_number s = Some x"
  have "j_word w s = None" if "w \<in> {''null'', ''true'', ''false'', ''NaN'', ''Infinity'', ''-Infinity''}" for w
    using j_number_head [OF num] that by (auto simp: j_word_def lit_def is_digit_def)
  then show ?thesis by (simp add: j_scalar_def num)
qed

fun float_ok :: "pyfloat \<Rightarrow> bool" where
  "float_ok (Finite sg m k) = normal_form m k"
| "float_ok f = True"

lemma j_exp_int: "j_exp (101 # py_str_int x) = (Some x, [])"
proof -
  obtain d ds where dd: "digits_nat (nat \<bar>x\<bar>) = d # ds" "is_digit d" "list_all is_digit ds"
    using digits_nat_digits [of "nat \<bar>x\<bar>"] by (cases "digits_nat (nat \<bar>x\<bar>)") auto
  have dv: "digits_value (d # ds) = nat \<bar>x\<bar>" using digits_value_digits [of "nat \<bar>x\<bar>"] dd(1) by simp
  have "is_digit c" if "c \<in> set ds" for c using dd(3) that by (simp add: list_all_iff)
  then have span: "takeWhile is_digit (d # ds) = d # ds" "dropWhile is_digit (d # ds) = []"
    using dd(2) by (auto intro: takeWhile_eq_all_conv [THEN iffD2] simp: dropWhile_eq_Nil_conv)
  have "exp_sign (py_str_int x) = (x < 0, d # ds)"
    using dd(1,2) by (auto simp: py_str_int_def exp_sign_def is_digit_def)
  then show ?thesis
    unfolding j_exp_def using span dv by (simp add: Let_def)
qed

lemma j_number_exact:
  assumes "normal_form m k" "m \<noteq> 0"
  shows "j_number (exact_text sg m k) = Some (JFloat (Finite sg m k), [])"
proof -
  let ?n = "m * (if 0 \<le> k then 2 ^ nat k else 5 ^ nat (- k))" and ?x = "101 # py_str_int (min k 0)"
  obtain d ds where dd: "digits_nat ?n = d # ds" "is_digit d" "list_all is_digit ds"
    using digits_nat_digits [of ?n] by (cases "digits_nat ?n") auto
  have "d \<noteq> 48" using digits_nat_head [of ?n] dd(1) assms(2) by (auto split: if_splits)
  moreover have "d \<noteq> 45" using dd(2) by (auto simp: is_digit_def)
  moreover have span: "takeWhile is_digit (d # ds @ ?x) = d # ds" "dropWhile is_digit (d # ds @ ?x) = ?x"
    using dd(2,3) by (auto simp: list_all_iff takeWhile_append dropWhile_append is_digit_def)
  moreover have "digits_value (d # ds) = ?n" using digits_value_digits [of ?n] dd(1) by simp
  moreover have "j_frac ?x = (None, ?x)" by (cases "py_str_int (min k 0)") simp_all
  ultimately show ?thesis
    using dd(2) double_of_exact [OF assms(1), of sg] j_exp_int [of "min k 0"]
    unfolding exact_text_def dd(1) by (cases sg) (simp_all add: j_number_def number_value_def del: takeWhile.simps dropWhile.simps)
qed

lemma j_scalar_float:
  assumes "float_ok f" "ends_number r"
  shows "j_scalar (float_repr f @ r) = Some (JFloat f, r)"
proof (cases f)
  case (Finite sg m k)
  have "j_number (float_repr f) = Some (JFloat f, [])"
  proof (cases "m = 0")
    case True
    then show ?thesis
      using assms(1) by (cases sg) (simp_all add: Finite normal_form_def j_number_def lit_def is_digit_def j_exp_def
          number_value_def digits_value_def double_of_def)
  next
    case False
    then show ?thesis
      using assms(1) j_number_exact [of m k sg] by (auto simp: Finite find_Some_iff split: option.split)
  qed
  then show ?thesis by (intro j_scalar_number j_number_append assms(2))
qed (auto simp: j_scalar_def j_word_def lit_def)


section \<open>Strings read back\<close>

text \<open>
  A string of a JSON text may hold lone surrogates, as escapes; a high one directly before a
  low one would be read as a pair.
\<close>

definition high_surrogate :: "nat \<Rightarrow> bool" where
  "high_surrogate c \<longleftrightarrow> 0xD800 \<le> c \<and> c \<le> 0xDBFF"

definition low_surrogate :: "nat \<Rightarrow> bool" where
  "low_surrogate c \<longleftrightarrow> 0xDC00 \<le> c \<and> c \<le> 0xDFFF"

fun readable_str :: "pystr \<Rightarrow> bool" where
  "readable_str [] = True"
| "readable_str (c # s) \<longleftrightarrow>
    c \<le> 0x10FFFF \<and> readable_str s \<and>
    \<not> (high_surrogate c \<and> (case s of [] \<Rightarrow> False | d # ds \<Rightarrow> low_surrogate d))"

lemma encodable_readable: "encodable s \<Longrightarrow> readable_str s"
  by (induction s) (auto simp: encodable_def encodable_cp_def is_surrogate_def high_surrogate_def)

lemma low_escape_esc:
  assumes "c \<le> 0x10FFFF" "\<not> low_surrogate c"
  shows "low_escape (esc_cp c @ t) = None"
proof -
  have u: "low_escape (u_escape u @ t') = None" if "u < 0x10000" "\<not> low_surrogate u" for u t'
    using that by (auto simp: u_escape_def hex4_escape low_surrogate_def)
  have short: "low_escape (x # y # t) = None" if "y \<noteq> 117" for x y
    using that by (cases "x # y # t" rule: low_escape.cases) auto
  have one: "low_escape (x # t) = None" if "x \<noteq> 92" for x
    using that by (cases "x # t" rule: low_escape.cases) auto
  have "(c - 65536) div 1024 < 1024" using assms(1) by (auto simp: less_mult_imp_div_less)
  then show ?thesis
    using assms u [of c t] by (auto simp: esc_cp_def short one u low_surrogate_def)
qed

lemma j_string_dumps_readable:
  "readable_str s \<Longrightarrow> j_string (concat (map esc_cp s) @ 34 # r) = Some (s, r)"
proof (induction s)
  case Nil
  then show ?case by (simp add: j_string.simps [of "_ # _"])
next
  case (Cons c s)
  let ?t = "concat (map esc_cp s) @ 34 # r"
  have IH: "j_string ?t = Some (s, r)" using Cons by simp
  show ?case
  proof (cases "is_surrogate c")
    case False
    then show ?thesis
      using Cons.prems j_string_esc [of c ?t] IH by (simp add: encodable_cp_def put_cp_def)
  next
    case True
    then have esc: "esc_cp c = u_escape c" "c < 0x10000"
      by (auto simp: esc_cp_def is_surrogate_def)
    have "low_escape ?t = None" if "high_surrogate c"
    proof (cases s)
      case Nil
      then show ?thesis by (cases "34 # r" rule: low_escape.cases) auto
    next
      case (Cons d ds)
      then show ?thesis
        using Cons.prems that low_escape_esc [of d "concat (map esc_cp ds) @ 34 # r"] by simp
    qed
    then have "(if 0xD800 \<le> c \<and> c \<le> 0xDBFF then low_escape ?t else None) = None"
      by (simp add: high_surrogate_def)
    then show ?thesis
      using j_string_u_escape [OF esc(2), of ?t] IH by (simp add: esc(1) put_cp_def)
  qed
qed

section \<open>Values read back\<close>

text \<open>A value that a JSON text can denote.\<close>

fun readable :: "json \<Rightarrow> bool" where
  "readable (JFloat f) = float_ok f"
| "readable (JStr s) = readable_str s"
| "readable (JList xs) = list_all readable xs"
| "readable (JObj d) = list_all (\<lambda>p. readable_str (fst p) \<and> readable (snd p)) d"
| "readable v = True"

text \<open>The parsers' results with any fuel from some amount on.\<close>

definition reads :: "(nat \<Rightarrow> pystr \<Rightarrow> ('a \<times> pystr) option) \<Rightarrow> pystr \<Rightarrow> 'a \<Rightarrow> pystr \<Rightarrow> bool" where
  "reads P s v r \<longleftrightarrow> (\<exists>n0. \<forall>n\<ge>n0. P n s = Some (v, r))"

lemma reads_Suc: "(\<And>n. n \<ge> n0 \<Longrightarrow> P (Suc n) s = Some (v, r)) \<Longrightarrow> reads P s v r"
  unfolding reads_def by (rule exI [of _ "Suc n0"]) (metis Suc_le_D Suc_le_mono)

lemma reads_json:
  assumes "reads j_value s v r"
  shows "j_value (2 * length s + 1) s = Some (v, r)"
proof -
  obtain n0 where n0: "\<And>n. n \<ge> n0 \<Longrightarrow> j_value n s = Some (v, r)" using assms unfolding reads_def by blast
  let ?n = "max n0 (2 * length s + 1)"
  have "j_value ?n s = j_value (2 * length s + 1) s" by (rule json_fuel_enough) simp
  then show ?thesis using n0 [of ?n] by simp
qed

lemma reads_members:
  assumes "readable_str k" "reads j_value s v r" "j_ws s = s"
  shows "j_ws r = 125 # t \<Longrightarrow> reads j_members (dumps_str k @ [58, 32] @ s) [(k, v)] t"
    and "j_ws r = 44 # u \<Longrightarrow> reads j_members (j_ws u) kvs t \<Longrightarrow>
      reads j_members (dumps_str k @ [58, 32] @ s) ((k, v) # kvs) t"
proof -
  obtain n0 where n0: "\<And>n. n \<ge> n0 \<Longrightarrow> j_value n s = Some (v, r)" using assms(2) unfolding reads_def by blast
  have str: "j_string (concat (map esc_cp k) @ 34 # 58 # 32 # s) = Some (k, 58 # 32 # s)"
    by (rule j_string_dumps_readable [OF assms(1)])
  have ws: "j_ws (58 # 32 # s) = 58 # 32 # s" "j_ws (32 # s) = s"
    using assms(3) by (simp_all add: j_ws_def j_space_def)
  show "reads j_members (dumps_str k @ [58, 32] @ s) [(k, v)] t" if "j_ws r = 125 # t"
    by (rule reads_Suc [of n0]) (simp add: j_members.simps(2) dumps_str_def str ws n0 that)
  show "reads j_members (dumps_str k @ [58, 32] @ s) ((k, v) # kvs) t" if more: "j_ws r = 44 # u" "reads j_members (j_ws u) kvs t"
  proof -
    obtain n1 where n1: "\<And>n. n \<ge> n1 \<Longrightarrow> j_members n (j_ws u) = Some (kvs, t)" using more(2) unfolding reads_def by blast
    show ?thesis
      by (rule reads_Suc [of "max n0 n1"]) (simp add: j_members.simps(2) dumps_str_def str ws n0 n1 more(1))
  qed
qed

lemma reads_elements:
  assumes "reads j_value s v r"
  shows "j_ws r = 93 # t \<Longrightarrow> reads j_elements s [v] t"
    and "j_ws r = 44 # u \<Longrightarrow> reads j_elements (j_ws u) vs t \<Longrightarrow> reads j_elements s (v # vs) t"
proof -
  obtain n0 where n0: "\<And>n. n \<ge> n0 \<Longrightarrow> j_value n s = Some (v, r)" using assms unfolding reads_def by blast
  show "reads j_elements s [v] t" if "j_ws r = 93 # t"
    by (rule reads_Suc [of n0]) (simp add: j_elements.simps(2) n0 that)
  show "reads j_elements s (v # vs) t" if more: "j_ws r = 44 # u" "reads j_elements (j_ws u) vs t"
  proof -
    obtain n1 where n1: "\<And>n. n \<ge> n1 \<Longrightarrow> j_elements n (j_ws u) = Some (vs, t)" using more(2) unfolding reads_def by blast
    show ?thesis
      by (rule reads_Suc [of "max n0 n1"]) (simp add: j_elements.simps(2) n0 n1 more(1))
  qed
qed

lemma j_ws_indent: "j_ws (newline_indent l @ s) = j_ws s"
proof -
  have "dropWhile j_space (replicate n 32 @ s) = dropWhile j_space s" for n
    by (induction n) (simp_all add: j_space_def)
  then show ?thesis by (simp add: newline_indent_def j_ws_def j_space_def)
qed

lemma ends_number_indent [simp]: "ends_number (newline_indent l @ s)" "ends_number (44 # s)"
  by (simp_all add: ends_number_def newline_indent_def is_digit_def)

lemma closing_ws [simp]: "j_ws (93 # r) = 93 # r" "j_ws (125 # r) = 125 # r" "j_ws (44 # r) = 44 # r"
  by (simp_all add: j_ws_def j_space_def)

text \<open>A text that starts a value: no white space, no byte order mark, and nothing that closes
  a list or a dictionary.\<close>

definition value_head :: "pystr \<Rightarrow> bool" where
  "value_head s \<longleftrightarrow> (case s of [] \<Rightarrow> False | c # cs \<Rightarrow> \<not> j_space c \<and> c \<noteq> 93 \<and> c \<noteq> 125 \<and> c \<noteq> 0xFEFF)"

lemma value_head_ws: "value_head s \<Longrightarrow> j_ws (s @ r) = s @ r"
  by (cases s) (auto simp: value_head_def j_ws_def)

lemma join_with_head: "x \<noteq> [] \<Longrightarrow> hd (join_with sep (x # xs) @ r) = hd x"
  by (cases xs) simp_all

lemma elements_joined:
  assumes "\<And>x r. x \<in> set xs \<Longrightarrow> ends_number r \<Longrightarrow> reads j_value (f x @ r) x r"
    and "\<And>x. x \<in> set xs \<Longrightarrow> value_head (f x)" and "xs \<noteq> []"
  shows "reads j_elements (join_with (44 # newline_indent l) (map f xs) @ newline_indent l' @ 93 # r) xs r"
  using assms
proof (induction xs)
  case (Cons x xs)
  show ?case
  proof (cases xs)
    case Nil
    have "reads j_value (f x @ newline_indent l' @ 93 # r) x (newline_indent l' @ 93 # r)"
      by (rule Cons.prems(1)) simp_all
    then show ?thesis by (simp add: Nil j_ws_indent reads_elements(1))
  next
    case (Cons y ys)
    let ?t = "join_with (44 # newline_indent l) (map f xs) @ newline_indent l' @ 93 # r"
    have "reads j_value (f x @ 44 # newline_indent l @ ?t) x (44 # newline_indent l @ ?t)"
      by (rule Cons.prems(1)) simp_all
    moreover have "reads j_elements ?t xs r"
      using Cons.IH Cons.prems Cons by simp
    moreover have "j_ws ?t = ?t"
      using Cons.prems(2) [of y] Cons join_with_head [of "f y" "44 # newline_indent l" "map f ys"]
      by (intro j_ws_id) (auto simp: value_head_def split: list.splits)
    ultimately show ?thesis using Cons by (simp add: j_ws_indent reads_elements(2))
  qed
qed simp

lemma members_joined:
  assumes "\<And>p r. p \<in> set d \<Longrightarrow> ends_number r \<Longrightarrow> reads j_value (f (snd p) @ r) (snd p) r"
    and "\<And>p. p \<in> set d \<Longrightarrow> readable_str (fst p) \<and> value_head (f (snd p))" and "d \<noteq> []"
  defines "g \<equiv> \<lambda>p. dumps_str (fst p) @ [58, 32] @ f (snd p)"
  shows "reads j_members (join_with (44 # newline_indent l) (map g d) @ newline_indent l' @ 125 # r) d r"
  using assms(1-3)
proof (induction d)
  case (Cons p d)
  obtain k v where p: "p = (k, v)" by (cases p)
  have k: "readable_str k" and ws: "j_ws (f v @ t) = f v @ t" for t
    using Cons.prems(2) [of p] p value_head_ws by auto
  show ?case
  proof (cases d)
    case Nil
    have "reads j_value (f v @ newline_indent l' @ 125 # r) v (newline_indent l' @ 125 # r)"
      using Cons.prems(1) [of p] p by simp
    from reads_members(1) [OF k this ws] show ?thesis by (simp add: Nil p g_def j_ws_indent)
  next
    case (Cons q qs)
    let ?t = "join_with (44 # newline_indent l) (map g d) @ newline_indent l' @ 125 # r"
    have v: "reads j_value (f v @ 44 # newline_indent l @ ?t) v (44 # newline_indent l @ ?t)"
      using Cons.prems(1) [of p] p by simp
    have "reads j_members ?t d r"
      using Cons.IH Cons.prems Cons by simp
    moreover have "j_ws ?t = ?t"
      using Cons join_with_head [of "g q" "44 # newline_indent l" "map g qs"]
      by (intro j_ws_id) (auto simp: g_def dumps_str_def j_space_def)
    ultimately show ?thesis
      using reads_members(2) [OF k v ws, of "newline_indent l @ ?t" d r] Cons by (simp add: p g_def j_ws_indent)
  qed
qed simp

lemma reads_scalar:
  assumes "j_scalar s = Some (v, r)" "s \<noteq> []" "hd s \<notin> {34, 123, 91}"
  shows "reads j_value s v r"
  using assms by (intro reads_Suc [of 0]) (auto simp: j_value.simps(2) split: list.split)

lemma reads_list:
  "reads j_elements s xs r \<Longrightarrow> value_head s \<Longrightarrow> reads j_value (91 # newline_indent l @ s) (JList xs) r"
proof -
  assume "reads j_elements s xs r" and head: "value_head s"
  then obtain n0 where n0: "\<And>n. n \<ge> n0 \<Longrightarrow> j_elements n s = Some (xs, r)" unfolding reads_def by blast
  obtain c cs where s: "s = c # cs" "c \<noteq> 93" "j_ws s = s"
    using head value_head_ws [OF head, of "[]"] by (cases s) (auto simp: value_head_def)
  show ?thesis
    by (rule reads_Suc [of n0]) (use s n0 in \<open>simp add: j_value.simps(2) j_ws_indent\<close>)
qed

lemma reads_dict:
  "reads j_members s d r \<Longrightarrow> value_head s \<Longrightarrow> reads j_value (123 # newline_indent l @ s) (JObj d) r"
proof -
  assume "reads j_members s d r" and head: "value_head s"
  then obtain n0 where n0: "\<And>n. n \<ge> n0 \<Longrightarrow> j_members n s = Some (d, r)" unfolding reads_def by blast
  obtain c cs where s: "s = c # cs" "c \<noteq> 125" "j_ws s = s"
    using head value_head_ws [OF head, of "[]"] by (cases s) (auto simp: value_head_def)
  show ?thesis
    by (rule reads_Suc [of n0]) (use s n0 in \<open>simp add: j_value.simps(2) j_ws_indent\<close>)
qed

lemma value_head_join: "value_head x \<Longrightarrow> value_head (join_with sep (x # xs) @ r)"
  by (cases xs; cases x) (simp_all add: value_head_def)

lemma j_number_value_head: "j_number s = Some x \<Longrightarrow> value_head s \<and> s \<noteq> [] \<and> hd s \<notin> {34, 123, 91}"
  using j_number_head [of s x] by (auto simp: value_head_def is_digit_def j_space_def)

lemma float_repr_head:
  assumes "float_ok f"
  shows "value_head (float_repr f)" "float_repr f \<noteq> []" "hd (float_repr f) \<notin> {34, 123, 91}"
proof -
  have "ends_number []" by (simp add: ends_number_def)
  then have "j_scalar (float_repr f) = Some (JFloat f, [])" using j_scalar_float [OF assms, of "[]"] by simp
  then have "float_repr f \<in> {lit ''NaN'', lit ''Infinity'', lit ''-Infinity''} \<or> j_number (float_repr f) = Some (JFloat f, [])"
    by (auto simp: j_scalar_def j_word_def lit_def split: if_splits)
  then show "value_head (float_repr f)" "float_repr f \<noteq> []" "hd (float_repr f) \<notin> {34, 123, 91}"
    using j_number_value_head [of "float_repr f"] by (auto simp: lit_def value_head_def j_space_def)
qed

lemma py_str_int_value_head: "value_head (py_str_int n)" "py_str_int n \<noteq> []" "hd (py_str_int n) \<notin> {34, 123, 91}"
proof -
  have "py_str_int n \<noteq> []"
    using digits_nat_digits(2) by (simp add: py_str_int_def)
  then obtain c cs where "py_str_int n = c # cs" "c = 45 \<or> is_digit c"
    using py_str_int_head [of n "[]"] by (cases "py_str_int n") auto
  then show "value_head (py_str_int n)" "py_str_int n \<noteq> []" "hd (py_str_int n) \<notin> {34, 123, 91}"
    by (auto simp: value_head_def j_space_def is_digit_def)
qed

lemma dumps_value_head: "readable v \<Longrightarrow> value_head (dumps l v)"
  using float_repr_head py_str_int_value_head
  by (cases v) (auto simp: value_head_def lit_def j_space_def dumps_str_def)

text \<open>What is written reads back.\<close>

lemma dumps_reads: "readable v \<Longrightarrow> ends_number r \<Longrightarrow> reads j_value (dumps l v @ r) v r"
proof (induction l v arbitrary: r rule: dumps.induct)
  case (1 l)
  then show ?case by (intro reads_scalar) (auto simp: lit_def j_scalar_def j_word_def)
next
  case (2 l b)
  then show ?case by (intro reads_scalar) (auto simp: lit_def j_scalar_def j_word_def)
next
  case (3 l n)
  then show ?case
    using py_str_int_value_head [of n] by (intro reads_scalar) (simp_all add: j_scalar_int)
next
  case (4 l f)
  then show ?case
    using float_repr_head [of f] by (intro reads_scalar) (simp_all add: j_scalar_float)
next
  case (5 l s)
  then show ?case
    by (intro reads_Suc [of 0]) (simp add: j_value.simps(2) dumps_str_def j_string_dumps_readable)
next
  case (6 l xs)
  show ?case
  proof (cases xs)
    case Nil
    then show ?thesis by (intro reads_Suc [of 0]) (simp add: j_value.simps(2) lit_def)
  next
    case (Cons y ys)
    have ok: "readable x" if "x \<in> set xs" for x using 6 that by (simp add: list_all_iff)
    have "reads j_elements (join_with (44 # newline_indent (l + 1)) (map (dumps (l + 1)) xs) @ newline_indent l @ 93 # r) xs r"
      using 6 Cons ok by (intro elements_joined) (auto simp: dumps_value_head)
    moreover have "value_head (join_with (44 # newline_indent (l + 1)) (map (dumps (l + 1)) xs) @ newline_indent l @ 93 # r)"
      using Cons ok by (simp add: value_head_join dumps_value_head)
    ultimately show ?thesis using Cons reads_list by simp
  qed
next
  case (7 l d)
  let ?g = "\<lambda>p. dumps_str (fst p) @ [58, 32] @ dumps (l + 1) (snd p)"
  show ?case
  proof (cases d)
    case Nil
    then show ?thesis by (intro reads_Suc [of 0]) (simp add: j_value.simps(2) lit_def)
  next
    case (Cons q qs)
    have ok: "readable_str (fst p)" "readable (snd p)" if "p \<in> set d" for p using 7 that by (simp_all add: list_all_iff)
    have "reads j_members (join_with (44 # newline_indent (l + 1)) (map ?g d) @ newline_indent l @ 125 # r) d r"
      using 7 Cons ok by (intro members_joined) (auto simp: dumps_value_head)
    moreover have "value_head (?g q)" by (simp add: value_head_def dumps_str_def j_space_def)
    then have "value_head (join_with (44 # newline_indent (l + 1)) (map ?g d) @ newline_indent l @ 125 # r)"
      using Cons value_head_join [of "?g q"] by simp
    ultimately show ?thesis using Cons reads_dict by simp
  qed
qed

lemma json_loads_written:
  assumes "readable v" "list_all j_space r"
  shows "json_loads (dumps l v @ r) = Some v"
proof -
  have ws: "j_ws r = []" using assms(2) by (auto simp: j_ws_def list_all_iff)
  have "ends_number r" using assms(2) by (cases r) (auto simp: ends_number_def j_space_def is_digit_def)
  then have "j_value (2 * length (dumps l v @ r) + 1) (dumps l v @ r) = Some (v, r)"
    by (intro reads_json dumps_reads assms(1))
  moreover have "take 1 (dumps l v @ r) \<noteq> [0xFEFF]"
    using dumps_value_head [OF assms(1), of l] by (cases "dumps l v") (auto simp: value_head_def)
  ultimately show ?thesis
    using value_head_ws [OF dumps_value_head [OF assms(1)]] ws by (simp add: json_loads_def)
qed

section \<open>The normal form\<close>

text \<open>
  The same data: equal scalars of the same type, lists element by element, dictionaries key by
  key in whatever order.
\<close>

function same_data :: "json \<Rightarrow> json \<Rightarrow> bool" where
  "same_data (JList xs) b =
    (case b of JList ys \<Rightarrow> length xs = length ys \<and> list_all (\<lambda>(x, y). same_data x y) (zip xs ys) | _ \<Rightarrow> False)"
| "same_data (JObj d) b =
    (case b of
       JObj e \<Rightarrow> set (dict_keys d) = set (dict_keys e) \<and>
         list_all (\<lambda>(k, x). case map_of (rev e) k of Some y \<Rightarrow> same_data x y | None \<Rightarrow> False) (dict_items d)
     | _ \<Rightarrow> False)"
| "same_data JNull b = (b = JNull)"
| "same_data (JBool v) b = (b = JBool v)"
| "same_data (JInt n) b = (b = JInt n)"
| "same_data (JFloat f) b = (b = JFloat f)"
| "same_data (JStr s) b = (b = JStr s)"
  by pat_completeness auto
termination
  by (relation "measure (\<lambda>(a, b). size a)") (auto dest!: set_zip_leftD size_dict_item simp: less_Suc_eq_le intro: size_list_estimation')

lemma map_fst_dict_items: "map fst (dict_items d) = dict_keys d"
  by (simp add: dict_items_def comp_def)

lemma distinct_dict_keys: "distinct (dict_keys d)"
  by (simp add: dict_keys_def)

lemma map_of_items: "map_of (map (\<lambda>p. (fst p, f (snd p))) (dict_items d)) k = map_option f (map_of (rev d) k)"
proof -
  have "map (\<lambda>p. (fst p, f (snd p))) (dict_items d) = map (\<lambda>k. (k, f (the (map_of (rev d) k)))) (dict_keys d)"
    by (simp add: dict_items_def comp_def)
  then show ?thesis
    using map_of_rev_has [of d k] by (auto simp: map_of_map_restrict restrict_map_def set_dict_keys has_key_def)
qed

lemma distinct_items: "distinct (map fst (map (\<lambda>p. (fst p, f (snd p))) (dict_items d)))"
  using distinct_dict_keys [of d] by (simp add: map_fst_dict_items [symmetric] comp_def)

lemma distinct_sort_key: "distinct (map f xs) \<Longrightarrow> distinct (map f (sort_key f xs))"
  by (simp add: distinct_map)

lemma sort_key_eq:
  fixes xs ys :: "('a :: linorder \<times> 'b) list"
  assumes "distinct (map fst xs)" "distinct (map fst ys)"
  shows "sort_key fst xs = sort_key fst ys \<longleftrightarrow> map_of xs = map_of ys"
proof -
  have "sort_key fst xs = sort_key fst ys \<longleftrightarrow> set xs = set ys"
  proof
    assume "set xs = set ys"
    then show "sort_key fst xs = sort_key fst ys"
      using assms by (intro map_sorted_distinct_set_unique [of fst]) (simp_all add: distinct_map)
  qed (metis set_sort)
  then show ?thesis using map_of_inject_set [OF assms] by blast
qed

lemma canon_items_eq:
  fixes f :: "json \<Rightarrow> json"
  shows "sort_key fst (map (\<lambda>p. (fst p, f (snd p))) (dict_items d)) = sort_key fst (map (\<lambda>p. (fst p, f (snd p))) (dict_items e)) \<longleftrightarrow>
    (\<forall>k. map_option f (map_of (rev d) k) = map_option f (map_of (rev e) k))"
  unfolding sort_key_eq [OF distinct_items distinct_items] by (simp add: fun_eq_iff map_of_items)

text \<open>The entries of a dictionary in normal form.\<close>

lemma canon_lookup: "canon (JObj d) = JObj e \<Longrightarrow> map_of (rev e) k = map_option canon (map_of (rev d) k)"
proof -
  let ?c = "map (\<lambda>p. (fst p, canon (snd p))) (dict_items d)"
  assume "canon (JObj d) = JObj e"
  then have e: "e = sort_key fst ?c" by simp
  have "distinct (map fst (rev e))"
    using distinct_sort_key [OF distinct_items, of canon d] by (simp add: e rev_map [symmetric])
  moreover have "set (rev e) = set ?c" by (simp add: e)
  ultimately have "map_of (rev e) = map_of ?c" using map_of_inject_set [OF _ distinct_items] by blast
  then show ?thesis by (simp add: map_of_items)
qed

lemma canon_same_data: "canon a = canon b \<longleftrightarrow> same_data a b"
proof (induction a b rule: same_data.induct)
  case (1 xs b)
  show ?case
  proof (cases b)
    case (JList ys)
    have IH: "canon x = canon y \<longleftrightarrow> same_data x y" if "length xs = length ys" "(x, y) \<in> set (zip xs ys)" for x y
      using 1 that JList by blast
    have "map canon xs = map canon ys \<longleftrightarrow> length xs = length ys \<and> list_all (\<lambda>(x, y). canon x = canon y) (zip xs ys)"
      by (auto simp: list_eq_iff_zip_eq [of "map canon xs"] zip_map_map list_all_iff)
    then show ?thesis
      using IH by (auto simp: JList list_all_iff)
  qed simp_all
next
  case (2 d b)
  show ?case
  proof (cases b)
    case (JObj e)
    have IH: "canon x = canon y \<longleftrightarrow> same_data x y" if "map_of (rev d) k = Some x" "map_of (rev e) k = Some y" for k x y
      using 2 that JObj by (auto simp: dict_items_iff)
    have "canon (JObj d) = canon (JObj e) \<longleftrightarrow>
        (\<forall>k. map_option canon (map_of (rev d) k) = map_option canon (map_of (rev e) k))"
      by (simp add: canon_items_eq)
    also have "\<dots> \<longleftrightarrow> (\<forall>k. has_key d k \<longleftrightarrow> has_key e k) \<and>
        (\<forall>k x. map_of (rev d) k = Some x \<longrightarrow> (case map_of (rev e) k of Some y \<Rightarrow> same_data x y | None \<Rightarrow> False))"
    proof -
      have "map_option canon (map_of (rev d) k) = map_option canon (map_of (rev e) k) \<longleftrightarrow>
          (has_key d k \<longleftrightarrow> has_key e k) \<and>
          (\<forall>x. map_of (rev d) k = Some x \<longrightarrow> (case map_of (rev e) k of Some y \<Rightarrow> same_data x y | None \<Rightarrow> False))" for k
        using IH [of k] by (cases "map_of (rev d) k"; cases "map_of (rev e) k") (auto simp: map_of_rev_has)
      then show ?thesis by blast
    qed
    finally show ?thesis
      by (auto simp: JObj list_all_iff dict_items_iff set_dict_keys has_key_def set_eq_iff)
  qed simp_all
qed (case_tac b; auto)+

lemma dict_items_distinct: "distinct (map fst d) \<Longrightarrow> dict_items d = d"
proof -
  assume d: "distinct (map fst d)"
  then have "map_of (rev d) k = Some v" if "(k, v) \<in> set d" for k v
    using that by (simp add: map_of_is_SomeI rev_map [symmetric])
  then show ?thesis
    using d by (auto simp: dict_items_def dict_keys_def distinct_remdups_id comp_def intro!: map_idI)
qed

lemma dict_items_subset: "set (dict_items d) \<subseteq> set d"
  using map_of_SomeD [of "rev d"] by (auto simp: dict_items_iff)

lemma canon_idem: "canon (canon v) = canon v"
proof (induction v rule: canon.induct)
  case (2 d)
  let ?c = "map (\<lambda>p. (fst p, canon (snd p))) (dict_items d)"
  have "map fst ?c = dict_keys d" by (simp add: comp_def map_fst_dict_items)
  then have "distinct (map fst ?c)" by (simp only: distinct_dict_keys)
  then have "distinct (map fst (sort_key fst ?c))" by (rule distinct_sort_key)
  moreover have "map (\<lambda>p. (fst p, canon (snd p))) (sort_key fst ?c) = sort_key fst ?c"
    using 2 by (intro map_idI) auto
  ultimately show ?case by (simp add: dict_items_distinct sort_key_id_if_sorted)
qed simp_all

lemma readable_canon: "readable v \<Longrightarrow> readable (canon v)"
proof (induction v rule: canon.induct)
  case (2 d)
  have "readable_str (fst p) \<and> readable (snd p)" if "p \<in> set (dict_items d)" for p
    using that 2 dict_items_subset [of d] by (auto simp: list_all_iff)
  with 2 show ?case by (auto simp: list_all_iff)
qed (auto simp: list_all_iff)

text \<open>Two values have the same text exactly if they are the same data.\<close>

lemma dumps_sorted_eq:
  assumes "readable a" "readable b"
  shows "dumps_sorted a = dumps_sorted b \<longleftrightarrow> same_data a b"
proof -
  have "canon a = canon b" if "dumps_sorted a = dumps_sorted b"
    using that json_loads_written [OF readable_canon, of a "[]" 0] json_loads_written [OF readable_canon, of b "[]" 0] assms
    by (simp add: dumps_sorted_def)
  then show ?thesis
    unfolding canon_same_data [symmetric] by (auto simp: dumps_sorted_def)
qed

text \<open>What a normal form gives its users: the relation it decides is an equivalence, and keeps to it.\<close>

locale canonical =
  fixes nf :: "'a \<Rightarrow> 'a" and same :: "'a \<Rightarrow> 'a \<Rightarrow> bool"
  assumes nf_eq: "nf a = nf b \<longleftrightarrow> same a b" and nf_idem: "nf (nf a) = nf a"
begin

lemma same_refl: "same a a"
  by (simp add: nf_eq [symmetric])

lemma same_sym: "same a b \<Longrightarrow> same b a"
  by (simp add: nf_eq [symmetric])

lemma same_trans: "same a b \<Longrightarrow> same b c \<Longrightarrow> same a c"
  by (simp add: nf_eq [symmetric])

lemma nf_same: "same (nf a) a"
  by (simp add: nf_eq [symmetric] nf_idem)

end

interpretation data: canonical canon same_data
  by unfold_locales (rule canon_same_data, rule canon_idem)


section \<open>The text is ASCII\<close>

definition plain :: "nat \<Rightarrow> bool" where
  "plain c \<longleftrightarrow> c < 128 \<and> c \<noteq> 13"

lemma digit_plain: "is_digit c \<Longrightarrow> plain c"
  by (simp add: is_digit_def plain_def)

lemma digits_nat_plain: "list_all plain (digits_nat n)"
  using digits_nat_digits(1) [of n] digit_plain by (auto simp: list_all_iff)

lemma py_str_int_plain: "list_all plain (py_str_int n)"
  using digits_nat_plain by (simp add: py_str_int_def plain_def)

lemma float_text_plain: "list_all plain ds \<Longrightarrow> list_all plain (float_text sg ds p)"
  using digits_nat_plain by (auto simp: float_text_def two_digits_def plain_def list_all_iff dest!: in_set_takeD in_set_dropD)

lemma candidates_plain: "t \<in> set (candidates sg m k n) \<Longrightarrow> list_all plain t"
proof -
  have "list_all plain (strip_zeros (digits_nat d))" for d
    using digits_nat_plain [of d] by (auto simp: strip_zeros_def list_all_iff dest: set_dropWhileD)
  then show "t \<in> set (candidates sg m k n) \<Longrightarrow> list_all plain t"
    using float_text_plain by (auto simp: candidates_def Let_def split: prod.splits)
qed

lemma float_repr_plain: "list_all plain (float_repr f)"
proof (cases f)
  case (Finite sg m k)
  have "list_all plain (exact_text sg m k)"
    using digits_nat_plain py_str_int_plain by (simp add: exact_text_def plain_def)
  moreover have "list_all plain t" if "List.find P (concat (map (candidates sg m k) ns)) = Some t" for P t ns
    using that candidates_plain [of t sg m k] by (auto simp: find_Some_iff in_set_conv_nth dest!: nth_mem)
  ultimately show ?thesis
    by (auto simp: Finite lit_def plain_def split: option.split)
qed (simp_all add: lit_def plain_def)

lemma dumps_str_plain: "readable_str s \<Longrightarrow> list_all plain (dumps_str s)"
proof -
  assume s: "readable_str s"
  have hex: "plain (hex_digit n)" if "n < 16" for n using that by (simp add: hex_digit_def plain_def)
  have u: "list_all plain (u_escape u)" if "u < 0x10000" for u
    using that by (simp add: u_escape_def hex less_mult_imp_div_less) (simp add: plain_def)
  have "list_all plain (esc_cp c)" if "c \<le> 0x10FFFF" for c
  proof -
    have "(c - 65536) div 1024 < 1024" using that by (auto simp: less_mult_imp_div_less)
    then show ?thesis by (auto simp: esc_cp_def u) (simp_all add: plain_def)
  qed
  moreover have "c \<le> 0x10FFFF" if "c \<in> set s" for c using s that by (induction s) auto
  ultimately have "list_all plain (concat (map esc_cp s))" by (auto simp: list_all_iff)
  then show ?thesis by (simp add: dumps_str_def) (simp add: plain_def)
qed

lemma join_with_plain: "list_all plain sep \<Longrightarrow> list_all (list_all plain) xs \<Longrightarrow> list_all plain (join_with sep xs)"
  by (induction sep xs rule: join_with.induct) simp_all

lemma dumps_plain: "readable v \<Longrightarrow> list_all plain (dumps l v)"
proof -
  have nl: "list_all plain (newline_indent l)" for l by (simp add: newline_indent_def list_all_iff) (simp add: plain_def)
  have p: "plain 44" "plain 58" "plain 32" "plain 91" "plain 93" "plain 123" "plain 125" by (simp_all add: plain_def)
  have words: "list_all plain (lit w)" if "w \<in> {''null'', ''true'', ''false'', ''[]'', ''{}''}" for w
    using that by (auto simp: lit_def plain_def)
  show "readable v \<Longrightarrow> list_all plain (dumps l v)"
  proof (induction l v rule: dumps.induct)
    case (6 l xs)
    then have "list_all (list_all plain) (map (dumps (l + 1)) xs)" by (cases "xs = []") (auto simp: list_all_iff [of _ xs] list.pred_map comp_def)
    then show ?case by (simp add: words nl p join_with_plain)
  next
    case (7 l d)
    then have "list_all (list_all plain) (map (\<lambda>p. dumps_str (fst p) @ [58, 32] @ dumps (l + 1) (snd p)) d)"
      by (cases "d = []") (auto simp: list_all_iff [of _ d] list.pred_map comp_def dumps_str_plain p)
    then show ?case by (simp add: words nl p join_with_plain)
  qed (simp_all add: words py_str_int_plain float_repr_plain dumps_str_plain)
qed

end
