(* ===== verification/Json_Readable.thy ===== *)
theory Json_Readable
  imports Py_Dumps
begin

text \<open>
  Every value that \<open>json.loads\<close> returns for a text of a file is \<open>readable\<close>: its floats are in
  normal form and none of its strings has a high surrogate before a low one. So writing it with
  \<open>dumps_sorted\<close> and reading it again gives its normal form, and what \<open>write_text\<close>
  writes is what \<open>load_json_sig\<close> reads.
\<close>

section \<open>What a file holds is readable\<close>

lemma utf8_dec_encodable: "utf8_dec bs = Some s \<Longrightarrow> encodable s"
proof (induction bs arbitrary: s rule: utf8_dec.induct)
  case (2 a bs)
  have cons: "encodable (c # t)" if "encodable t" "c \<le> 0x10FFFF" "\<not> is_surrogate c" for c t
    using that by (simp add: encodable_def encodable_cp_def)
  consider "a < 0x80" | "0xC0 \<le> a" "a < 0xE0" | "0xE0 \<le> a" "a < 0xF0" | "0xF0 \<le> a" "a < 0xF8"
    using "2.prems" by (cases "a < 0x80"; cases "a < 0xC0"; cases "a < 0xF8") (auto split: if_splits)
  then show ?case
  proof cases
    case 1
    then show ?thesis using "2.IH"(1) "2.prems" by (auto simp: is_surrogate_def intro!: cons)
  next
    case 2
    then show ?thesis
      using "2.IH"(2) "2.prems" by (auto simp: is_surrogate_def is_cont_def Let_def split: list.splits if_splits intro!: cons)
  next
    case 3
    then show ?thesis
      using "2.IH"(3) "2.prems" by (auto simp: is_cont_def Let_def split: list.splits if_splits intro!: cons)
  next
    case 4
    then show ?thesis
      using "2.IH"(4) "2.prems" by (auto simp: is_surrogate_def Let_def split: list.splits if_splits intro!: cons)
  qed
qed (simp add: encodable_def)

lemma newlines_encodable: "encodable s \<Longrightarrow> encodable (newlines s)"
proof (induction s rule: newlines.induct)
  case (2 c cs)
  then show ?case
    unfolding newlines.simps(2) [of c cs]
    by (cases cs) (auto simp: encodable_def encodable_cp_def [of 10] is_surrogate_def simp del: newlines.simps(2))
qed simp

lemma decode_text_encodable: "decode_text b = Inr s \<Longrightarrow> encodable s"
  by (auto simp: decode_text_def py_decode_def utf8_decode_opt_def bindR_eq_Inr newlines_encodable utf8_dec_encodable
      split: option.splits)

lemma encodable_ws: "encodable s \<Longrightarrow> encodable (j_ws s)"
  by (auto simp: encodable_def list_all_iff j_ws_def dest: set_dropWhileD)

lemma hex4_bound: "hex4 a b c d = Some u \<Longrightarrow> u < 0x10000"
proof -
  have *: "unhex x = Some y \<Longrightarrow> y < 16" for x y by (auto simp: unhex_def split: if_splits)
  assume "hex4 a b c d = Some u"
  then obtain w x y z where "unhex a = Some w" "unhex b = Some x" "unhex c = Some y" "unhex d = Some z"
    "u = ((w * 16 + x) * 16 + y) * 16 + z" by (auto simp: hex4_def split: option.splits)
  then show ?thesis using * [of a w] * [of b x] * [of c y] * [of d z] by simp
qed

lemma low_escape_bound: "low_escape s = Some u \<Longrightarrow> low_surrogate u"
  by (cases s rule: low_escape.cases) (auto simp: low_surrogate_def split: if_splits option.splits)

lemma join_surrogates_bound:
  "0xD800 \<le> u \<Longrightarrow> u \<le> 0xDBFF \<Longrightarrow> low_surrogate lo \<Longrightarrow>
   0x10000 \<le> join_surrogates u lo \<and> join_surrogates u lo \<le> 0x10FFFF"
  by (auto simp: join_surrogates_def low_surrogate_def)

text \<open>One character of a string behind its opening quote, and the text behind it.\<close>

definition string_step :: "pystr \<Rightarrow> (nat \<times> pystr) option" where
  "string_step s =
    (case s of
       [] \<Rightarrow> None
     | c # cs \<Rightarrow>
         if c = 34 \<or> c < 32 then None
         else if c = 92 then
           (case cs of
              [] \<Rightarrow> None
            | e # es \<Rightarrow>
                if e = 117 then
                  (case es of
                     h1 # h2 # h3 # h4 # r \<Rightarrow>
                       (case hex4 h1 h2 h3 h4 of
                          None \<Rightarrow> None
                        | Some u \<Rightarrow>
                            (case (if 0xD800 \<le> u \<and> u \<le> 0xDBFF then low_escape r else None) of
                               Some lo \<Rightarrow> Some (join_surrogates u lo, drop 6 r)
                             | None \<Rightarrow> Some (u, r)))
                   | _ \<Rightarrow> None)
                else (case j_escape e of None \<Rightarrow> None | Some x \<Rightarrow> Some (x, es)))
         else Some (c, cs))"

lemma j_string_step_iff:
  "j_string s = Some (x, r) \<longleftrightarrow>
    x = [] \<and> s = 34 # r \<or> (\<exists>c t y. string_step s = Some (c, t) \<and> j_string t = Some (y, r) \<and> x = c # y)"
  by (subst j_string.simps) (auto simp: string_step_def put_cp_some split: list.split if_split option.split)

lemma encodable_Cons: "encodable (c # s) \<longleftrightarrow> c \<le> 0x10FFFF \<and> \<not> is_surrogate c \<and> encodable s"
  by (auto simp: encodable_def encodable_cp_def)

lemma encodable_drop: "encodable s \<Longrightarrow> encodable (drop n s)"
  by (auto simp: encodable_def list_all_iff dest: in_set_dropD)

lemma string_step_hex:
  assumes "encodable r" "hex4 h1 h2 h3 h4 = Some u" "string_step (92 # 117 # h1 # h2 # h3 # h4 # r) = Some (c, t)"
  shows "encodable t \<and> length t < Suc (Suc (Suc (Suc (Suc (Suc (length r)))))) \<and> c \<le> 0x10FFFF \<and>
    (low_surrogate c \<longrightarrow> c = u) \<and> (high_surrogate c \<longrightarrow> low_escape t = None)"
proof (cases "(if 0xD800 \<le> u \<and> u \<le> 0xDBFF then low_escape r else None)")
  case None
  then have "c = u" "t = r" using assms(2,3) by (simp_all add: string_step_def)
  then show ?thesis
    using None assms(1) hex4_bound [OF assms(2)] by (auto simp: high_surrogate_def split: if_splits)
next
  case (Some lo)
  then have ct: "c = join_surrogates u lo" "t = drop 6 r" using assms(2,3) by (simp_all add: string_step_def)
  have "0x10000 \<le> c \<and> c \<le> 0x10FFFF"
    unfolding ct using Some by (intro join_surrogates_bound) (auto intro: low_escape_bound split: if_splits)
  then show ?thesis
    using assms(1) by (auto simp: ct(2) encodable_drop low_surrogate_def high_surrogate_def)
qed

lemma string_step_encodable:
  assumes "encodable s" "string_step s = Some (c, t)"
  shows "encodable t \<and> length t < length s \<and> c \<le> 0x10FFFF \<and>
    (low_surrogate c \<longrightarrow> low_escape s = Some c) \<and> (high_surrogate c \<longrightarrow> low_escape t = None)"
proof -
  consider (hex) h1 h2 h3 h4 r u where "s = 92 # 117 # h1 # h2 # h3 # h4 # r" "hex4 h1 h2 h3 h4 = Some u"
    | (escape) e where "s = 92 # e # t" "j_escape e = Some c"
    | (raw) "s = c # t"
    using assms(2) by (auto simp: string_step_def split: list.splits if_splits option.splits)
  then show ?thesis
  proof cases
    case hex
    with assms string_step_hex [of r h1 h2 h3 h4 u c t] show ?thesis
      by (auto simp: encodable_Cons low_surrogate_def)
  next
    case escape
    then show ?thesis
      using assms(1) by (auto simp: encodable_Cons j_escape_def low_surrogate_def high_surrogate_def split: if_splits)
  next
    case raw
    then show ?thesis
      using assms(1) by (auto simp: encodable_Cons is_surrogate_def low_surrogate_def high_surrogate_def)
  qed
qed

lemma j_string_readable: "encodable s \<Longrightarrow> j_string s = Some (x, r) \<Longrightarrow> readable_str x \<and> encodable r"
proof (induction s arbitrary: x rule: measure_induct_rule [of length])
  case (less s)
  from less.prems(2) consider "x = []" "s = 34 # r"
    | c t y where "string_step s = Some (c, t)" "j_string t = Some (y, r)" "x = c # y"
    unfolding j_string_step_iff [of s] by blast
  then show ?case
  proof cases
    case 1
    then show ?thesis using less.prems(1) by (simp add: encodable_Cons)
  next
    case 2
    note step = string_step_encodable [OF less.prems(1) 2(1)]
    have IH: "readable_str y \<and> encodable r" using less.IH [of t y] step 2(2) by blast
    have "\<not> low_surrogate (hd y)" if high: "high_surrogate c" and y: "y \<noteq> []"
    proof -
      obtain t' y' where "string_step t = Some (hd y, t')" using 2(2) y unfolding j_string_step_iff [of t] by auto
      then show ?thesis using string_step_encodable [of t "hd y" t'] step high by auto
    qed
    with IH step show ?thesis by (auto simp: 2(3) split: list.split)
  qed
qed

lemma encodable_sub: "set r \<subseteq> set s \<Longrightarrow> encodable s \<Longrightarrow> encodable r"
  by (auto simp: encodable_def list_all_iff)

lemma number_value_readable: "readable (number_value neg ip fp ex)"
proof -
  have "float_ok (double_of sg m e)" for sg m e
    using double_of_normal [of sg m e] by (cases "double_of sg m e") auto
  then show ?thesis by (auto simp: number_value_def Let_def split: option.split)
qed

lemma j_frac_rest: "j_frac s = (x, r) \<Longrightarrow> set r \<subseteq> set s"
  by (cases s rule: j_frac.cases) (auto split: if_splits dest: set_dropWhileD)

lemma j_exp_rest: "j_exp s = (x, r) \<Longrightarrow> set r \<subseteq> set s"
  by (auto simp: j_exp_def exp_sign_def Let_def split: list.splits if_splits prod.splits dest: set_dropWhileD)

lemma j_number_rest: "j_number s = Some (v, r) \<Longrightarrow> set r \<subseteq> set s \<and> readable v"
proof -
  assume num: "j_number s = Some (v, r)"
  define s1 where "s1 = (if (case s of c # cs \<Rightarrow> c = 45 | [] \<Rightarrow> False) then tl s else s)"
  obtain c cs where s1: "s1 = c # cs" "is_digit c"
    using num by (auto simp: j_number_def Let_def s1_def split: list.splits if_splits)
  define s2 where "s2 = (if c = 48 then cs else dropWhile is_digit s1)"
  have "set s2 \<subseteq> set s1" using s1 by (auto simp: s2_def dest: set_dropWhileD)
  moreover have "set s1 \<subseteq> set s" by (auto simp: s1_def dest: list.set_sel(2) split: list.splits)
  moreover obtain f s3 x neg ip where "j_frac s2 = (f, s3)" "j_exp s3 = (x, r)" "v = number_value neg ip f x"
    using num s1 unfolding j_number_def Let_def s1_def [symmetric] s2_def
    by (auto split: prod.splits)
  ultimately show ?thesis using j_frac_rest [of s2 f s3] j_exp_rest [of s3 x r] number_value_readable by auto
qed

lemma j_scalar_readable: "encodable s \<Longrightarrow> j_scalar s = Some (v, r) \<Longrightarrow> readable v \<and> encodable r"
proof -
  assume s: "encodable s" "j_scalar s = Some (v, r)"
  have w: "encodable t" if "j_word w s = Some t" for w t
    using that s(1) by (auto simp: j_word_def encodable_drop split: if_splits)
  show ?thesis
    using s w j_number_rest [of s v r] encodable_sub [OF _ s(1), of r]
    by (auto simp: j_scalar_def split: option.splits)
qed

lemma parsed_readable:
  "encodable s \<Longrightarrow> j_value n s = Some (v, r) \<Longrightarrow> readable v \<and> encodable r"
  "encodable s \<Longrightarrow> j_members n s = Some (kvs, r) \<Longrightarrow> readable (JObj kvs) \<and> encodable r"
  "encodable s \<Longrightarrow> j_elements n s = Some (vs, r) \<Longrightarrow> readable (JList vs) \<and> encodable r"
proof (induction n s and n s and n s arbitrary: v r and kvs r and vs r rule: j_value_j_members_j_elements.induct)
  case (2 n s)
  obtain c cs where s: "s = c # cs" using "2.prems"(2) by (auto simp: j_value.simps(2) split: list.splits)
  have e: "encodable cs" "encodable (j_ws cs)" using "2.prems"(1) by (simp_all add: s encodable_Cons encodable_ws)
  show ?case
    using "2.prems" "2.IH" e j_string_readable [OF e(1)] j_scalar_readable [OF "2.prems"(1)]
    by (fastforce simp: s j_value.simps(2) encodable_Cons split: list.splits if_splits)
next
  case (4 n s)
  from "4.prems"(2) obtain q qs k t u cs x r2 d ds where s: "s = q # qs" "q = 34" "j_string qs = Some (k, t)"
    "j_ws t = u # cs" "u = 58" "j_value n (j_ws cs) = Some (x, r2)" "j_ws r2 = d # ds"
    and more: "d = 125 \<and> kvs = [(k, x)] \<and> r = ds \<or> d \<noteq> 125 \<and> d = 44 \<and> (\<exists>kvs'. j_members n (j_ws ds) = Some (kvs', r) \<and> kvs = (k, x) # kvs')"
    unfolding j_members.simps(2) by (auto split: list.splits if_splits option.splits)
  have k: "readable_str k" "encodable t" using j_string_readable [OF _ s(3)] "4.prems"(1) s(1) by (simp_all add: encodable_Cons)
  have q: "\<not> q \<noteq> 34" "\<not> u \<noteq> 58" using s(2,5) by simp_all
  have "encodable cs" using encodable_ws [OF k(2)] s(4) by (simp add: encodable_Cons)
  then have x: "readable x" "encodable r2"
    using "4.IH"(1) [OF s(1) q(1) s(3) refl s(4) q(2) encodable_ws s(6)] by simp_all
  then have ds: "encodable ds" using encodable_ws [OF x(2)] s(7) by (simp add: encodable_Cons)
  show ?case
    using more k(1) x(1) ds "4.IH"(2) [OF s(1) q(1) s(3) refl s(4) q(2) s(6) refl s(7)] encodable_ws [OF ds] by auto
next
  case (6 n s)
  from "6.prems"(2) obtain x r2 d ds where s: "j_value n s = Some (x, r2)" "j_ws r2 = d # ds"
    and more: "d = 93 \<and> vs = [x] \<and> r = ds \<or> d \<noteq> 93 \<and> d = 44 \<and> (\<exists>vs'. j_elements n (j_ws ds) = Some (vs', r) \<and> vs = x # vs')"
    unfolding j_elements.simps(2) by (auto split: list.splits if_splits option.splits)
  have x: "readable x" "encodable r2" using "6.IH"(1) [OF "6.prems"(1) s(1)] by simp_all
  then have ds: "encodable ds" using encodable_ws [OF x(2)] s(2) by (simp add: encodable_Cons)
  show ?case
    using more x(1) ds "6.IH"(2) [OF s(1) refl s(2)] encodable_ws [OF ds] by auto
qed (simp_all add: j_value.simps j_members.simps j_elements.simps)

lemma json_load_readable: "encodable s \<Longrightarrow> json_load s = Inr v \<Longrightarrow> readable v"
  using parsed_readable(1) [OF encodable_ws]
  by (fastforce simp: json_load_def json_loads_def split: option.splits if_splits prod.splits)

lemma loaded_readable: "load_json fs p = Inr v \<Longrightarrow> readable v" "load_json_sig fs p = Inr v \<Longrightarrow> readable v"
  using json_load_readable decode_text_encodable
  by (auto simp: load_json_def load_json_sig_def read_text_def bindR_eq_Inr)

section \<open>Writing a file\<close>

definition write_text :: "files \<Rightarrow> pystr \<Rightarrow> pystr \<Rightarrow> files result" where
  "write_text fs p s = bindR (py_encode s) (\<lambda>b. Inr (fs(p \<mapsto> b)))"

lemma plain_encodable: "list_all plain s \<Longrightarrow> encodable s"
  by (auto simp: list_all_iff encodable_def plain_def encodable_cp_def is_surrogate_def)

lemma plain_newlines: "list_all plain s \<Longrightarrow> newlines s = s"
  by (induction s) (auto simp: plain_def)

lemma plain_bom: "list_all plain s \<Longrightarrow> drop_bom (utf8_bytes s) = utf8_bytes s"
proof (cases s)
  case (Cons c t)
  assume "list_all plain s"
  then have c: "c < 128" using Cons by (simp add: plain_def)
  then have "unat (of_nat c :: byte) = c" by (simp add: unat_of_nat)
  then have "(of_nat c :: byte) \<noteq> 0xEF" using c by auto
  with c show ?thesis by (simp add: Cons drop_bom_def utf8_bytes_def utf8_cp_def)
qed (simp add: drop_bom_def)

text \<open>A written value reads back as its normal form.\<close>

lemma written_value:
  assumes "readable v" "write_text fs p (dumps_sorted v @ [10]) = Inr fs'"
  shows "load_json_sig fs' p = Inr (canon v)" "load_json fs' p = Inr (canon v)"
proof -
  let ?s = "dumps_sorted v @ [10]"
  have p: "list_all plain ?s"
    using dumps_plain [OF readable_canon [OF assms(1)], of 0] by (simp add: dumps_sorted_def plain_def [of 10])
  have fs': "fs' = fs(p \<mapsto> utf8_bytes ?s)"
    using assms(2) plain_encodable [OF p] by (simp add: write_text_def)
  have d: "decode_text (utf8_bytes ?s) = Inr ?s"
    using utf8_roundtrip [OF plain_encodable [OF p]] plain_newlines [OF p] by (simp add: decode_text_def py_decode_def)
  have j: "json_load ?s = Inr (canon v)"
    using json_loads_written [OF readable_canon [OF assms(1)], of "[10]" 0]
    by (simp add: json_load_def dumps_sorted_def j_space_def)
  show "load_json_sig fs' p = Inr (canon v)" "load_json fs' p = Inr (canon v)"
    by (simp_all add: fs' load_json_sig_def load_json_def read_text_def read_bytes_def plain_bom [OF p] d j)
qed

lemma write_sorted:
  assumes "readable v"
  shows "write_text fs p (dumps_sorted v @ [10]) = Inr (fs(p \<mapsto> utf8_bytes (dumps_sorted v @ [10])))"
proof -
  have "list_all plain (dumps_sorted v @ [10])"
    using dumps_plain [OF readable_canon [OF assms], of 0] by (simp add: dumps_sorted_def plain_def [of 10])
  then show ?thesis by (simp add: write_text_def plain_encodable)
qed

end
