(* ===== verification/Snapshot_Sync.thy ===== *)
theory Snapshot_Sync
  imports Contract_Check Json_Readable
begin

text \<open>
  \<open>scripts/sync_protocol_snapshot.py\<close>: it writes the normal form of the protocol contract to
  the snapshot, or checks that the snapshot holds the same data. The files are those it reads;
  it returns the exit code, what it prints and the files it leaves.
\<close>

definition DEFAULT_SOURCE :: pystr where
  "DEFAULT_SOURCE = lit ''../ditto-cache/ditto-protocol/schema/protocol-contract.json''"

definition TARGET :: pystr where
  "TARGET = lit ''contracts/protocol-contract.snapshot.json''"

definition normalize :: "json \<Rightarrow> pystr" where
  "normalize data = dumps_sorted data @ [10]"

datatype sync_report =
    SourceNotFound pystr
  | SnapshotMissing pystr
  | DriftDetected
  | CheckOk
  | SnapshotUpdated pystr

definition sync_main :: "files \<Rightarrow> pystr option \<Rightarrow> bool \<Rightarrow> (int \<times> sync_report \<times> files) result" where
  "sync_main fs source check =
    (let source_path = (case source of Some p \<Rightarrow> p | None \<Rightarrow> DEFAULT_SOURCE) in
     if fs source_path = None then Inr (1, SourceNotFound source_path, fs)
     else
       bindR (load_json_sig fs source_path) (\<lambda>src_data.
         let src_norm = normalize src_data in
         if check then
           if fs TARGET = None then Inr (1, SnapshotMissing TARGET, fs)
           else
             bindR (load_json_sig fs TARGET) (\<lambda>cur_data.
               if normalize cur_data \<noteq> src_norm then Inr (1, DriftDetected, fs)
               else Inr (0, CheckOk, fs))
         else bindR (write_text fs TARGET src_norm) (\<lambda>fs'. Inr (0, SnapshotUpdated TARGET, fs'))))"

lemma normalize_eq: "readable a \<Longrightarrow> readable b \<Longrightarrow> normalize a = normalize b \<longleftrightarrow> same_data a b"
  by (simp add: normalize_def dumps_sorted_eq)

text \<open>
  C28: the check changes no file, and returns 0 exactly when the source and the snapshot are both
  there, both JSON, and hold the same data: equal scalars of the same type, lists element by
  element, dictionaries key by key whatever the order of the keys, the layout or the way a number
  or a character is written. It stops with an exception only for a file that is no UTF-8 or no
  JSON.
\<close>

theorem sync_check_iff:
  "case sync_main fs source True of
     Inr (code, report, fs') \<Rightarrow>
       fs' = fs \<and>
       code = (if \<exists>a b. load_json_sig fs (case source of Some p \<Rightarrow> p | None \<Rightarrow> DEFAULT_SOURCE) = Inr a \<and>
                    load_json_sig fs TARGET = Inr b \<and> same_data a b
               then 0 else 1)
   | Inl e \<Rightarrow> e = UnicodeDecodeError \<or> e = JSONDecodeError"
proof -
  define p where "p = (case source of Some p \<Rightarrow> p | None \<Rightarrow> DEFAULT_SOURCE)"
  have gone: "load_json_sig fs q = Inl (OSError (Some ENOENT))" if "fs q = None" for q
    using that by (simp add: load_json_sig_def read_bytes_def)
  have there: "e = UnicodeDecodeError \<or> e = JSONDecodeError" if "fs q = Some b" "load_json_sig fs q = Inl e" for q b e
    using that by (auto simp: load_json_sig_def read_bytes_def decode_text_def py_decode_def json_load_def bindR_eq_Inl split: option.splits)
  have norm: "normalize b = normalize a \<longleftrightarrow> same_data a b" if "load_json_sig fs q = Inr a" "load_json_sig fs r = Inr b" for q r a b
    using normalize_eq [of a b] that loaded_readable(2) by metis
  show ?thesis
    unfolding sync_main_def p_def [symmetric] Let_def
    using gone [of p] gone [of TARGET] there norm [of p _ TARGET]
    by (cases "fs p"; cases "fs TARGET"; cases "load_json_sig fs p"; cases "load_json_sig fs TARGET") auto
qed

section \<open>The written snapshot\<close>

text \<open>What the snapshot check looks at survives the normal form.\<close>

lemma canon_scalar: "is_integer (canon v) = is_integer v" "is_string (canon v) = is_string v"
  "canon v = JStr s \<longleftrightarrow> v = JStr s"
  by (cases v; simp add: is_integer_def is_string_def)+

lemma canon_has_key: "canon (JObj d) = JObj e \<Longrightarrow> has_key e k = has_key d k"
  by (simp add: map_of_rev_has canon_lookup)

lemma all_items: "list_all (\<lambda>(k, x). P x) (dict_items d) \<longleftrightarrow> (\<forall>k x. map_of (rev d) k = Some x \<longrightarrow> P x)"
  by (auto simp: list_all_iff dict_items_iff)

lemma canon_all_items:
  "canon (JObj d) = JObj e \<Longrightarrow> (\<And>x. P (canon x) = P x) \<Longrightarrow>
   list_all (\<lambda>(k, x). P x) (dict_items e) = list_all (\<lambda>(k, x). P x) (dict_items d)"
  by (auto simp: all_items canon_lookup)

lemma field_ok_canon: "field_ok (canon v) = field_ok v"
proof (cases v)
  case (JObj d)
  then show ?thesis using canon_has_key [of d _] by (simp add: field_ok_def list_all_iff del: canon.simps(2)) fastforce
qed (simp_all add: field_ok_def)

lemma message_ok_canon: "message_ok (canon v) = message_ok v"
  by (cases v) (auto simp: message_ok_def list.pred_map comp_def field_ok_canon)

lemma enum_values_canon: "enum_values (canon v) = enum_values v"
  by (cases v) (auto simp: enum_values_def list.pred_map comp_def canon_scalar)

lemma table_canon:
  assumes "\<And>x. P (canon x) = P x"
  shows "(\<exists>d. canon v = JObj d \<and> list_all (has_key d) ks \<and> list_all (\<lambda>(k, x). P x) (dict_items d)) \<longleftrightarrow>
    (\<exists>d. v = JObj d \<and> list_all (has_key d) ks \<and> list_all (\<lambda>(k, x). P x) (dict_items d))"
proof (cases v)
  case (JObj d)
  obtain e where e: "canon (JObj d) = JObj e" by simp
  show ?thesis
    unfolding JObj e using assms canon_has_key [OF e] canon_all_items [OF e, of P] by (simp add: list_all_iff [of _ ks])
qed simp_all

lemma opt_canon: "(\<And>x. P (canon x) = P x) \<Longrightarrow> opt_holds P (map_option canon m) = opt_holds P m"
  by (simp add: opt_holds_def split: option.split)

lemma snapshot_ok_parts:
  "snapshot_ok v \<longleftrightarrow>
    (\<exists>d. v = JObj d \<and> opt_holds is_integer (dict_get d ''protocol_version'') \<and>
      opt_holds is_string (dict_get d ''source'') \<and> opt_holds is_string (dict_get d ''package'') \<and>
      opt_holds (\<lambda>v. \<exists>d. v = JObj d \<and> list_all (has_key d) REQUIRED_ENUMS \<and> list_all (\<lambda>(k, x). enum_values x) (dict_items d)) (dict_get d ''enums'') \<and>
      opt_holds (\<lambda>v. \<exists>d. v = JObj d \<and> list_all (has_key d) REQUIRED_MESSAGES \<and> list_all (\<lambda>(k, x). message_ok x) (dict_items d)) (dict_get d ''messages''))"
  unfolding snapshot_ok_def opt_string opt_integer by (auto simp: opt_holds_def split: option.splits)

lemma snapshot_ok_canon: "snapshot_ok (canon v) = snapshot_ok v"
proof (cases v)
  case (JObj d)
  obtain e where e: "canon (JObj d) = JObj e" by simp
  have "dict_get e k = map_option canon (dict_get d k)" for k
    using canon_lookup [OF e] by (simp add: dict_get_def)
  then show ?thesis
    unfolding JObj e snapshot_ok_parts
    by (simp add: opt_canon canon_scalar table_canon enum_values_canon message_ok_canon)
qed (simp_all add: snapshot_ok_def)

text \<open>
  C29: for a source that is JSON, synchronising succeeds and changes the snapshot alone; then the
  snapshot holds the source's data, the check with the same source succeeds, a second
  synchronisation leaves the files as they are, and the snapshot check accepts the snapshot if
  and only if the source has the documented shape. Any other source leaves the files as they are.
\<close>

theorem sync_then_check:
  "let p = (case source of Some q \<Rightarrow> q | None \<Rightarrow> DEFAULT_SOURCE) in
   case load_json_sig fs p of
     Inr data \<Rightarrow>
       (let fs' = fs(TARGET \<mapsto> utf8_bytes (normalize data)) in
        sync_main fs source False = Inr (0, SnapshotUpdated TARGET, fs') \<and>
        (\<exists>data'. load_json_sig fs' TARGET = Inr data' \<and> same_data data' data) \<and>
        sync_main fs' source True = Inr (0, CheckOk, fs') \<and>
        sync_main fs' source False = Inr (0, SnapshotUpdated TARGET, fs') \<and>
        ((\<exists>report. snapshot_main fs' = Inr (0, report)) \<longleftrightarrow> snapshot_ok data))
   | Inl e \<Rightarrow> sync_main fs source False = (if fs p = None then Inr (1, SourceNotFound p, fs) else Inl e)"
proof -
  define p where "p = (case source of Some q \<Rightarrow> q | None \<Rightarrow> DEFAULT_SOURCE)"
  show ?thesis
  proof (cases "load_json_sig fs p")
    case (Inl e)
    then show ?thesis by (simp add: p_def sync_main_def)
  next
    case (Inr data)
    let ?b = "utf8_bytes (normalize data)"
    let ?fs = "fs(TARGET \<mapsto> ?b)"
    have r: "readable data" using loaded_readable(2) [OF Inr] .
    have wr: "write_text gs TARGET (normalize data) = Inr (gs(TARGET \<mapsto> ?b))" for gs
      unfolding normalize_def by (rule write_sorted [OF r])
    have again: "load_json_sig ?fs TARGET = Inr (canon data)"
      using written_value(1) [OF r] wr [of fs] by (simp add: normalize_def)
    have there: "fs p \<noteq> None" using Inr by (cases "fs p") (simp_all add: load_json_sig_def read_bytes_def)
    have norm: "normalize (canon data) = normalize data" by (simp add: normalize_def dumps_sorted_def canon_idem)
    obtain src where src: "load_json_sig ?fs p = Inr src" "normalize src = normalize data"
      using Inr again norm by (cases "p = TARGET") (auto simp: load_json_sig_def read_bytes_def)
    have valid: "(\<exists>report. snapshot_main ?fs = Inr (0, report)) \<longleftrightarrow> snapshot_ok data"
    proof (cases "canon data")
      case (JObj e)
      have "snapshot_main ?fs = Inr (check_snapshot e)" using again by (simp add: snapshot_main_def TARGET_def SNAPSHOT_def JObj)
      moreover have "fst (check_snapshot e) = (if snapshot_ok data then 0 else 1)"
        using check_snapshot_code [of e] snapshot_ok_canon [of data] by (simp add: JObj)
      ultimately show ?thesis by (cases "check_snapshot e") auto
    qed (use again snapshot_ok_canon [of data] in \<open>simp_all add: snapshot_main_def TARGET_def SNAPSHOT_def snapshot_ok_def\<close>)
    show ?thesis
      using there again norm src wr [of fs] wr [of ?fs] data.nf_same valid Inr
      unfolding p_def [symmetric] sync_main_def Let_def by simp
  qed
qed

end
