(* ===== verification/Py_Re.thy ===== *)
theory Py_Re
  imports Script_Base
begin

text \<open>
  The regular expressions the scripts use: a backtracking matcher that lists the ways to match
  in the order in which \<open>re\<close> tries them, and on it \<open>search\<close>, \<open>match\<close>, \<open>fullmatch\<close>,
  \<open>findall\<close> and \<open>sub\<close>. The matcher finds exactly the matches of the relation
  \<open>matches\<close>.
\<close>

section \<open>Expressions and matching\<close>

text \<open>
  A pattern has at most one group. The last five constructors look at the place only:
  the start of a line (\<open>^\<close> with \<open>MULTILINE\<close>), of the text, the end before a final line feed
  (\<open>$\<close>), the very end, and a character of a class that follows.
\<close>

datatype re =
    Chr "nat \<Rightarrow> bool"
  | Eps
  | Seq re re
  | Alt re re
  | Star bool re
  | Group re
  | LineStart
  | TextStart
  | NotStart
  | TextEnd
  | AtEnd
  | Next "nat \<Rightarrow> bool"

text \<open>A place in the text: what is behind it, nearest first, what is ahead, and the text of the group.\<close>

record place =
  behind :: pystr
  ahead :: pystr
  grp :: "pystr option"

definition start :: "pystr \<Rightarrow> place" where
  "start t = \<lparr>behind = [], ahead = t, grp = None\<rparr>"

definition advance :: "place \<Rightarrow> place" where
  "advance s = (case ahead s of [] \<Rightarrow> s | c # cs \<Rightarrow> s\<lparr>behind := c # behind s, ahead := cs\<rparr>)"

definition between :: "place \<Rightarrow> place \<Rightarrow> pystr" where
  "between s s' = take (length (ahead s) - length (ahead s')) (ahead s)"

function ways :: "re \<Rightarrow> place \<Rightarrow> place list" where
  "ways (Chr P) s = (case ahead s of [] \<Rightarrow> [] | c # cs \<Rightarrow> if P c then [advance s] else [])"
| "ways Eps s = [s]"
| "ways (Seq p q) s = concat (map (ways q) (ways p s))"
| "ways (Alt p q) s = ways p s @ ways q s"
| "ways (Star greedy p) s =
    (let more = concat (map (ways (Star greedy p)) (filter (\<lambda>s'. length (ahead s') < length (ahead s)) (ways p s))) in
     if greedy then more @ [s] else s # more)"
| "ways (Group p) s = map (\<lambda>s'. s'\<lparr>grp := Some (between s s')\<rparr>) (ways p s)"
| "ways LineStart s = (if behind s = [] \<or> hd (behind s) = 10 then [s] else [])"
| "ways TextStart s = (if behind s = [] then [s] else [])"
| "ways NotStart s = (if behind s = [] then [] else [s])"
| "ways TextEnd s = (if ahead s = [] \<or> ahead s = [10] then [s] else [])"
| "ways AtEnd s = (if ahead s = [] then [s] else [])"
| "ways (Next P) s = (case ahead s of [] \<Rightarrow> [] | c # cs \<Rightarrow> if P c then [s] else [])"
  by pat_completeness auto
termination
  by (relation "measures [\<lambda>(r, s). size r, \<lambda>(r, s). length (ahead s)]") auto

declare ways.simps(5) [simp del]

text \<open>The relation: what it means that an expression matches from one place to another.\<close>

inductive matches :: "re \<Rightarrow> place \<Rightarrow> place \<Rightarrow> bool" where
  chr: "ahead s = c # cs \<Longrightarrow> P c \<Longrightarrow> matches (Chr P) s (s\<lparr>behind := c # behind s, ahead := cs\<rparr>)"
| eps: "matches Eps s s"
| seq: "matches p s s1 \<Longrightarrow> matches q s1 s2 \<Longrightarrow> matches (Seq p q) s s2"
| alt1: "matches p s s1 \<Longrightarrow> matches (Alt p q) s s1"
| alt2: "matches q s s1 \<Longrightarrow> matches (Alt p q) s s1"
| star0: "matches (Star g p) s s"
| star1: "matches p s s1 \<Longrightarrow> length (ahead s1) < length (ahead s) \<Longrightarrow> matches (Star g p) s1 s2 \<Longrightarrow> matches (Star g p) s s2"
| group: "matches p s s1 \<Longrightarrow> matches (Group p) s (s1\<lparr>grp := Some (between s s1)\<rparr>)"
| line: "behind s = [] \<or> hd (behind s) = 10 \<Longrightarrow> matches LineStart s s"
| text_start: "behind s = [] \<Longrightarrow> matches TextStart s s"
| not_start: "behind s \<noteq> [] \<Longrightarrow> matches NotStart s s"
| text_end: "ahead s = [] \<or> ahead s = [10] \<Longrightarrow> matches TextEnd s s"
| at_end: "ahead s = [] \<Longrightarrow> matches AtEnd s s"
| next_chr: "ahead s = c # cs \<Longrightarrow> P c \<Longrightarrow> matches (Next P) s s"

inductive_cases matches_cases: "matches (Chr P) s s'" "matches Eps s s'" "matches (Seq p q) s s'" "matches (Alt p q) s s'"
  "matches (Group p) s s'" "matches LineStart s s'" "matches TextStart s s'" "matches NotStart s s'"
  "matches TextEnd s s'" "matches AtEnd s s'" "matches (Next P) s s'"

lemma ways_sound: "s' \<in> set (ways r s) \<Longrightarrow> matches r s s'"
proof (induction r s arbitrary: s' rule: ways.induct)
  case (5 greedy p s)
  then show ?case
    by (auto simp: ways.simps(5) [of greedy p s] Let_def intro: matches.star0 matches.star1 split: if_splits)
next
  case (12 P s)
  then obtain c cs where "ahead s = c # cs" "P c" "s' = s" by (cases "ahead s") (auto split: if_splits)
  then show ?case by (auto intro: matches.next_chr)
qed (auto simp: advance_def intro: matches.intros split: list.splits if_splits)

lemma ways_complete: "matches r s s' \<Longrightarrow> s' \<in> set (ways r s)"
proof (induction rule: matches.induct)
  case (star0 g p s)
  then show ?case by (simp add: Let_def ways.simps(5) [of g p s])
next
  case (star1 p s s1 g s2)
  then have "s2 \<in> set (concat (map (ways (Star g p)) (filter (\<lambda>s'. length (ahead s') < length (ahead s)) (ways p s))))"
    by auto
  then show ?case by (cases g) (simp_all add: Let_def ways.simps(5) [of _ p s])
qed (auto simp: advance_def)

lemma ways_iff: "s' \<in> set (ways r s) \<longleftrightarrow> matches r s s'"
  using ways_sound ways_complete by blast

text \<open>A match only moves forward over the text.\<close>

lemma matches_moves: "matches r s s' \<Longrightarrow> \<exists>w. ahead s = w @ ahead s' \<and> behind s' = rev w @ behind s"
proof (induction rule: matches.induct)
  case (seq p s s1 q s2)
  then obtain v w where "ahead s = v @ ahead s1" "behind s1 = rev v @ behind s" "ahead s1 = w @ ahead s2" "behind s2 = rev w @ behind s1"
    by blast
  then show ?case by (intro exI [of _ "v @ w"]) simp
next
  case (star1 p s s1 g s2)
  then obtain v w where "ahead s = v @ ahead s1" "behind s1 = rev v @ behind s" "ahead s1 = w @ ahead s2" "behind s2 = rev w @ behind s1"
    by blast
  then show ?case by (intro exI [of _ "v @ w"]) simp
qed auto

lemma ways_forward: "s' \<in> set (ways r s) \<Longrightarrow> length (ahead s') \<le> length (ahead s)"
  using matches_moves [OF ways_sound] by fastforce

section \<open>Searching\<close>

text \<open>
  All matches from left to right, as \<open>finditer\<close> yields them: after an empty match the next one at
  the same place must not be empty.
\<close>

definition allowed :: "bool \<Rightarrow> place \<Rightarrow> place list \<Rightarrow> place list" where
  "allowed adv s ss = filter (\<lambda>s'. adv \<longrightarrow> length (ahead s') < length (ahead s)) ss"

lemma allowed_Cons: "allowed adv s (ways r s) = s' # ss \<Longrightarrow>
    length (ahead s') \<le> length (ahead s) \<and> (adv \<longrightarrow> length (ahead s') < length (ahead s))"
proof -
  assume "allowed adv s (ways r s) = s' # ss"
  then have "s' \<in> set (allowed adv s (ways r s))" by simp
  then show ?thesis using ways_forward [of s' r s] by (auto simp: allowed_def)
qed

function scan :: "re \<Rightarrow> bool \<Rightarrow> place \<Rightarrow> (place \<times> place) list" where
  "scan r adv s =
    (case allowed adv s (ways r s) of
       s' # ss \<Rightarrow> (s, s') # scan r (length (ahead s') = length (ahead s)) (s'\<lparr>grp := None\<rparr>)
     | [] \<Rightarrow> (case ahead s of [] \<Rightarrow> [] | c # cs \<Rightarrow> scan r False (advance s)))"
  by pat_completeness auto
termination
proof (relation "measure (\<lambda>(r, adv, s). 2 * length (ahead s) + (if adv then 0 else 1))")
  fix r adv s s' ss
  assume "allowed adv s (ways r s) = s' # ss"
  then show "((r, length (ahead s') = length (ahead s), s'\<lparr>grp := None\<rparr>), r, adv, s) \<in> measure (\<lambda>(r, adv, s). 2 * length (ahead s) + (if adv then 0 else 1))"
    using allowed_Cons [of adv s r s' ss] by (auto split: if_splits)
qed (auto simp: advance_def)

declare scan.simps [simp del]

definition matched :: "place \<times> place \<Rightarrow> pystr" where
  "matched m = between (fst m) (snd m)"

definition group1 :: "place \<times> place \<Rightarrow> pystr" where
  "group1 m = (case grp (snd m) of None \<Rightarrow> [] | Some t \<Rightarrow> t)"

text \<open>\<open>re.search\<close>, \<open>re.match\<close> and \<open>re.fullmatch\<close> give the match; \<open>re.findall\<close> the texts of the group.\<close>

definition re_search :: "re \<Rightarrow> pystr \<Rightarrow> (place \<times> place) option" where
  "re_search r t = (case scan r False (start t) of [] \<Rightarrow> None | m # ms \<Rightarrow> Some m)"

definition re_match :: "re \<Rightarrow> pystr \<Rightarrow> (place \<times> place) option" where
  "re_match r t = (case ways r (start t) of [] \<Rightarrow> None | s # ss \<Rightarrow> Some (start t, s))"

definition re_fullmatch :: "re \<Rightarrow> pystr \<Rightarrow> (place \<times> place) option" where
  "re_fullmatch r t = re_match (Seq r AtEnd) t"

definition re_findall :: "re \<Rightarrow> pystr \<Rightarrow> pystr list" where
  "re_findall r t = map group1 (scan r False (start t))"

text \<open>\<open>re.sub\<close> with a fixed replacement: the text between the matches is kept.\<close>

fun replace_at :: "pystr \<Rightarrow> pystr \<Rightarrow> (place \<times> place) list \<Rightarrow> pystr" where
  "replace_at new t [] = t"
| "replace_at new t ((s, s') # ms) =
    take (length t - length (ahead s)) t @ new @ replace_at new (ahead s') ms"

definition re_sub :: "re \<Rightarrow> pystr \<Rightarrow> pystr \<Rightarrow> pystr" where
  "re_sub r new t = replace_at new t (scan r False (start t))"

text \<open>Matches start at or behind the place where the scan starts, so the text before it is kept.\<close>

lemma scan_forward: "scan r adv s = m # ms \<Longrightarrow> length (ahead (fst m)) \<le> length (ahead s)"
proof (induction r adv s rule: scan.induct)
  case (1 r adv s)
  show ?case
  proof (cases "allowed adv s (ways r s)")
    case Nil
    then obtain c cs where "ahead s = c # cs" "scan r False (advance s) = m # ms"
      using "1.prems" by (auto simp: scan.simps [of r adv s] split: list.splits)
    then show ?thesis using "1.IH"(1) [OF Nil, of c cs] by (simp add: advance_def)
  next
    case (Cons s' ss)
    then show ?thesis using "1.prems" by (auto simp: scan.simps [of r adv s])
  qed
qed

lemma replace_shift:
  assumes "\<And>m ms'. ms = m # ms' \<Longrightarrow> length (ahead (fst m)) \<le> length t"
  shows "replace_at new (c # t) ms = c # replace_at new t ms"
  using assms by (cases ms) (auto simp: Suc_diff_le)

lemma replace_advance:
  "ahead s = c # cs \<Longrightarrow> replace_at new (ahead s) (scan r False (advance s)) = c # replace_at new cs (scan r False (advance s))"
  using scan_forward [of r False "advance s"] by (simp add: replace_shift advance_def)


text \<open>A search succeeds exactly when the expression matches somewhere in the text.\<close>

lemma scan_found:
  "ahead s = t \<Longrightarrow> scan r False s \<noteq> [] \<longleftrightarrow>
    (\<exists>w v s'. t = w @ v \<and> matches r (s\<lparr>behind := rev w @ behind s, ahead := v\<rparr>) s')"
proof (induction t arbitrary: s)
  case Nil
  then have here: "s\<lparr>ahead := []\<rparr> = s" by (cases s) simp
  show ?case
    using Nil ways_iff [of _ r s] by (cases "ways r s") (auto simp: scan.simps [of r False s] allowed_def here)
next
  case (Cons c cs)
  have here: "s\<lparr>ahead := c # cs\<rparr> = s" using Cons.prems by simp
  have adv: "(advance s)\<lparr>behind := rev w @ behind (advance s), ahead := v\<rparr> = s\<lparr>behind := rev (c # w) @ behind s, ahead := v\<rparr>" for w v
    using Cons.prems by (simp add: advance_def)
  have "(\<exists>w v s'. c # cs = w @ v \<and> matches r (s\<lparr>behind := rev w @ behind s, ahead := v\<rparr>) s') \<longleftrightarrow>
      (\<exists>s'. matches r s s') \<or> (\<exists>w v s'. cs = w @ v \<and> matches r (s\<lparr>behind := rev (c # w) @ behind s, ahead := v\<rparr>) s')"
    unfolding Cons_eq_append_conv using here by (metis append_Nil rev.simps(1) append.simps(2) place.surjective place.update_convs(1))
  moreover have "scan r False s \<noteq> [] \<longleftrightarrow> (\<exists>s'. matches r s s') \<or> scan r False (advance s) \<noteq> []"
    using Cons.prems ways_iff [of _ r s] by (cases "ways r s") (auto simp: scan.simps [of r False s] allowed_def)
  moreover have "ahead (advance s) = cs" using Cons.prems by (simp add: advance_def)
  ultimately show ?case using Cons.IH [of "advance s"] by (simp only: adv)
qed

lemma re_search_iff:
  "re_search r t \<noteq> None \<longleftrightarrow> (\<exists>w v s'. t = w @ v \<and> matches r \<lparr>behind = rev w, ahead = v, grp = None\<rparr> s')"
proof -
  have "re_search r t \<noteq> None \<longleftrightarrow> scan r False (start t) \<noteq> []"
    by (simp add: re_search_def split: list.split)
  also have "\<dots> \<longleftrightarrow> (\<exists>w v s'. t = w @ v \<and> matches r \<lparr>behind = rev w, ahead = v, grp = None\<rparr> s')"
    using scan_found [of "start t" t r] by (simp add: start_def)
  finally show ?thesis .
qed


section \<open>Notation for patterns\<close>

fun seq_re :: "re list \<Rightarrow> re" where
  "seq_re [] = Eps"
| "seq_re [r] = r"
| "seq_re (r # rs) = Seq r (seq_re rs)"

definition plus_re :: "re \<Rightarrow> re" where
  "plus_re r = Seq r (Star True r)"

definition opt_re :: "re \<Rightarrow> re" where
  "opt_re r = Alt r Eps"

definition char_re :: "char \<Rightarrow> re" where
  "char_re c = Chr (\<lambda>x. x = of_char c)"

definition lit_re :: "string \<Rightarrow> re" where
  "lit_re w = seq_re (map char_re w)"

definition space_re :: re where
  "space_re = Chr is_space"

definition nonspace_re :: re where
  "nonspace_re = Chr (\<lambda>c. \<not> is_space c)"

definition upper :: "nat \<Rightarrow> bool" where
  "upper c \<longleftrightarrow> 65 \<le> c \<and> c \<le> 90"

definition lower :: "nat \<Rightarrow> bool" where
  "lower c \<longleftrightarrow> 97 \<le> c \<and> c \<le> 122"

definition word_char :: "nat \<Rightarrow> bool" where
  "word_char c \<longleftrightarrow> upper c \<or> lower c \<or> is_digit c \<or> c = 95"

end
