(* ===== verification/Sdk_Parity.thy ===== *)
theory Sdk_Parity
  imports Py_Re
begin

text \<open>
  \<open>scripts/check_sdk_protocol_parity.py\<close>: every error code of the protocol snapshot must be
  known to the five clients. The snapshot names the codes in the style of protobuf, the
  clients in camel case, the Java client in upper snake case. \<open>capitalize\<close> and \<open>upper\<close> are
  modelled on ASCII, which the codes are.
\<close>

section \<open>Names\<close>

definition upper_cp :: "nat \<Rightarrow> nat" where
  "upper_cp c = (if lower c then c - 32 else c)"

definition lower_cp :: "nat \<Rightarrow> nat" where
  "lower_cp c = (if upper c then c + 32 else c)"

definition capitalize :: "pystr \<Rightarrow> pystr" where
  "capitalize s = (case s of [] \<Rightarrow> [] | c # cs \<Rightarrow> upper_cp c # map lower_cp cs)"

definition PROTO_ERROR_CODE_PREFIX :: pystr where
  "PROTO_ERROR_CODE_PREFIX = lit ''ERROR_CODE_''"

definition strip_proto_error_code_prefix :: "pystr \<Rightarrow> pystr" where
  "strip_proto_error_code_prefix name =
    (if \<not> starts_with name PROTO_ERROR_CODE_PREFIX then name
     else concat (map capitalize (split_on 95 (drop (length PROTO_ERROR_CODE_PREFIX) name))))"

definition snake_re :: re where
  "snake_re = Seq NotStart (Next upper)"

definition to_upper_snake :: "pystr \<Rightarrow> pystr" where
  "to_upper_snake name = map upper_cp (re_sub snake_re (lit ''_'') name)"


section \<open>The codes of the clients\<close>

definition code_re :: "re list \<Rightarrow> char \<Rightarrow> re" where
  "code_re before quote = seq_re (before @ [Star True space_re, char_re quote, Group (plus_re (Chr word_char)), char_re quote])"

definition node_re :: re where
  "node_re = code_re [char_re (CHR ''|'')] (CHR 0x27)"

definition assigned_re :: re where
  "assigned_re = code_re [char_re (CHR ''='')] (CHR 0x22)"

definition rust_re :: re where
  "rust_re = code_re [char_re (CHR ''=''), char_re (CHR ''>'')] (CHR 0x22)"

definition java_re :: re where
  "java_re = seq_re [lit_re ''enum'', plus_re space_re, lit_re ''DittoErrorCode'', Star True space_re, char_re (CHR ''{''),
    Group (Star False (Chr (\<lambda>c. True))), char_re (CHR '';'')]"

definition parse_node_codes :: "files \<Rightarrow> pystr \<Rightarrow> pystr list result" where
  "parse_node_codes fs p = bindR (read_text fs p) (\<lambda>t. Inr (re_findall node_re t))"

definition parse_go_codes :: "files \<Rightarrow> pystr \<Rightarrow> pystr list result" where
  "parse_go_codes fs p = bindR (read_text fs p) (\<lambda>t. Inr (re_findall assigned_re t))"

definition parse_python_codes :: "files \<Rightarrow> pystr \<Rightarrow> pystr list result" where
  "parse_python_codes fs p = bindR (read_text fs p) (\<lambda>t. Inr (re_findall assigned_re t))"

definition java_tokens :: "pystr \<Rightarrow> pystr list" where
  "java_tokens t =
    (case re_search java_re t of
       None \<Rightarrow> []
     | Some m \<Rightarrow> filter (\<lambda>x. x \<noteq> []) (map py_strip (split_on 44 (group1 m))))"

definition parse_java_constants :: "files \<Rightarrow> pystr \<Rightarrow> pystr list result" where
  "parse_java_constants fs p = bindR (read_text fs p) (\<lambda>t. Inr (java_tokens t))"

definition parse_rust_codes :: "files \<Rightarrow> pystr \<Rightarrow> pystr list result" where
  "parse_rust_codes fs p = bindR (read_text fs p) (\<lambda>t. Inr (re_findall rust_re t))"


section \<open>The check\<close>

definition NODE_TYPES :: pystr where
  "NODE_TYPES = lit ''ditto-nodejs-client/src/types.ts''"

definition GO_ERRORS :: pystr where
  "GO_ERRORS = lit ''ditto-go-client/errors.go''"

definition PY_TYPES :: pystr where
  "PY_TYPES = lit ''ditto-python-client/src/ditto_client/types.py''"

definition JAVA_ERRORS :: pystr where
  "JAVA_ERRORS = lit ''ditto-java-client/src/main/java/io/ditto/client/DittoErrorCode.java''"

definition RUST_WIRE :: pystr where
  "RUST_WIRE = lit ''ditto-rust-client/src/wire.rs''"

definition PARITY_SNAPSHOT :: pystr where
  "PARITY_SNAPSHOT = lit ''contracts/protocol-contract.snapshot.json''"

text \<open>\<open>strip_proto_error_code_prefix\<close> of every element; only strings have \<open>startswith\<close>.\<close>

fun required_codes :: "json list \<Rightarrow> pystr list result" where
  "required_codes [] = Inr []"
| "required_codes (JStr c # cs) = bindR (required_codes cs) (\<lambda>rs. Inr (strip_proto_error_code_prefix c # rs))"
| "required_codes (c # cs) = Inl AttributeError"

definition snapshot_codes :: "json \<Rightarrow> pystr list result" where
  "snapshot_codes payload =
    bindR (subscript payload ''enums'') (\<lambda>enums. bindR (subscript enums ''ErrorCode'') (\<lambda>v. bindR (iterate v) required_codes))"

datatype parity_issue =
    NodeMissing pystr | GoMissing pystr | PythonMissing pystr | JavaMissing pystr | RustMissing pystr

definition code_issues ::
  "pystr list \<Rightarrow> pystr list \<Rightarrow> pystr list \<Rightarrow> pystr list \<Rightarrow> pystr list \<Rightarrow> pystr \<Rightarrow> parity_issue list" where
  "code_issues node go py java rust code =
    (if code \<notin> set node then [NodeMissing code] else [])
    @ (if code \<notin> set go then [GoMissing code] else [])
    @ (if code \<notin> set py then [PythonMissing code] else [])
    @ (if to_upper_snake code \<notin> set java then [JavaMissing (to_upper_snake code)] else [])
    @ (if code \<notin> set rust then [RustMissing code] else [])"

datatype parity_report = ParityIssues "parity_issue list" | ParityOk nat

definition parity_main :: "files \<Rightarrow> (int \<times> parity_report) result" where
  "parity_main fs =
    bindR (load_json_sig fs PARITY_SNAPSHOT) (\<lambda>payload.
    bindR (snapshot_codes payload) (\<lambda>codes.
    let required = sort (remdups codes) in
    bindR (parse_node_codes fs NODE_TYPES) (\<lambda>node.
    bindR (parse_go_codes fs GO_ERRORS) (\<lambda>go.
    bindR (parse_python_codes fs PY_TYPES) (\<lambda>py.
    bindR (parse_java_constants fs JAVA_ERRORS) (\<lambda>java.
    bindR (parse_rust_codes fs RUST_WIRE) (\<lambda>rust.
      let issues = concat (map (code_issues node go py java rust) required) in
      Inr (if issues \<noteq> [] then (1, ParityIssues issues) else (0, ParityOk (length required))))))))))"


section \<open>Names round trip\<close>

text \<open>\<open>to_upper_snake\<close> puts an underscore before every capital but the first character.\<close>

fun snake_tail :: "pystr \<Rightarrow> pystr" where
  "snake_tail [] = []"
| "snake_tail (c # cs) = (if upper c then [95, c] else [c]) @ snake_tail cs"

lemma ways_snake: "ways snake_re s = (if behind s \<noteq> [] \<and> ahead s \<noteq> [] \<and> upper (hd (ahead s)) then [s] else [])"
  by (cases "ahead s") (auto simp: snake_re_def)

lemma replace_snake:
  "ahead s = t \<Longrightarrow> behind s \<noteq> [] \<Longrightarrow> replace_at [95] t (scan snake_re False s) = snake_tail t"
proof (induction t arbitrary: s)
  case Nil
  then show ?case by (simp add: scan.simps [of snake_re False s] ways_snake allowed_def)
next
  case (Cons c cs)
  have step: "replace_at [95] (c # cs) (scan snake_re False (advance s')) = c # snake_tail cs"
    if "ahead s' = c # cs" "behind s' = behind s" for s'
    using replace_advance [OF that(1), of "[95]" snake_re] Cons.IH [of "advance s'"] that
    by (simp add: advance_def)
  have "scan snake_re True (s\<lparr>grp := None\<rparr>) = scan snake_re False (advance (s\<lparr>grp := None\<rparr>))"
    using Cons.prems by (simp add: scan.simps [of snake_re True] ways_snake allowed_def)
  with Cons.prems show ?case
    using step [of s] step [of "s\<lparr>grp := None\<rparr>"]
    by (auto simp: scan.simps [of snake_re False s] ways_snake allowed_def)
qed

lemma to_upper_snake_eq: "to_upper_snake (c # cs) = upper_cp c # map upper_cp (snake_tail cs)"
proof -
  have "scan snake_re False (start (c # cs)) = scan snake_re False (advance (start (c # cs)))"
    by (subst scan.simps) (simp add: ways_snake allowed_def start_def)
  moreover have "replace_at [95] (c # cs) (scan snake_re False (advance (start (c # cs)))) = c # snake_tail cs"
    using replace_advance [of "start (c # cs)" c cs "[95]" snake_re] replace_snake [of "advance (start (c # cs))" cs]
    by (simp add: advance_def start_def)
  ultimately show ?thesis by (simp add: to_upper_snake_def re_sub_def lit_def)
qed

text \<open>A code in the style of protobuf: words of capitals and digits, each starting with a capital.\<close>

definition proto_word :: "pystr \<Rightarrow> bool" where
  "proto_word w \<longleftrightarrow> w \<noteq> [] \<and> upper (hd w) \<and> list_all (\<lambda>c. upper c \<or> is_digit c) w"

fun join_words :: "pystr list \<Rightarrow> pystr" where
  "join_words [] = []"
| "join_words [w] = w"
| "join_words (w # ws) = w @ 95 # join_words ws"

lemma split_on_plain: "c \<notin> set w \<Longrightarrow> split_on c w = [w]"
  by (induction w) auto

lemma split_on_append: "c \<notin> set w \<Longrightarrow> split_on c (w @ c # t) = w # split_on c t"
  by (induction w) auto

lemma proto_word_plain: "proto_word w \<Longrightarrow> 95 \<notin> set w"
  by (auto simp: proto_word_def list_all_iff upper_def is_digit_def dest!: bspec)

lemma split_join: "list_all proto_word ws \<Longrightarrow> ws \<noteq> [] \<Longrightarrow> split_on 95 (join_words ws) = ws"
  by (induction ws rule: join_words.induct) (auto simp: split_on_plain split_on_append proto_word_plain)

lemma upper_lower: "upper c \<or> is_digit c \<Longrightarrow> upper_cp (lower_cp c) = c \<and> upper_cp c = c \<and> \<not> upper (lower_cp c)"
  by (auto simp: upper_cp_def lower_cp_def upper_def lower_def is_digit_def)

lemma snake_tail_append: "snake_tail (s @ t) = snake_tail s @ snake_tail t"
  by (induction s) auto

lemma snake_tail_lower: "list_all (\<lambda>c. upper c \<or> is_digit c) s \<Longrightarrow> map upper_cp (snake_tail (map lower_cp s)) = s"
  by (induction s) (auto simp: upper_lower)

lemma capitalize_word:
  assumes "proto_word w"
  shows "\<exists>c cs. w = c # cs \<and> capitalize w = c # map lower_cp cs \<and> upper c \<and> upper_cp c = c \<and> list_all (\<lambda>c. upper c \<or> is_digit c) cs"
  using assms by (cases w) (auto simp: proto_word_def capitalize_def upper_lower)

lemma upper_underscore: "upper_cp 95 = 95"
  by (simp add: upper_cp_def lower_def)

lemma snake_words:
  "list_all proto_word ws \<Longrightarrow> ws \<noteq> [] \<Longrightarrow> map upper_cp (snake_tail (concat (map capitalize ws))) = 95 # join_words ws"
proof (induction ws rule: join_words.induct)
  case (2 w)
  then show ?case using capitalize_word [of w] by (auto simp: snake_tail_lower upper_underscore)
next
  case (3 w v vs)
  then show ?case using capitalize_word [of w] by (auto simp: snake_tail_append snake_tail_lower upper_underscore)
qed simp

lemma strip_words:
  "list_all proto_word ws \<Longrightarrow> ws \<noteq> [] \<Longrightarrow>
   strip_proto_error_code_prefix (PROTO_ERROR_CODE_PREFIX @ join_words ws) = concat (map capitalize ws)"
  by (simp add: strip_proto_error_code_prefix_def starts_with_def split_join)

text \<open>
  For a code of the snapshot made of words of capitals and digits, the constant the check looks
  for in the Java client is the code without its prefix: camel case and back is the identity.
\<close>

theorem java_constant_roundtrip:
  assumes "list_all proto_word ws" "ws \<noteq> []"
  shows "to_upper_snake (strip_proto_error_code_prefix (PROTO_ERROR_CODE_PREFIX @ join_words ws)) = join_words ws"
proof -
  obtain w vs where ws: "ws = w # vs" using assms(2) by (cases ws) auto
  obtain c cs where w: "w = c # cs" "capitalize w = c # map lower_cp cs" "upper c" "upper_cp c = c"
    using capitalize_word [of w] assms(1) ws by auto
  have "95 # to_upper_snake (concat (map capitalize ws)) = map upper_cp (snake_tail (concat (map capitalize ws)))"
    using w by (simp add: ws to_upper_snake_eq upper_underscore)
  also have "\<dots> = 95 # join_words ws" by (rule snake_words [OF assms])
  finally show ?thesis using strip_words [OF assms] by simp
qed

theorem java_constant_roundtrip_witness:
  "to_upper_snake (strip_proto_error_code_prefix (lit ''ERROR_CODE_KEY_NOT_FOUND'')) = lit ''KEY_NOT_FOUND''"
proof -
  have "list_all proto_word [lit ''KEY'', lit ''NOT'', lit ''FOUND'']"
    by (simp add: proto_word_def lit_def upper_def)
  from java_constant_roundtrip [OF this] show ?thesis
    by (simp add: PROTO_ERROR_CODE_PREFIX_def lit_def)
qed

definition known_to_all :: "pystr list \<Rightarrow> pystr list \<Rightarrow> pystr list \<Rightarrow> pystr list \<Rightarrow> pystr list \<Rightarrow> pystr \<Rightarrow> bool" where
  "known_to_all node go py java rust c \<longleftrightarrow>
    c \<in> set node \<and> c \<in> set go \<and> c \<in> set py \<and> to_upper_snake c \<in> set java \<and> c \<in> set rust"

lemma code_issues_none: "code_issues node go py java rust c = [] \<longleftrightarrow> known_to_all node go py java rust c"
  by (auto simp: code_issues_def known_to_all_def)

lemma issues_none:
  "concat (map (code_issues node go py java rust) (sort (remdups codes))) = [] \<longleftrightarrow>
    list_all (known_to_all node go py java rust) codes"
  by (auto simp: concat_eq_Nil_conv list_all_iff code_issues_none)

lemma issues_members:
  "i \<in> set (concat (map (code_issues node go py java rust) (sort (remdups codes)))) \<longleftrightarrow>
    (\<exists>c \<in> set codes. i \<in> set (code_issues node go py java rust c))"
  by auto

lemma required_codes_error: "required_codes cs = Inl e \<Longrightarrow> e = AttributeError"
  by (induction cs rule: required_codes.induct) (auto simp: bindR_eq_Inl)

lemma snapshot_codes_error: "snapshot_codes v = Inl e \<Longrightarrow> e \<in> {KeyError, TypeError, AttributeError}"
  unfolding snapshot_codes_def bindR_eq_Inl by (auto dest: subscript_error iterate_error required_codes_error)

text \<open>
  C35: when the parity check ends, it has read the codes of the snapshot and of the five
  clients. It returns 0 exactly when every code, in camel case, is among those of the Node, Go,
  Python and Rust clients and, in upper snake case, among the constants of the Java client.
  Otherwise it returns 1 and reports every missing code and nothing else.
\<close>

theorem parity_accepted_iff:
  "case parity_main fs of
     Inl e \<Rightarrow> e \<in> {OSError (Some ENOENT), UnicodeDecodeError, JSONDecodeError, KeyError, TypeError, AttributeError}
   | Inr (code, report) \<Rightarrow>
       (\<exists>payload codes node go py java rust.
          load_json_sig fs PARITY_SNAPSHOT = Inr payload \<and> snapshot_codes payload = Inr codes \<and>
          parse_node_codes fs NODE_TYPES = Inr node \<and> parse_go_codes fs GO_ERRORS = Inr go \<and>
          parse_python_codes fs PY_TYPES = Inr py \<and> parse_java_constants fs JAVA_ERRORS = Inr java \<and>
          parse_rust_codes fs RUST_WIRE = Inr rust \<and>
          (if list_all (known_to_all node go py java rust) codes
           then code = 0 \<and> report = ParityOk (card (set codes))
           else code = 1 \<and> (\<exists>issues. report = ParityIssues issues \<and>
             (\<forall>c. NodeMissing c \<in> set issues \<longleftrightarrow> c \<in> set codes \<and> c \<notin> set node) \<and>
             (\<forall>c. GoMissing c \<in> set issues \<longleftrightarrow> c \<in> set codes \<and> c \<notin> set go) \<and>
             (\<forall>c. PythonMissing c \<in> set issues \<longleftrightarrow> c \<in> set codes \<and> c \<notin> set py) \<and>
             (\<forall>k. JavaMissing k \<in> set issues \<longleftrightarrow> k \<in> to_upper_snake ` set codes \<and> k \<notin> set java) \<and>
             (\<forall>c. RustMissing c \<in> set issues \<longleftrightarrow> c \<in> set codes \<and> c \<notin> set rust))))"
proof (cases "parity_main fs")
  case (Inl e)
  have "e \<in> {OSError (Some ENOENT), UnicodeDecodeError, JSONDecodeError, KeyError, TypeError, AttributeError}"
    using Inl load_json_error(2) snapshot_codes_error read_text_error unfolding parity_main_def Let_def bindR_eq_Inl parse_node_codes_def parse_go_codes_def
      parse_python_codes_def parse_java_constants_def parse_rust_codes_def
    by (elim disjE exE conjE) (fastforce split: if_splits)+
  with Inl show ?thesis by simp
next
  case (Inr r)
  obtain payload codes node go py java rust where facts:
    "load_json_sig fs PARITY_SNAPSHOT = Inr payload" "snapshot_codes payload = Inr codes"
    "parse_node_codes fs NODE_TYPES = Inr node" "parse_go_codes fs GO_ERRORS = Inr go"
    "parse_python_codes fs PY_TYPES = Inr py" "parse_java_constants fs JAVA_ERRORS = Inr java"
    "parse_rust_codes fs RUST_WIRE = Inr rust"
    using Inr unfolding parity_main_def by (elim bind_elim) (auto simp: Let_def elim!: bind_elim)
  define issues where "issues = concat (map (code_issues node go py java rust) (sort (remdups codes)))"
  have "parity_main fs = Inr (if issues \<noteq> [] then (1, ParityIssues issues) else (0, ParityOk (card (set codes))))"
    by (simp add: parity_main_def Let_def facts length_remdups_card_conv concat_eq_Nil_conv issues_def)
  then have main: "r = (if issues \<noteq> [] then (1, ParityIssues issues) else (0, ParityOk (card (set codes))))"
    using Inr by simp
  have none: "issues = [] \<longleftrightarrow> list_all (known_to_all node go py java rust) codes"
    unfolding issues_def by (rule issues_none)
  have mem: "i \<in> set issues \<longleftrightarrow> (\<exists>c \<in> set codes. i \<in> set (code_issues node go py java rust c))" for i
    unfolding issues_def by (rule issues_members)
  have "(\<forall>c. NodeMissing c \<in> set issues \<longleftrightarrow> c \<in> set codes \<and> c \<notin> set node) \<and>
      (\<forall>c. GoMissing c \<in> set issues \<longleftrightarrow> c \<in> set codes \<and> c \<notin> set go) \<and>
      (\<forall>c. PythonMissing c \<in> set issues \<longleftrightarrow> c \<in> set codes \<and> c \<notin> set py) \<and>
      (\<forall>k. JavaMissing k \<in> set issues \<longleftrightarrow> k \<in> to_upper_snake ` set codes \<and> k \<notin> set java) \<and>
      (\<forall>c. RustMissing c \<in> set issues \<longleftrightarrow> c \<in> set codes \<and> c \<notin> set rust)"
    unfolding mem code_issues_def by auto
  with Inr facts main none show ?thesis by (cases r) auto
qed

end
