(* ===== verification/Py_Date.thy ===== *)
theory Py_Date
  imports Script_Base
begin

text \<open>
  \<open>datetime.date.fromisoformat\<close> of Python 3.11. A date is its proleptic Gregorian ordinal; the
  order of dates is the order of the ordinals (\<open>ordinal_less\<close>). The parser works on the UTF-8
  bytes of the text and does not look behind the last digit it needs.
\<close>

section \<open>The calendar\<close>

definition is_leap :: "nat \<Rightarrow> bool" where
  "is_leap y \<longleftrightarrow> y mod 4 = 0 \<and> (y mod 100 \<noteq> 0 \<or> y mod 400 = 0)"

definition days_in_month :: "nat \<Rightarrow> nat \<Rightarrow> nat" where
  "days_in_month y m =
    (if m = 2 then if is_leap y then 29 else 28
     else if m = 4 \<or> m = 6 \<or> m = 9 \<or> m = 11 then 30 else 31)"

definition days_before_year :: "nat \<Rightarrow> nat" where
  "days_before_year y = (y - 1) * 365 + (y - 1) div 4 - (y - 1) div 100 + (y - 1) div 400"

definition days_before_month :: "nat \<Rightarrow> nat \<Rightarrow> nat" where
  "days_before_month y m = sum_list (map (days_in_month y) [1..<m])"

definition ymd_to_ord :: "nat \<Rightarrow> nat \<Rightarrow> nat \<Rightarrow> nat" where
  "ymd_to_ord y m d = days_before_year y + days_before_month y m + d"

definition valid_date :: "nat \<Rightarrow> nat \<Rightarrow> nat \<Rightarrow> bool" where
  "valid_date y m d \<longleftrightarrow> 1 \<le> y \<and> y \<le> 9999 \<and> 1 \<le> m \<and> m \<le> 12 \<and> 1 \<le> d \<and> d \<le> days_in_month y m"

definition MAX_ORDINAL :: nat where
  "MAX_ORDINAL = 3652059"

text \<open>Monday is 0.\<close>

definition weekday :: "nat \<Rightarrow> nat" where
  "weekday ordinal = (ordinal + 6) mod 7"

definition iso_week1_monday :: "nat \<Rightarrow> int" where
  "iso_week1_monday y =
    (let first = ymd_to_ord y 1 1; first_weekday = weekday first; week1 = int first - int first_weekday
     in if first_weekday > 3 then week1 + 7 else week1)"

text \<open>A year has a week 53 if it starts on a Thursday, or on a Wednesday and is a leap year.\<close>

definition has_week53 :: "nat \<Rightarrow> bool" where
  "has_week53 y \<longleftrightarrow> (let w = weekday (ymd_to_ord y 1 1) in w = 3 \<or> w = 2 \<and> is_leap y)"

definition iso_to_ord :: "nat \<Rightarrow> nat \<Rightarrow> nat \<Rightarrow> nat option" where
  "iso_to_ord y w d =
    (if y = 0 \<or> w = 0 \<or> w > 53 \<or> w = 53 \<and> \<not> has_week53 y \<or> d = 0 \<or> d > 7 then None
     else let n = iso_week1_monday y + (int w - 1) * 7 + int d - 1
       in if 1 \<le> n \<and> n \<le> int MAX_ORDINAL then Some (nat n) else None)"

definition make_date :: "nat \<Rightarrow> nat \<Rightarrow> nat \<Rightarrow> nat option" where
  "make_date y m d = (if valid_date y m d then Some (ymd_to_ord y m d) else None)"


section \<open>The text\<close>

text \<open>\<open>n\<close> digits at the start of the text, as \<open>parse_digits\<close>.\<close>

definition parse_digits :: "nat \<Rightarrow> nat list \<Rightarrow> (nat \<times> nat list) option" where
  "parse_digits n s =
    (if n \<le> length s \<and> list_all is_digit (take n s) then Some (digits_value (take n s), drop n s) else None)"

definition skip_dash :: "bool \<Rightarrow> nat list \<Rightarrow> nat list option" where
  "skip_dash sep s = (if sep then (case s of c # cs \<Rightarrow> if c = 45 then Some cs else None | [] \<Rightarrow> None) else Some s)"

definition parse_week_day :: "bool \<Rightarrow> nat list \<Rightarrow> nat option" where
  "parse_week_day sep s =
    (if s = [] then Some 1
     else Option.bind (skip_dash sep s) (\<lambda>t. Option.bind (parse_digits 1 t) (\<lambda>(d, r). Some d)))"

definition parse_date_bytes :: "nat list \<Rightarrow> nat option" where
  "parse_date_bytes s =
    Option.bind (parse_digits 4 s) (\<lambda>(y, s1).
      let sep = (case s1 of c # cs \<Rightarrow> c = 45 | [] \<Rightarrow> False);
          s2 = (if sep then tl s1 else s1)
      in if (case s2 of c # cs \<Rightarrow> c = 87 | [] \<Rightarrow> False)
         then Option.bind (parse_digits 2 (tl s2)) (\<lambda>(w, s3).
                Option.bind (parse_week_day sep s3) (\<lambda>d. iso_to_ord y w d))
         else Option.bind (parse_digits 2 s2) (\<lambda>(m, s3).
                Option.bind (skip_dash sep s3) (\<lambda>s4.
                  Option.bind (parse_digits 2 s4) (\<lambda>(d, r). make_date y m d))))"

text \<open>\<open>None\<close> is a \<open>ValueError\<close>.\<close>

definition fromisoformat :: "pystr \<Rightarrow> nat option" where
  "fromisoformat s =
    (case py_encode s of
       Inl e \<Rightarrow> None
     | Inr b \<Rightarrow>
         if length b = 7 \<or> length b = 8 \<or> length b = 10 then parse_date_bytes (map unat b) else None)"

section \<open>Ordinals are ordered as the dates\<close>

lemma days_in_year: "days_before_month y 13 = (if is_leap y then 366 else 365)"
  by (simp add: days_before_month_def days_in_month_def upt_rec numeral_eq_Suc)

lemma days_before_Suc_month: "1 \<le> m \<Longrightarrow> days_before_month y (Suc m) = days_before_month y m + days_in_month y m"
  by (simp add: days_before_month_def)

lemma days_before_month_mono:
  assumes "1 \<le> m" "m \<le> m'"
  shows "days_before_month y m \<le> days_before_month y m'"
  using assms(2,1) by (induction m' rule: dec_induct) (simp_all add: days_before_Suc_month)

lemma days_before_Suc_year: "1 \<le> y \<Longrightarrow> days_before_year (Suc y) = days_before_year y + days_before_month y 13"
proof -
  assume "1 \<le> y"
  then obtain n where y: "y = Suc n" by (cases y) auto
  have le: "n div 100 \<le> n div 4" "Suc n div 100 \<le> Suc n div 4" by (simp_all add: div_le_mono2)
  have dvd: "Suc n mod 100 = 0 \<Longrightarrow> Suc n mod 4 = 0" "Suc n mod 400 = 0 \<Longrightarrow> Suc n mod 100 = 0"
    using dvd_trans [of 4 100 "Suc n"] dvd_trans [of 100 400 "Suc n"] by (simp_all add: mod_eq_0_iff_dvd)
  show ?thesis
    unfolding days_in_year using le dvd
    by (auto simp: days_before_year_def y is_leap_def div_Suc add.commute add.left_commute)
qed

lemma days_before_year_mono:
  assumes "1 \<le> y" "y \<le> y'"
  shows "days_before_year y \<le> days_before_year y'"
  using assms(2,1) by (induction y' rule: dec_induct) (simp_all add: days_before_Suc_year)

lemma ordinal_in_month:
  assumes "valid_date y m d"
  shows "days_before_year y + days_before_month y m < ymd_to_ord y m d"
    and "ymd_to_ord y m d \<le> days_before_year y + days_before_month y (Suc m)"
    and "ymd_to_ord y m d \<le> days_before_year (Suc y)"
proof -
  show "days_before_year y + days_before_month y m < ymd_to_ord y m d"
    "ymd_to_ord y m d \<le> days_before_year y + days_before_month y (Suc m)"
    using assms by (simp_all add: valid_date_def ymd_to_ord_def days_before_Suc_month)
  then show "ymd_to_ord y m d \<le> days_before_year (Suc y)"
    using assms days_before_month_mono [of "Suc m" 13 y] by (simp add: valid_date_def days_before_Suc_year)
qed

lemma ordinal_increasing:
  assumes "valid_date y m d" "valid_date y' m' d'"
    and "y < y' \<or> y = y' \<and> (m < m' \<or> m = m' \<and> d < d')"
  shows "ymd_to_ord y m d < ymd_to_ord y' m' d'"
proof -
  consider "y < y'" | "y = y'" "m < m'" | "y = y'" "m = m'" "d < d'" using assms(3) by blast
  then show ?thesis
  proof cases
    case 1
    then show ?thesis
      using ordinal_in_month(3) [OF assms(1)] ordinal_in_month(1) [OF assms(2)] days_before_year_mono [of "Suc y" y'] by simp
  next
    case 2
    then show ?thesis
      using ordinal_in_month(2) [OF assms(1)] ordinal_in_month(1) [OF assms(2)] days_before_month_mono [of "Suc m" m' y'] by simp
  qed (simp add: ymd_to_ord_def)
qed

text \<open>The order of two dates is the order of year, month and day.\<close>

lemma ordinal_less:
  assumes "valid_date y m d" "valid_date y' m' d'"
  shows "ymd_to_ord y m d < ymd_to_ord y' m' d' \<longleftrightarrow> y < y' \<or> y = y' \<and> (m < m' \<or> m = m' \<and> d < d')"
  using ordinal_increasing [OF assms] ordinal_increasing [OF assms(2,1)] by (metis linorder_neqE_nat order_less_asym)


section \<open>The extended form\<close>

definition pad_digits :: "nat \<Rightarrow> nat \<Rightarrow> pystr" where
  "pad_digits w n = replicate (w - length (digits_nat n)) 48 @ digits_nat n"

definition isoformat :: "nat \<Rightarrow> nat \<Rightarrow> nat \<Rightarrow> pystr" where
  "isoformat y m d = pad_digits 4 y @ [45] @ pad_digits 2 m @ [45] @ pad_digits 2 d"

lemma digits_nat_length: "n < 10 ^ w \<Longrightarrow> 0 < w \<Longrightarrow> length (digits_nat n) \<le> w"
proof (induction w arbitrary: n)
  case (Suc w)
  show ?case
  proof (cases "n < 10")
    case False
    then have "w \<noteq> 0" using Suc.prems by (cases w) auto
    then have "length (digits_nat (n div 10)) \<le> w" using Suc by (intro Suc.IH) (auto simp: less_mult_imp_div_less)
    then show ?thesis using False digits_nat.simps [of n] by simp
  qed (simp add: digits_nat.simps [of n])
qed simp

lemma pad_digits:
  assumes "n < 10 ^ w" "0 < w"
  shows "parse_digits w (pad_digits w n @ r) = Some (n, r)" "length (pad_digits w n) = w" "list_all is_digit (pad_digits w n)"
proof -
  show len: "length (pad_digits w n) = w" using digits_nat_length [OF assms] by (simp add: pad_digits_def)
  show dig: "list_all is_digit (pad_digits w n)"
    using digits_nat_digits(1) [of n] by (auto simp: pad_digits_def list_all_iff is_digit_def)
  have "digits_value (replicate k 48 @ ds) = digits_value ds" for k ds
    by (induction k) (simp_all add: digits_value_def)
  then have "digits_value (pad_digits w n) = n" by (simp add: pad_digits_def digits_value_digits)
  with len dig show "parse_digits w (pad_digits w n @ r) = Some (n, r)" by (simp add: parse_digits_def)
qed

lemma ascii_bytes: "list_all (\<lambda>c. c < 128) s \<Longrightarrow> py_encode s = Inr (utf8_bytes s) \<and> map unat (utf8_bytes s) = s"
proof -
  assume s: "list_all (\<lambda>c. c < 128) s"
  then have "concat (map utf8_cp s) = s" by (induction s) (simp_all add: utf8_cp_def)
  moreover have "encodable s" using s by (auto simp: encodable_def encodable_cp_def is_surrogate_def list_all_iff)
  moreover have "map (\<lambda>b. unat (of_nat b :: byte)) s = s" using s by (intro map_unat_of_nat) (auto simp: list_all_iff)
  ultimately show ?thesis by (simp add: utf8_bytes_def comp_def)
qed

text \<open>The parser reads the extended form of every date of the calendar.\<close>

lemma iso_roundtrip:
  assumes "valid_date y m d"
  shows "fromisoformat (isoformat y m d) = Some (ymd_to_ord y m d)"
proof -
  have "d \<le> 31" using assms by (auto simp: valid_date_def days_in_month_def split: if_splits)
  then have b: "y < 10 ^ 4" "m < 10 ^ 2" "d < 10 ^ 2" using assms by (auto simp: valid_date_def)
  note y = pad_digits [OF b(1)] and m = pad_digits [OF b(2)] and d = pad_digits [OF b(3)]
  have "list_all (\<lambda>c. c < 128) (isoformat y m d)"
    using y(3) m(3) d(3) by (auto simp: isoformat_def list_all_iff is_digit_def)
  note enc = ascii_bytes [OF this]
  have "length (isoformat y m d) = 10" using y(2) m(2) d(2) by (simp add: isoformat_def)
  then have len: "length (utf8_bytes (isoformat y m d)) = 10" using enc by (metis length_map)
  obtain c cs where mm: "pad_digits 2 m = c # cs" "is_digit c" using m(2,3) by (cases "pad_digits 2 m") auto
  have "parse_date_bytes (isoformat y m d) = make_date y m d"
    using y(1) m(1) d(1) [of "[]"] mm by (simp add: isoformat_def parse_date_bytes_def skip_dash_def is_digit_def)
  then show ?thesis using enc len assms by (simp add: fromisoformat_def make_date_def)
qed

end
