(* ===== verification/Coverage_Check.thy ===== *)
theory Coverage_Check
  imports Py_Date
begin

text \<open>
  \<open>scripts/validate_coverage_thresholds.py\<close>: the coverage of the lanes of the policy file
  against their minimum, with exceptions that expire. \<open>float(s)\<close> of a string and of a JSON
  value come first. The date of today is an argument; a constructor of an issue stands for the
  message with those arguments.
\<close>

section \<open>\<open>float\<close>\<close>

text \<open>An underscore stands between two digits.\<close>

fun drop_underscores :: "bool \<Rightarrow> pystr \<Rightarrow> pystr option" where
  "drop_underscores after_digit [] = Some []"
| "drop_underscores after_digit (c # cs) =
    (if c = 95 then
       if after_digit \<and> (case cs of d # ds \<Rightarrow> is_digit d | [] \<Rightarrow> False) then drop_underscores False cs else None
     else map_option ((#) c) (drop_underscores (is_digit c) cs))"

definition lower_ascii :: "nat \<Rightarrow> nat" where
  "lower_ascii c = (if 65 \<le> c \<and> c \<le> 90 then c + 32 else c)"

definition float_digits :: "bool \<Rightarrow> pystr \<Rightarrow> pyfloat option" where
  "float_digits neg s =
    (let ip = takeWhile is_digit s; r1 = dropWhile is_digit s;
         (fp, r2) = (case r1 of
             c # cs \<Rightarrow> if c = 46 then (takeWhile is_digit cs, dropWhile is_digit cs) else ([], r1)
           | [] \<Rightarrow> ([], r1));
         (ex, r3) = j_exp r2
     in if ip @ fp = [] \<or> r3 \<noteq> [] then None
        else Some (double_of neg (digits_value (ip @ fp)) ((case ex of None \<Rightarrow> 0 | Some x \<Rightarrow> x) - int (length fp))))"

definition float_ascii :: "pystr \<Rightarrow> pyfloat option" where
  "float_ascii s =
    (case exp_sign s of (neg, r) \<Rightarrow>
       let w = map lower_ascii r in
       if w = lit ''inf'' \<or> w = lit ''infinity'' then Some (Infinity neg)
       else if w = lit ''nan'' then Some NaN
       else float_digits neg r)"

definition float_str :: "pystr \<Rightarrow> pyfloat option" where
  "float_str s =
    (let t = rev (dropWhile int_space (rev (dropWhile int_space s)));
         u = map (\<lambda>c. case decimal_digit c of Some d \<Rightarrow> 48 + d | None \<Rightarrow> c) t
     in Option.bind (drop_underscores False u) float_ascii)"

fun py_float :: "json \<Rightarrow> pyfloat result" where
  "py_float (JInt n) =
    (case double_of (n < 0) (nat \<bar>n\<bar>) 0 of Infinity sg \<Rightarrow> Inl OverflowError | f \<Rightarrow> Inr f)"
| "py_float (JBool b) = Inr (double_of False (of_bool b) 0)"
| "py_float (JFloat f) = Inr f"
| "py_float (JStr s) =
    (case float_str s of None \<Rightarrow> Inl (ValueError (lit ''could not convert string to float'')) | Some f \<Rightarrow> Inr f)"
| "py_float _ = Inl TypeError"


section \<open>Metrics\<close>

text \<open>\<open>None\<close> is an \<open>ArgumentTypeError\<close>.\<close>

definition parse_metric :: "pystr \<Rightarrow> (pystr \<times> pyfloat) option" where
  "parse_metric v =
    (if 58 \<notin> set v then None
     else
       let name = takeWhile (\<lambda>c. c \<noteq> 58) v; raw = tl (dropWhile (\<lambda>c. c \<noteq> 58) v)
       in map_option (\<lambda>percent. (name, percent)) (float_str raw))"


section \<open>Exceptions\<close>

definition expires_of :: "json \<Rightarrow> nat result" where
  "expires_of ex =
    bindR (get_default ex ''expires'' (JStr (lit ''1970-01-01''))) (\<lambda>v.
      case v of
        JStr s \<Rightarrow>
          (case fromisoformat s of
             None \<Rightarrow> Inl (ValueError (lit ''Invalid isoformat string''))
           | Some n \<Rightarrow> Inr n)
      | _ \<Rightarrow> Inl TypeError)"

fun active_exception :: "json list \<Rightarrow> pystr \<Rightarrow> nat \<Rightarrow> json option result" where
  "active_exception [] lane_name today = Inr None"
| "active_exception (ex # exs) lane_name today =
    bindR (get_value_of ex ''lane'') (\<lambda>lane.
      if \<not> py_eq lane (JStr lane_name) then active_exception exs lane_name today
      else bindR (get_value_of ex ''status'') (\<lambda>status.
        if \<not> py_eq status (JStr (lit ''approved'')) then active_exception exs lane_name today
        else bindR (get_value_of ex ''approver'') (\<lambda>approver. bindR (get_value_of ex ''reason'') (\<lambda>reason.
          if \<not> truthy approver \<or> \<not> truthy reason then active_exception exs lane_name today
          else bindR (expires_of ex) (\<lambda>expires.
            if today \<le> expires then Inr (Some ex) else active_exception exs lane_name today)))))"

datatype coverage_issue =
    VersionNotOne
  | NoPolicyName
  | NoLanes
  | InvalidExpires json
  | ExceptionExpired json
  | BelowMinimum pystr pyfloat pyfloat
  | NoMetric

definition exception_id :: "json \<Rightarrow> json result" where
  "exception_id ex = get_default ex ''id'' (JStr (lit ''<missing>''))"

fun expiry_issues :: "nat \<Rightarrow> json list \<Rightarrow> coverage_issue list result" where
  "expiry_issues today [] = Inr []"
| "expiry_issues today (ex # exs) =
    bindR (case expires_of ex of
        Inl (ValueError m) \<Rightarrow> bindR (exception_id ex) (\<lambda>i. Inr [InvalidExpires i])
      | Inl e \<Rightarrow> Inl e
      | Inr expires \<Rightarrow> if expires < today then bindR (exception_id ex) (\<lambda>i. Inr [ExceptionExpired i]) else Inr [])
     (\<lambda>es. bindR (expiry_issues today exs) (\<lambda>fs. Inr (es @ fs)))"


section \<open>Lanes\<close>

fun read_lanes :: "json list \<Rightarrow> (json \<times> json) list result" where
  "read_lanes [] = Inr []"
| "read_lanes (lane # ls) =
    bindR (get_value_of lane ''name'') (\<lambda>name.
      if \<not> hashable name then Inl TypeError
      else bindR (read_lanes ls) (\<lambda>rest. Inr ((name, lane) # rest)))"

text \<open>
  The lanes by name. Only a string is among the metrics, so a lane with any other name is passed
  over by the loop below.
\<close>

definition named_lanes :: "(json \<times> json) list \<Rightarrow> (pystr \<times> json) list" where
  "named_lanes ls =
    dict_items (concat (map (\<lambda>(name, lane). case name of JStr s \<Rightarrow> [(s, lane)] | _ \<Rightarrow> []) ls))"

definition minimum_of :: "json \<Rightarrow> pyfloat result" where
  "minimum_of lane = bindR (get_default lane ''minimum_percent'' (JInt 0)) py_float"

definition lane_issues ::
  "json list \<Rightarrow> nat \<Rightarrow> (pystr \<times> pyfloat) list \<Rightarrow> pystr \<Rightarrow> json \<Rightarrow> coverage_issue list result" where
  "lane_issues exs today metrics lane_name lane =
    (case map_of (rev metrics) lane_name of
       None \<Rightarrow> Inr []
     | Some actual \<Rightarrow>
         bindR (minimum_of lane) (\<lambda>minimum.
           if float_less actual minimum then
             bindR (active_exception exs lane_name today) (\<lambda>ex.
               Inr (if ex = None then [BelowMinimum lane_name actual minimum] else []))
           else Inr []))"

fun threshold_issues ::
  "json list \<Rightarrow> nat \<Rightarrow> (pystr \<times> pyfloat) list \<Rightarrow> (pystr \<times> json) list \<Rightarrow> coverage_issue list result" where
  "threshold_issues exs today metrics [] = Inr []"
| "threshold_issues exs today metrics ((lane_name, lane) # ls) =
    bindR (lane_issues exs today metrics lane_name lane) (\<lambda>es.
      bindR (threshold_issues exs today metrics ls) (\<lambda>fs. Inr (es @ fs)))"


section \<open>\<open>main\<close>\<close>

text \<open>A metric that \<open>argparse\<close> refuses ends the script with exit code 2.\<close>

datatype coverage_report =
    UsageError
  | CoverageFailed "coverage_issue list"
  | CoverageOk "(pystr \<times> pyfloat) list"

definition coverage_issues ::
  "json \<Rightarrow> (pystr \<times> pyfloat) list \<Rightarrow> bool \<Rightarrow> nat \<Rightarrow> coverage_issue list result" where
  "coverage_issues policy metrics metadata_only today =
    bindR (get_value_of policy ''version'') (\<lambda>version.
    bindR (get_value_of policy ''policy_name'') (\<lambda>policy_name.
    bindR (get_default policy ''lanes'' (JList [])) (\<lambda>lanes_value.
    bindR (iterate lanes_value) (\<lambda>lane_list.
    bindR (read_lanes lane_list) (\<lambda>lanes.
    bindR (get_default policy ''exceptions'' (JList [])) (\<lambda>exceptions_value.
    bindR (iterate exceptions_value) (\<lambda>exs.
    bindR (expiry_issues today exs) (\<lambda>expired.
    bindR (if metadata_only then Inr []
           else bindR (threshold_issues exs today metrics (named_lanes lanes)) (\<lambda>low.
             Inr (low @ (if metrics = [] then [NoMetric] else [])))) (\<lambda>low.
      Inr ((if py_eq version (JInt 1) then [] else [VersionNotOne]) @
           (if truthy policy_name then [] else [NoPolicyName]) @
           (if lanes = [] then [NoLanes] else []) @ expired @ low))))))))))"

definition coverage_main ::
  "files \<Rightarrow> pystr \<Rightarrow> pystr list \<Rightarrow> bool \<Rightarrow> nat \<Rightarrow> (int \<times> coverage_report) result" where
  "coverage_main fs policy_path metric_args metadata_only today =
    (case those (map parse_metric metric_args) of
       None \<Rightarrow> Inr (2, UsageError)
     | Some metrics \<Rightarrow>
         bindR (load_json fs policy_path) (\<lambda>policy.
           bindR (coverage_issues policy metrics metadata_only today) (\<lambda>errors.
             if errors \<noteq> [] then Inr (1, CoverageFailed errors) else Inr (0, CoverageOk metrics))))"

section \<open>When the check succeeds\<close>

text \<open>An exception that excuses a lane: approved, with an approver and a reason.\<close>

definition dict_entry :: "dict \<Rightarrow> string \<Rightarrow> json" where
  "dict_entry d k = (case dict_get d k of Some v \<Rightarrow> v | None \<Rightarrow> JNull)"

definition excuses :: "pystr \<Rightarrow> json \<Rightarrow> bool" where
  "excuses lane_name ex \<longleftrightarrow>
    (\<exists>e. ex = JObj e \<and> dict_get e ''lane'' = Some (JStr lane_name) \<and>
       dict_get e ''status'' = Some (JStr (lit ''approved'')) \<and> truthy (dict_entry e ''approver'') \<and> truthy (dict_entry e ''reason''))"

definition in_force :: "nat \<Rightarrow> json \<Rightarrow> bool" where
  "in_force today ex \<longleftrightarrow> (\<exists>n. expires_of ex = Inr n \<and> today \<le> n)"

text \<open>A lane with a metric has a minimum, and the metric reaches it or an exception excuses the lane.\<close>

definition lane_passes :: "json list \<Rightarrow> (pystr \<times> pyfloat) list \<Rightarrow> pystr \<Rightarrow> json \<Rightarrow> bool" where
  "lane_passes exs metrics lane_name lane \<longleftrightarrow>
    (case map_of (rev metrics) lane_name of
       None \<Rightarrow> True
     | Some actual \<Rightarrow>
         (\<exists>minimum. minimum_of lane = Inr minimum \<and> (float_less actual minimum \<longrightarrow> list_ex (excuses lane_name) exs)))"

definition items_of :: "dict \<Rightarrow> string \<Rightarrow> json list result" where
  "items_of d k = iterate (case dict_get d k of Some v \<Rightarrow> v | None \<Rightarrow> JList [])"

definition coverage_ok :: "json \<Rightarrow> (pystr \<times> pyfloat) list \<Rightarrow> bool \<Rightarrow> nat \<Rightarrow> bool" where
  "coverage_ok policy metrics metadata_only today \<longleftrightarrow>
    (\<exists>d ls lanes exs. policy = JObj d \<and>
       py_eq (dict_entry d ''version'') (JInt 1) \<and> truthy (dict_entry d ''policy_name'') \<and>
       items_of d ''lanes'' = Inr ls \<and> ls \<noteq> [] \<and> read_lanes ls = Inr lanes \<and>
       items_of d ''exceptions'' = Inr exs \<and> list_all (in_force today) exs \<and>
       (\<not> metadata_only \<longrightarrow> metrics \<noteq> [] \<and> list_all (\<lambda>(n, l). lane_passes exs metrics n l) (named_lanes lanes)))"

lemma py_eq_JStr: "py_eq v (JStr s) \<longleftrightarrow> v = JStr s"
  by (cases v) (auto simp: same_scalar_def split: option.splits pyfloat.splits)

lemma get_value_of_entry: "get_value_of v k = Inr x \<longleftrightarrow> (\<exists>d. v = JObj d \<and> dict_entry d k = x)"
  by (auto simp: get_value_of_def dot_get_def dict_entry_def split: json.splits)

lemma expires_dict: "expires_of ex = Inr n \<Longrightarrow> \<exists>e. ex = JObj e"
  by (cases ex) (simp_all add: expires_of_def get_default_def dot_get_def)

lemma entry_JStr: "dict_entry d k = JStr s \<longleftrightarrow> dict_get d k = Some (JStr s)"
  by (auto simp: dict_entry_def split: option.splits)

text \<open>While every exception is in force, the search finds one exactly if one excuses the lane.\<close>

lemma active_exception_in_force:
  "list_all (in_force today) exs \<Longrightarrow> \<exists>r. active_exception exs lane_name today = Inr r \<and> (r \<noteq> None \<longleftrightarrow> list_ex (excuses lane_name) exs)"
proof (induction exs)
  case (Cons ex exs)
  then obtain n where n: "expires_of ex = Inr n" "today \<le> n" by (auto simp: in_force_def)
  then obtain e where e: "ex = JObj e" using expires_dict by blast
  have get: "get_value_of ex k = Inr (dict_entry e k)" for k by (simp add: e get_value_of_entry)
  have ex: "excuses lane_name ex \<longleftrightarrow> py_eq (dict_entry e ''lane'') (JStr lane_name) \<and> py_eq (dict_entry e ''status'') (JStr (lit ''approved'')) \<and>
      truthy (dict_entry e ''approver'') \<and> truthy (dict_entry e ''reason'')"
    by (simp add: excuses_def e py_eq_JStr entry_JStr)
  obtain r where "active_exception exs lane_name today = Inr r" "r \<noteq> None \<longleftrightarrow> list_ex (excuses lane_name) exs"
    using Cons by auto
  then show ?case using n by (auto simp: get ex)
qed simp

lemma expiry_issues_none: "expiry_issues today exs = Inr [] \<longleftrightarrow> list_all (in_force today) exs"
proof (induction exs)
  case (Cons ex exs)
  then show ?case
    by (auto simp: bindR_eq_Inr in_force_def exception_id_def split: sum.splits py_exc.splits if_splits)
qed simp

lemma lane_issues_none:
  assumes "list_all (in_force today) exs"
  shows "lane_issues exs today metrics n l = Inr [] \<longleftrightarrow> lane_passes exs metrics n l"
proof -
  obtain r where "active_exception exs n today = Inr r" "r \<noteq> None \<longleftrightarrow> list_ex (excuses n) exs"
    using active_exception_in_force [OF assms] by blast
  then show ?thesis
    by (auto simp: lane_issues_def lane_passes_def bindR_eq_Inr split: option.splits if_splits)
qed

lemma threshold_issues_none:
  assumes "list_all (in_force today) exs"
  shows "threshold_issues exs today metrics ls = Inr [] \<longleftrightarrow> list_all (\<lambda>(n, l). lane_passes exs metrics n l) ls"
  by (induction ls) (auto simp: bindR_eq_Inr lane_issues_none [OF assms])

lemma read_lanes_empty: "read_lanes ls = Inr lanes \<Longrightarrow> lanes = [] \<longleftrightarrow> ls = []"
  by (cases ls) (auto simp: bindR_eq_Inr split: if_splits)

lemma coverage_issues_none:
  "coverage_issues policy metrics metadata_only today = Inr [] \<longleftrightarrow> coverage_ok policy metrics metadata_only today"
proof (cases policy)
  case (JObj d)
  have get: "get_value_of (JObj d) k = Inr (dict_entry d k)" for k by (simp add: get_value_of_entry)
  have lst: "bindR (get_default (JObj d) k (JList [])) (\<lambda>v. bindR (iterate v) f) = bindR (items_of d k) f"
    for k and f :: "json list \<Rightarrow> coverage_issue list result"
    by (simp add: get_default_def dot_get_def items_of_def split: option.split)
  note eqs = coverage_issues_def get bindR.simps lst coverage_ok_def JObj
  show ?thesis
  proof (cases "\<exists>ls lanes exs. items_of d ''lanes'' = Inr ls \<and> read_lanes ls = Inr lanes \<and> items_of d ''exceptions'' = Inr exs")
    case True
    then obtain ls lanes exs where r: "items_of d ''lanes'' = Inr ls" "read_lanes ls = Inr lanes" "items_of d ''exceptions'' = Inr exs"
      by blast
    show ?thesis
      unfolding eqs r
      using r expiry_issues_none [of today exs] threshold_issues_none [of today exs metrics "named_lanes lanes"] read_lanes_empty [OF r(2)]
      by (cases metadata_only) (auto simp: bindR_eq_Inr)
  next
    case False
    then show ?thesis unfolding eqs by (auto simp: bindR_eq_Inr)
  qed
qed (simp_all add: coverage_issues_def coverage_ok_def get_value_of_def dot_get_def)

text \<open>
  C30: the check succeeds exactly when every metric on the command line is a name and a number, and
  the policy is a JSON object of version 1 with a name, at least one lane, no exception without
  a valid date or past it, and, unless only the metadata are checked, at least one metric, each
  lane that has one reaching its minimum or being excused by an approved exception with an
  approver and a reason. A bad metric gives exit code 2 before any file is read; everything else
  that the check refuses gives 1 and the complaints.
\<close>

theorem coverage_accepted_iff:
  "case coverage_main fs p ms metadata_only today of
     Inr (code, report) \<Rightarrow>
       (code = 0 \<longleftrightarrow> (\<exists>metrics policy. those (map parse_metric ms) = Some metrics \<and> report = CoverageOk metrics \<and>
          load_json fs p = Inr policy \<and> coverage_ok policy metrics metadata_only today)) \<and>
       (code = 2 \<longleftrightarrow> list_ex (\<lambda>m. parse_metric m = None) ms) \<and>
       (code = 1 \<longleftrightarrow> (\<exists>issues. report = CoverageFailed issues \<and> issues \<noteq> []))
   | Inl e \<Rightarrow>
       (\<nexists>metrics policy. those (map parse_metric ms) = Some metrics \<and>
          load_json fs p = Inr policy \<and> coverage_ok policy metrics metadata_only today)"
proof -
  have those: "those (map parse_metric ms) = None \<longleftrightarrow> list_ex (\<lambda>m. parse_metric m = None) ms"
    by (induction ms) (auto split: option.splits)
  show ?thesis
    unfolding coverage_issues_none [symmetric] using those
    by (auto simp: coverage_main_def split: option.split sum.split bindR_splits)
qed

end
