(* ===== verification/Repo_Checks.thy ===== *)
theory Repo_Checks
  imports Py_Re
begin

text \<open>
  Three checks of the repository: \<open>validate_repo_hygiene.py\<close> (no build output under version control),
  \<open>validate_client_security_policy.py\<close> and \<open>validate_sdk_consistency.py\<close> (the policies of the
  release and the markers in the sources that implement them).
\<close>

section \<open>Tracked files\<close>

definition FORBIDDEN_PREFIXES :: "pystr list" where
  "FORBIDDEN_PREFIXES = [lit ''ditto-nodejs-client/node_modules/'', lit ''ditto-nodejs-client/dist/'',
    lit ''ditto-java-client/build/'', lit ''ditto-java-client/.gradle/'',
    lit ''ditto-python-client/src/ditto_client.egg-info/'', lit ''ditto-rust-client/target/'']"

definition FORBIDDEN_PARTS :: "pystr list" where
  "FORBIDDEN_PARTS = [lit ''/__pycache__/'']"

definition FORBIDDEN_SUFFIXES :: "pystr list" where
  "FORBIDDEN_SUFFIXES = [lit ''.pyc'', lit ''.pyo'']"

text \<open>\<open>str.splitlines\<close>: the line boundaries of Unicode; a carriage return takes a line feed with it.\<close>

definition line_end :: "nat \<Rightarrow> bool" where
  "line_end c \<longleftrightarrow> 10 \<le> c \<and> c \<le> 13 \<or> 28 \<le> c \<and> c \<le> 30 \<or> c = 0x85 \<or> c = 0x2028 \<or> c = 0x2029"

fun splitlines :: "pystr \<Rightarrow> pystr list" where
  "splitlines [] = []"
| "splitlines (c # cs) =
    (if c = 13 \<and> take 1 cs = [10] then [] # splitlines (drop 1 cs)
     else if line_end c then [] # splitlines cs
     else (case splitlines cs of [] \<Rightarrow> [[c]] | l # ls \<Rightarrow> (c # l) # ls))"

text \<open>The argument is what \<open>git ls-files\<close> prints.\<close>

definition git_ls_files :: "pystr \<Rightarrow> pystr list" where
  "git_ls_files output =
    map (\<lambda>l. map (\<lambda>c. if c = 92 then 47 else c) (py_strip l)) (filter (\<lambda>l. py_strip l \<noteq> []) (splitlines output))"

definition is_forbidden :: "pystr \<Rightarrow> bool" where
  "is_forbidden p \<longleftrightarrow>
    list_ex (starts_with p) FORBIDDEN_PREFIXES \<or> list_ex (\<lambda>part. py_in part p) FORBIDDEN_PARTS
    \<or> list_ex (ends_with p) FORBIDDEN_SUFFIXES"

definition hygiene_main :: "pystr \<Rightarrow> int \<times> pystr list" where
  "hygiene_main output =
    (let bad = filter is_forbidden (git_ls_files output) in if bad \<noteq> [] then (1, bad) else (0, []))"


section \<open>Policies\<close>

datatype policy_message =
    StrictModeNotRecommended
  | TlsVerificationNotRequired
  | PlaintextPolicy
  | InsecureTls pystr pystr "json option"
  | MissingMarker pystr pystr
  | MissingPattern pystr
  | ForbiddenMarker pystr pystr
  | StrictDefault
  | StrictNotRecommended
  | ReconnectDefault
  | MutatingRetries

definition require_contains :: "files \<Rightarrow> pystr \<Rightarrow> pystr \<Rightarrow> (policy_message, unit) script" where
  "require_contains fs p needle =
    bindR (lift (read_text fs p)) (\<lambda>t. guard (py_in needle t) (MissingMarker p needle))"

definition require_not_contains :: "files \<Rightarrow> pystr \<Rightarrow> pystr \<Rightarrow> (policy_message, unit) script" where
  "require_not_contains fs p needle =
    bindR (lift (read_text fs p)) (\<lambda>t. guard (\<not> py_in needle t) (ForbiddenMarker p needle))"

definition require_regex :: "files \<Rightarrow> pystr \<Rightarrow> re \<Rightarrow> (policy_message, unit) script" where
  "require_regex fs p r =
    bindR (lift (read_text fs p)) (\<lambda>t. guard (re_search r t \<noteq> None) (MissingPattern p))"

definition REQUIRED_INSECURE_TLS_POLICY :: "(string \<times> pystr) list" where
  "REQUIRED_INSECURE_TLS_POLICY = [(''nodejs'', lit ''rejected''), (''java'', lit ''rejected''),
    (''go'', lit ''env-gated-dev-only''), (''python'', lit ''env-gated-dev-only''), (''rust'', lit ''env-gated-dev-only'')]"

definition require_value :: "json \<Rightarrow> string \<Rightarrow> json \<Rightarrow> policy_message \<Rightarrow> (policy_message, unit) script" where
  "require_value d k v m = bindR (lift (dot_get d k)) (\<lambda>x. guard (x = Some v) m)"

definition require_tls :: "json \<Rightarrow> string \<times> pystr \<Rightarrow> (policy_message, unit) script" where
  "require_tls insecure_tls = (\<lambda>(sdk, expected).
    bindR (lift (dot_get insecure_tls sdk)) (\<lambda>actual.
      guard (actual = Some (JStr expected)) (InsecureTls (lit sdk) expected actual)))"

definition SECURITY_MARKERS :: "(pystr \<times> pystr) list" where
  "SECURITY_MARKERS = [
    (lit ''ditto-nodejs-client/src/http-client-base.ts'', lit ''devInsecureTls(true) is insecure and is no longer supported''),
    (lit ''ditto-java-client/src/main/java/io/ditto/client/DittoHttpClientBase.java'',
      lit ''devInsecureTls(true) is insecure and is no longer supported''),
    (lit ''ditto-go-client/http_client.go'', lit ''DITTO_CLIENT_ALLOW_INSECURE_TLS_DEV''),
    (lit ''ditto-python-client/src/ditto_client/http_client_base.py'', lit ''DITTO_CLIENT_ALLOW_INSECURE_TLS_DEV''),
    (lit ''ditto-rust-client/src/http_client.rs'', lit ''DITTO_CLIENT_ALLOW_INSECURE_TLS_DEV''),
    (lit ''README.md'', lit ''Production clients should use HTTPS with certificate verification enabled''),
    (lit ''README.md'', lit ''Raw TCP does not encrypt tokens or cache payloads'')]"

definition security_policy_main :: "files \<Rightarrow> (policy_message, unit) script" where
  "security_policy_main fs =
    bindR (lift (load_json fs (lit ''release-manifest.json''))) (\<lambda>manifest.
    bindR (lift (get_or_empty manifest ''security_policy'')) (\<lambda>policy.
    bindR (lift (get_or_empty policy ''production'')) (\<lambda>production.
    bindR (lift (get_or_empty policy ''insecure_tls'')) (\<lambda>insecure_tls.
      all_checks (
        [require_value production ''strict_mode_recommended'' (JBool True) StrictModeNotRecommended,
         require_value production ''http_tls_verification_required'' (JBool True) TlsVerificationNotRequired,
         require_value production ''tcp_plaintext_remote_policy''
           (JStr (lit ''loopback-private-or-encrypted-underlay-only'')) PlaintextPolicy]
        @ map (require_tls insecure_tls) REQUIRED_INSECURE_TLS_POLICY
        @ map (\<lambda>(p, needle). require_contains fs p needle) SECURITY_MARKERS)))))"

definition STRICT_MARKERS :: "(pystr \<times> pystr) list" where
  "STRICT_MARKERS = [
    (lit ''ditto-nodejs-client/src/http-client-base.ts'', lit ''opts.strictMode ?? false''),
    (lit ''ditto-go-client/http_client.go'', lit ''strictMode: opts.StrictMode''),
    (lit ''ditto-python-client/src/ditto_client/http_client_base.py'', lit ''strict_mode: bool = False''),
    (lit ''ditto-java-client/src/main/java/io/ditto/client/DittoHttpClientBase.java'', lit ''boolean strictMode = false''),
    (lit ''ditto-rust-client/src/http_client.rs'', lit ''strict_mode: false'')]"

definition RECONNECT_MARKERS :: "(pystr \<times> pystr) list" where
  "RECONNECT_MARKERS = [
    (lit ''ditto-python-client/src/ditto_client/tcp_client.py'', lit ''auto_reconnect: bool = False''),
    (lit ''ditto-java-client/src/main/java/io/ditto/client/DittoTcpClient.java'',
      lit ''this(host, port, authToken, strictMode, false)''),
    (lit ''ditto-rust-client/src/tcp_client.rs'', lit ''auto_reconnect: false'')]"

definition node_reconnect_re :: re where
  "node_reconnect_re = seq_re [lit_re ''opts.autoReconnect'', Star True space_re, lit_re ''??'', Star True space_re, lit_re ''false'']"

definition go_reconnect_re :: re where
  "go_reconnect_re = seq_re [lit_re ''autoReconnect:'', Star True space_re, lit_re ''opts.AutoReconnect'']"

definition GATED_SOURCES :: "pystr list" where
  "GATED_SOURCES = [lit ''ditto-go-client/http_client.go'',
    lit ''ditto-python-client/src/ditto_client/http_client_base.py'', lit ''ditto-rust-client/src/http_client.rs'']"

text \<open>\<open>policy[a][b]\<close>, and a test of it by identity.\<close>

definition path2 :: "json \<Rightarrow> string \<Rightarrow> string \<Rightarrow> json result" where
  "path2 v a b = bindR (subscript v a) (\<lambda>x. subscript x b)"

definition require_flag :: "json \<Rightarrow> string \<Rightarrow> string \<Rightarrow> bool \<Rightarrow> policy_message \<Rightarrow> (policy_message, unit) script" where
  "require_flag policy a b v m = bindR (lift (path2 policy a b)) (\<lambda>x. guard (x = JBool v) m)"

text \<open>The name of the gate must be a string for \<open>in\<close>; the file is read first.\<close>

definition require_gate :: "files \<Rightarrow> json \<Rightarrow> pystr \<Rightarrow> (policy_message, unit) script" where
  "require_gate fs gate p =
    (case gate of
       JStr g \<Rightarrow> require_contains fs p g
     | _ \<Rightarrow> bindR (lift (read_text fs p)) (\<lambda>t. Inl (Raise TypeError)))"

definition NODE_BASE :: pystr where
  "NODE_BASE = lit ''ditto-nodejs-client/src/http-client-base.ts''"

definition consistency_main :: "files \<Rightarrow> (policy_message, unit) script" where
  "consistency_main fs =
    bindR (lift (load_json fs (lit ''release/sdk-consistency-policy.json''))) (\<lambda>policy.
    bindR (lift (path2 policy ''insecure_tls'' ''dev_env_gate'')) (\<lambda>gate.
      all_checks (
        [require_flag policy ''strict_validation'' ''current_default'' False StrictDefault,
         require_flag policy ''strict_validation'' ''production_recommended'' True StrictNotRecommended,
         require_flag policy ''tcp_reconnect'' ''default_enabled'' False ReconnectDefault,
         require_flag policy ''http_retry'' ''mutating_retries_default'' False MutatingRetries]
        @ map (\<lambda>(p, marker). require_contains fs p marker) STRICT_MARKERS
        @ map (\<lambda>(p, marker). require_contains fs p marker) RECONNECT_MARKERS
        @ [require_regex fs (lit ''ditto-nodejs-client/src/tcp-client.ts'') node_reconnect_re,
           require_regex fs (lit ''ditto-go-client/tcp_client.go'') go_reconnect_re]
        @ map (require_gate fs gate) GATED_SOURCES
        @ [require_contains fs NODE_BASE (lit ''retryMethods ?? ['' @ [39] @ lit ''GET'' @ [39] @ lit '', '' @ [39] @ lit ''DELETE'' @ [39] @ lit '']''),
           require_not_contains fs NODE_BASE (lit ''retryMethods ?? ['' @ [39] @ lit ''GET'' @ [39] @ lit '', '' @ [39] @ lit ''PUT'' @ [39]),
           require_not_contains fs NODE_BASE (lit ''retryMethods ?? ['' @ [39] @ lit ''GET'' @ [39] @ lit '', '' @ [39] @ lit ''POST'' @ [39])])))"


section \<open>What a pass means\<close>

lemma require_contains_iff: "require_contains fs p m = Inr () \<longleftrightarrow> (\<exists>t. read_text fs p = Inr t \<and> sublist m t)"
  by (auto simp: require_contains_def bindR_eq_Inr lift_Inr guard_Inr py_in_sublist)

lemma require_regex_iff: "require_regex fs p r = Inr () \<longleftrightarrow> (\<exists>t. read_text fs p = Inr t \<and> re_search r t \<noteq> None)"
  by (auto simp: require_regex_def bindR_eq_Inr lift_Inr guard_Inr)

lemma require_flag_iff: "require_flag v a b f m = Inr () \<longleftrightarrow> path2 v a b = Inr (JBool f)"
  by (auto simp: require_flag_def bindR_eq_Inr lift_Inr guard_Inr)

lemma require_value_iff: "require_value d k v m = Inr () \<longleftrightarrow> dot_get d k = Inr (Some v)"
  by (auto simp: require_value_def bindR_eq_Inr lift_Inr guard_Inr)

lemma require_tls_iff: "require_tls d x = Inr () \<longleftrightarrow> dot_get d (fst x) = Inr (Some (JStr (snd x)))"
  by (auto simp: require_tls_def bindR_eq_Inr lift_Inr guard_Inr split: prod.split)

lemma require_gate_iff: "require_gate fs gate p = Inr () \<longleftrightarrow> (\<exists>g. gate = JStr g \<and> require_contains fs p g = Inr ())"
  by (auto simp: require_gate_def bindR_eq_Inr split: json.split)

text \<open>
  The security check passes exactly when the manifest recommends strict mode, requires
  verified TLS and restricts plain TCP, gives every client the required policy for insecure TLS,
  and each marker is a part of the source or document it is required in.
\<close>

theorem security_policy_iff:
  "security_policy_main fs = Inr () \<longleftrightarrow>
    (\<exists>manifest policy production insecure_tls.
       load_json fs (lit ''release-manifest.json'') = Inr manifest \<and>
       get_or_empty manifest ''security_policy'' = Inr policy \<and>
       get_or_empty policy ''production'' = Inr production \<and> get_or_empty policy ''insecure_tls'' = Inr insecure_tls \<and>
       dot_get production ''strict_mode_recommended'' = Inr (Some (JBool True)) \<and>
       dot_get production ''http_tls_verification_required'' = Inr (Some (JBool True)) \<and>
       dot_get production ''tcp_plaintext_remote_policy'' = Inr (Some (JStr (lit ''loopback-private-or-encrypted-underlay-only''))) \<and>
       list_all (\<lambda>(sdk, v). dot_get insecure_tls sdk = Inr (Some (JStr v))) REQUIRED_INSECURE_TLS_POLICY \<and>
       list_all (\<lambda>(p, m). \<exists>t. read_text fs p = Inr t \<and> sublist m t) SECURITY_MARKERS)"
  unfolding security_policy_main_def bindR_eq_Inr lift_Inr all_checks_iff
  by (simp add: require_value_iff require_tls_iff require_contains_iff list.pred_map comp_def case_prod_unfold)

text \<open>The consistency check passes exactly when the four defaults, the markers and the patterns hold.\<close>

theorem consistency_iff:
  "consistency_main fs = Inr () \<longleftrightarrow>
    (\<exists>policy gate.
       load_json fs (lit ''release/sdk-consistency-policy.json'') = Inr policy \<and>
       path2 policy ''insecure_tls'' ''dev_env_gate'' = Inr (JStr gate) \<and>
       path2 policy ''strict_validation'' ''current_default'' = Inr (JBool False) \<and>
       path2 policy ''strict_validation'' ''production_recommended'' = Inr (JBool True) \<and>
       path2 policy ''tcp_reconnect'' ''default_enabled'' = Inr (JBool False) \<and>
       path2 policy ''http_retry'' ''mutating_retries_default'' = Inr (JBool False) \<and>
       list_all (\<lambda>(p, m). \<exists>t. read_text fs p = Inr t \<and> sublist m t) (STRICT_MARKERS @ RECONNECT_MARKERS) \<and>
       (\<exists>t. read_text fs (lit ''ditto-nodejs-client/src/tcp-client.ts'') = Inr t \<and> re_search node_reconnect_re t \<noteq> None) \<and>
       (\<exists>t. read_text fs (lit ''ditto-go-client/tcp_client.go'') = Inr t \<and> re_search go_reconnect_re t \<noteq> None) \<and>
       list_all (\<lambda>p. \<exists>t. read_text fs p = Inr t \<and> sublist gate t) GATED_SOURCES \<and>
       (\<exists>t. read_text fs NODE_BASE = Inr t \<and>
          sublist (lit ''retryMethods ?? ['' @ [39] @ lit ''GET'' @ [39] @ lit '', '' @ [39] @ lit ''DELETE'' @ [39] @ lit '']'') t \<and>
          \<not> sublist (lit ''retryMethods ?? ['' @ [39] @ lit ''GET'' @ [39] @ lit '', '' @ [39] @ lit ''PUT'' @ [39]) t \<and>
          \<not> sublist (lit ''retryMethods ?? ['' @ [39] @ lit ''GET'' @ [39] @ lit '', '' @ [39] @ lit ''POST'' @ [39]) t))"
proof -
  have gates: "list_all (\<lambda>p. require_gate fs gate p = Inr ()) GATED_SOURCES \<longleftrightarrow>
      (\<exists>g. gate = JStr g \<and> list_all (\<lambda>p. \<exists>t. read_text fs p = Inr t \<and> sublist g t) GATED_SOURCES)" for gate
    by (auto simp: require_gate_iff require_contains_iff GATED_SOURCES_def)
  have notin: "require_not_contains fs p m = Inr () \<longleftrightarrow> (\<exists>t. read_text fs p = Inr t \<and> \<not> sublist m t)" for p m
    by (auto simp: require_not_contains_def bindR_eq_Inr lift_Inr guard_Inr py_in_sublist)
  show ?thesis
    unfolding consistency_main_def bindR_eq_Inr lift_Inr all_checks_iff
    by (auto simp: require_flag_iff require_contains_iff require_regex_iff gates notin list.pred_map comp_def case_prod_unfold)
qed

text \<open>
  The hygiene check returns 0 exactly when no tracked path lies in a build directory, in a
  \<open>__pycache__\<close> directory or ends like compiled Python; otherwise it lists exactly those that do.
\<close>

theorem hygiene_iff:
  "hygiene_main output =
    (let bad = filter (\<lambda>p. list_ex (\<lambda>d. prefix d p) FORBIDDEN_PREFIXES \<or> sublist (lit ''/__pycache__/'') p \<or>
        suffix (lit ''.pyc'') p \<or> suffix (lit ''.pyo'') p) (git_ls_files output)
     in (if bad = [] then 0 else 1, bad))"
proof -
  have "is_forbidden = (\<lambda>p. list_ex (\<lambda>d. prefix d p) FORBIDDEN_PREFIXES \<or> sublist (lit ''/__pycache__/'') p \<or>
        suffix (lit ''.pyc'') p \<or> suffix (lit ''.pyo'') p)"
    by (rule ext) (simp add: is_forbidden_def FORBIDDEN_PREFIXES_def FORBIDDEN_PARTS_def FORBIDDEN_SUFFIXES_def starts_with_prefix
        ends_with_suffix py_in_sublist)
  then show ?thesis by (simp add: hygiene_main_def Let_def)
qed

end
