(* ===== verification/Sha256.thy ===== *)
theory Sha256
  imports Script_Base
begin

text \<open>
  SHA-256 of \<open>hashlib\<close> (FIPS 180-4): padding, the message schedule, the 64 rounds of the
  compression function, and the digest in hexadecimal.
\<close>

section \<open>Words\<close>

unbundle bit_operations_syntax

type_synonym word32 = "32 word"

definition rotr :: "nat \<Rightarrow> word32 \<Rightarrow> word32" where
  "rotr n x = word_rotr n x"

definition ch :: "word32 \<Rightarrow> word32 \<Rightarrow> word32 \<Rightarrow> word32" where
  "ch x y z = (x AND y) XOR (NOT x AND z)"

definition maj :: "word32 \<Rightarrow> word32 \<Rightarrow> word32 \<Rightarrow> word32" where
  "maj x y z = (x AND y) XOR (x AND z) XOR (y AND z)"

definition big0 :: "word32 \<Rightarrow> word32" where
  "big0 x = rotr 2 x XOR rotr 13 x XOR rotr 22 x"

definition big1 :: "word32 \<Rightarrow> word32" where
  "big1 x = rotr 6 x XOR rotr 11 x XOR rotr 25 x"

definition small0 :: "word32 \<Rightarrow> word32" where
  "small0 x = rotr 7 x XOR rotr 18 x XOR drop_bit 3 x"

definition small1 :: "word32 \<Rightarrow> word32" where
  "small1 x = rotr 17 x XOR rotr 19 x XOR drop_bit 10 x"

definition round_constants :: "word32 list" where
  "round_constants = [
    0x428A2F98, 0x71374491, 0xB5C0FBCF, 0xE9B5DBA5, 0x3956C25B, 0x59F111F1, 0x923F82A4, 0xAB1C5ED5,
    0xD807AA98, 0x12835B01, 0x243185BE, 0x550C7DC3, 0x72BE5D74, 0x80DEB1FE, 0x9BDC06A7, 0xC19BF174,
    0xE49B69C1, 0xEFBE4786, 0x0FC19DC6, 0x240CA1CC, 0x2DE92C6F, 0x4A7484AA, 0x5CB0A9DC, 0x76F988DA,
    0x983E5152, 0xA831C66D, 0xB00327C8, 0xBF597FC7, 0xC6E00BF3, 0xD5A79147, 0x06CA6351, 0x14292967,
    0x27B70A85, 0x2E1B2138, 0x4D2C6DFC, 0x53380D13, 0x650A7354, 0x766A0ABB, 0x81C2C92E, 0x92722C85,
    0xA2BFE8A1, 0xA81A664B, 0xC24B8B70, 0xC76C51A3, 0xD192E819, 0xD6990624, 0xF40E3585, 0x106AA070,
    0x19A4C116, 0x1E376C08, 0x2748774C, 0x34B0BCB5, 0x391C0CB3, 0x4ED8AA4A, 0x5B9CCA4F, 0x682E6FF3,
    0x748F82EE, 0x78A5636F, 0x84C87814, 0x8CC70208, 0x90BEFFFA, 0xA4506CEB, 0xBEF9A3F7, 0xC67178F2]"

definition initial_hash :: "word32 list" where
  "initial_hash = [
    0x6A09E667, 0xBB67AE85, 0x3C6EF372, 0xA54FF53A, 0x510E527F, 0x9B05688C, 0x1F83D9AB, 0x5BE0CD19]"


section \<open>Blocks\<close>

definition be_bytes :: "nat \<Rightarrow> nat \<Rightarrow> bytes" where
  "be_bytes k n = map (\<lambda>i. of_nat (n div 256 ^ (k - 1 - i))) [0..<k]"

definition pad :: "bytes \<Rightarrow> bytes" where
  "pad m = m @ 0x80 # replicate ((119 - length m mod 64) mod 64) 0 @ be_bytes 8 (8 * length m)"

fun words_of :: "bytes \<Rightarrow> word32 list" where
  "words_of (a # b # c # d # bs) =
    (push_bit 24 (ucast a) OR push_bit 16 (ucast b) OR push_bit 8 (ucast c) OR ucast d) # words_of bs"
| "words_of _ = []"

text \<open>The schedule is extended from 16 to 64 words; the last word comes first.\<close>

fun extend :: "nat \<Rightarrow> word32 list \<Rightarrow> word32 list" where
  "extend 0 ws = ws"
| "extend (Suc n) ws =
    extend n ((small1 (ws ! 1) + ws ! 6 + small0 (ws ! 14) + ws ! 15) # ws)"

definition schedule :: "word32 list \<Rightarrow> word32 list" where
  "schedule ws = rev (extend 48 (rev ws))"

definition round_step :: "word32 list \<Rightarrow> word32 \<times> word32 \<Rightarrow> word32 list" where
  "round_step hs kw =
    (case (hs, kw) of
       ([a, b, c, d, e, f, g, h], k, w) \<Rightarrow>
         let t1 = h + big1 e + ch e f g + k + w; t2 = big0 a + maj a b c in
         [t1 + t2, a, b, c, d + t1, e, f, g]
     | _ \<Rightarrow> hs)"

definition rounds :: "(word32 \<times> word32) list \<Rightarrow> word32 list \<Rightarrow> word32 list" where
  "rounds kws hs = foldl round_step hs kws"

definition compress :: "word32 list \<Rightarrow> bytes \<Rightarrow> word32 list" where
  "compress hs block = map2 (+) hs (rounds (zip round_constants (schedule (words_of block))) hs)"

function blocks :: "bytes \<Rightarrow> bytes list" where
  "blocks bs = (if bs = [] then [] else take 64 bs # blocks (drop 64 bs))"
  by pat_completeness auto
termination by (relation "measure length") auto

declare blocks.simps [simp del]

definition sha256 :: "bytes \<Rightarrow> word32 list" where
  "sha256 m = foldl compress initial_hash (blocks (pad m))"

definition hex_word :: "word32 \<Rightarrow> pystr" where
  "hex_word w = map (\<lambda>i. hex_digit (unat w div 16 ^ (7 - i) mod 16)) [0..<8]"

definition hexdigest :: "bytes \<Rightarrow> pystr" where
  "hexdigest m = concat (map hex_word (sha256 m))"


section \<open>Shape\<close>

lemma length_rounds: "length (rounds kws hs) = length hs"
proof -
  have "length (round_step hs kw) = length hs" for hs kw
    by (simp add: round_step_def Let_def split: prod.split list.split)
  then show ?thesis unfolding rounds_def by (induction kws arbitrary: hs) simp_all
qed

lemma length_compress: "length (compress hs b) = length hs"
  by (simp add: compress_def length_rounds)

lemma length_sha256: "length (sha256 m) = 8"
proof -
  have "length (foldl compress hs bs) = length hs" for hs bs
    by (induction bs arbitrary: hs) (simp_all add: length_compress)
  then show ?thesis by (simp add: sha256_def initial_hash_def)
qed

lemma length_hexdigest: "length (hexdigest m) = 64"
proof -
  have "length (concat (map hex_word ws)) = 8 * length ws" for ws
    by (induction ws) (simp_all add: hex_word_def)
  then show ?thesis by (simp add: hexdigest_def length_sha256)
qed

lemma pad_blocks: "length (pad m) mod 64 = 0"
proof -
  let ?r = "length m mod 64"
  have r: "?r < 64" by simp
  have fill: "(119 - ?r) mod 64 = (if ?r \<le> 55 then 55 - ?r else 119 - ?r)"
  proof (cases "?r \<le> 55")
    case True
    then have "119 - ?r = 64 + (55 - ?r)" by simp
    moreover have "(64 + (55 - ?r)) mod 64 = (55 - ?r) mod 64" by (rule mod_add_self1)
    ultimately show ?thesis using True by simp
  next
    case False
    then show ?thesis using r by simp
  qed
  have "?r + (9 + (119 - ?r) mod 64) = 64 \<or> ?r + (9 + (119 - ?r) mod 64) = 128"
    using r fill by auto
  then have "(?r + (9 + (119 - ?r) mod 64)) mod 64 = 0"
    by (elim disjE; simp only:) simp_all
  then have "(length m + (9 + (119 - ?r) mod 64)) mod 64 = 0"
    by (simp only: mod_add_left_eq)
  moreover have "length (pad m) = length m + (9 + (119 - ?r) mod 64)"
    by (simp add: pad_def be_bytes_def)
  ultimately show ?thesis by (simp only:)
qed

end
