(* ===== verification/Release_Manifest.thy ===== *)
theory Release_Manifest
  imports Repo_Checks Sha256
begin

text \<open>
  \<open>scripts/validate_release_manifest.py\<close>: the manifest of a release against the package files of
  the five clients, the hash of the protocol snapshot and the tool chains of the workflows. Paths of
  the manifest are looked up as they are written there.
\<close>

section \<open>Patterns\<close>

definition digits_re :: re where
  "digits_re = plus_re (Chr is_digit)"

definition semver_core :: re where
  "semver_core = seq_re [digits_re, char_re (CHR ''.''), digits_re, char_re (CHR ''.''), digits_re,
    opt_re (Seq (Chr (\<lambda>c. c = 46 \<or> c = 45)) (plus_re (Chr (\<lambda>c. is_digit c \<or> upper c \<or> lower c \<or> c = 46 \<or> c = 45))))]"

definition SEMVER_RE :: re where
  "SEMVER_RE = seq_re [TextStart, semver_core, TextEnd]"

definition GO_TAG_RE :: re where
  "GO_TAG_RE = seq_re [TextStart, lit_re ''ditto-go-client/v'', Group semver_core, TextEnd]"

text \<open>A line \<open>key = "value"\<close> and a line \<open>key value\<close>.\<close>

definition quoted_re :: re where
  "quoted_re = seq_re [char_re (CHR 0x22), Group (plus_re (Chr (\<lambda>c. c \<noteq> 34))), char_re (CHR 0x22)]"

definition assign_line_re :: "string \<Rightarrow> re" where
  "assign_line_re key = seq_re [LineStart, lit_re key, Star True space_re, char_re (CHR ''=''), Star True space_re, quoted_re]"

definition word_line_re :: "string \<Rightarrow> re" where
  "word_line_re key = seq_re [LineStart, lit_re key, plus_re space_re, Group (plus_re nonspace_re)]"

definition go_runtime_re :: re where
  "go_runtime_re = seq_re [lit_re ''go'', plus_re space_re, Group (plus_re nonspace_re)]"

definition go_version_re :: re where
  "go_version_re = seq_re [lit_re ''go-version:'', Star True space_re, quoted_re]"


section \<open>Values of the manifest\<close>

text \<open>A path of the manifest must be a string to be joined to the root.\<close>

definition path_of :: "json \<Rightarrow> pystr result" where
  "path_of v = (case v of JStr p \<Rightarrow> Inr p | _ \<Rightarrow> Inl TypeError)"

text \<open>\<open>set(v)\<close>, as far as strings are in it; lists and dictionaries cannot be elements.\<close>

definition name_set :: "json \<Rightarrow> pystr list result" where
  "name_set v =
    (case v of
       JObj d \<Rightarrow> Inr (map fst d)
     | JStr s \<Rightarrow> Inr (map (\<lambda>c. [c]) s)
     | JList xs \<Rightarrow> if \<not> list_all hashable xs then Inl TypeError else Inr (concat (map (\<lambda>x. case x of JStr s \<Rightarrow> [s] | _ \<Rightarrow> []) xs))
     | _ \<Rightarrow> Inl TypeError)"


section \<open>Hashing a file\<close>

text \<open>The file is read in chunks of a mebibyte until a read returns nothing.\<close>

definition CHUNK :: nat where
  "CHUNK = 1024 * 1024"

function chunks :: "bytes \<Rightarrow> bytes list" where
  "chunks bs = (if take CHUNK bs = [] then [] else take CHUNK bs # chunks (drop CHUNK bs))"
  by pat_completeness auto
termination by (relation "measure length") (auto simp: CHUNK_def)

declare chunks.simps [simp del]

definition sha256_file :: "files \<Rightarrow> pystr \<Rightarrow> pystr result" where
  "sha256_file fs p = bindR (read_bytes fs p) (\<lambda>b. Inr (hexdigest (foldl (@) [] (chunks b))))"

lemma chunks_all: "foldl (@) acc (chunks bs) = acc @ bs"
proof (induction bs arbitrary: acc rule: chunks.induct)
  case (1 bs)
  show ?case
  proof (cases "take CHUNK bs = []")
    case True
    then have "bs = []" by (auto simp: CHUNK_def)
    then show ?thesis by (simp add: chunks.simps)
  next
    case False
    then show ?thesis using "1.IH" by (simp add: chunks.simps [of bs])
  qed
qed

lemma sha256_file_eq: "sha256_file fs p = bindR (read_bytes fs p) (\<lambda>b. Inr (hexdigest b))"
  by (simp add: sha256_file_def chunks_all)

section \<open>The checks\<close>

datatype manifest_message =
    NotSemver pystr
  | TagMismatch pystr json
  | UnexpectedVersion pystr pystr
  | SnapshotFields
  | HashMismatch pystr pystr pystr
  | MissingSdks "pystr list"
  | PackageName string pystr
  | PackageVersion string pystr json
  | CannotParse string pystr
  | GoModule pystr json
  | GoTagForm
  | GoTagVersion pystr pystr
  | EntryVersion pystr json
  | GoRuntime pystr
  | NoGoVersion pystr
  | GoVersionMismatch pystr "pystr list"

type_synonym 'a check = "(manifest_message, 'a) script"

definition parse_regex :: "files \<Rightarrow> pystr \<Rightarrow> re \<Rightarrow> string \<Rightarrow> pystr check" where
  "parse_regex fs p r label =
    bindR (lift (read_text fs p)) (\<lambda>t.
      case re_search r t of None \<Rightarrow> Inl (Fail (CannotParse label p)) | Some m \<Rightarrow> Inr (group1 m))"

definition validate_release_version :: "(json \<Rightarrow> pystr) \<Rightarrow> json \<Rightarrow> pystr option \<Rightarrow> pystr check" where
  "validate_release_version render manifest expected =
    bindR (lift (get_default manifest ''release_version'' (JStr []))) (\<lambda>v.
    let release_version = py_strip (py_str render v) in
    bindR (guard (re_match SEMVER_RE release_version \<noteq> None) (NotSemver release_version)) (\<lambda>_.
    bindR (lift (get_value_of manifest ''tag'')) (\<lambda>tag.
    bindR (guard (tag = JStr (lit ''client-v'' @ release_version)) (TagMismatch (lit ''client-v'' @ release_version) tag)) (\<lambda>_.
    bindR (case expected of
             Some x \<Rightarrow> guard (x = [] \<or> release_version = x) (UnexpectedVersion release_version x)
           | None \<Rightarrow> Inr ()) (\<lambda>_.
      Inr release_version)))))"

definition validate_protocol_snapshot :: "(json \<Rightarrow> pystr) \<Rightarrow> files \<Rightarrow> json \<Rightarrow> unit check" where
  "validate_protocol_snapshot render fs manifest =
    bindR (lift (get_or_empty manifest ''protocol_snapshot'')) (\<lambda>proto.
    bindR (lift (get_value_of proto ''path'')) (\<lambda>rel_path.
    bindR (lift (get_default proto ''sha256'' (JStr []))) (\<lambda>h.
    let expected_hash = py_lower (py_str render h) in
    bindR (guard (truthy rel_path \<and> expected_hash \<noteq> []) SnapshotFields) (\<lambda>_.
    bindR (lift (path_of rel_path)) (\<lambda>p.
    bindR (lift (sha256_file fs p)) (\<lambda>actual_hash.
      guard (actual_hash = expected_hash) (HashMismatch p expected_hash actual_hash)))))))"

definition SDKS :: "pystr list" where
  "SDKS = [lit ''nodejs'', lit ''python'', lit ''java'', lit ''go'', lit ''rust'']"

definition package_file :: "json \<Rightarrow> string \<Rightarrow> pystr result" where
  "package_file sdks k = bindR (subscript sdks k) (\<lambda>entry. bindR (subscript entry ''package_file'') path_of)"

definition entry_value :: "json \<Rightarrow> string \<Rightarrow> string \<Rightarrow> json result" where
  "entry_value sdks k f = bindR (subscript sdks k) (\<lambda>entry. get_value_of entry f)"

definition validate_node :: "files \<Rightarrow> json \<Rightarrow> pystr \<Rightarrow> unit check" where
  "validate_node fs sdks release_version =
    bindR (lift (package_file sdks ''nodejs'')) (\<lambda>p.
    bindR (lift (load_json fs p)) (\<lambda>pkg.
    bindR (lift (get_value_of pkg ''name'')) (\<lambda>name.
    bindR (lift (entry_value sdks ''nodejs'' ''package_name'')) (\<lambda>expected.
    bindR (guard (py_eq name expected) (PackageName ''Node'' p)) (\<lambda>_.
    bindR (lift (get_value_of pkg ''version'')) (\<lambda>version.
      guard (version = JStr release_version) (PackageVersion ''Node'' release_version version)))))))"

text \<open>The clients whose package file gives a name and a version by a line each; Java adds a suffix to its group.\<close>

definition validate_lines ::
  "files \<Rightarrow> json \<Rightarrow> pystr \<Rightarrow> string \<Rightarrow> string \<Rightarrow> string \<Rightarrow> string \<Rightarrow> pystr \<Rightarrow> unit check" where
  "validate_lines fs sdks release_version k label name_label key name_suffix =
    bindR (lift (package_file sdks k)) (\<lambda>p.
    bindR (parse_regex fs p (assign_line_re key) name_label) (\<lambda>name.
    bindR (parse_regex fs p (assign_line_re ''version'') (label @ '' version'')) (\<lambda>version.
    bindR (lift (entry_value sdks k ''package_name'')) (\<lambda>expected.
    bindR (guard (expected = JStr (name @ name_suffix)) (PackageName label p)) (\<lambda>_.
      guard (version = release_version) (PackageVersion label release_version (JStr version)))))))"

definition major_minor :: "pystr \<Rightarrow> pystr list" where
  "major_minor v = take 2 (split_on 46 v)"

definition validate_go :: "(json \<Rightarrow> pystr) \<Rightarrow> files \<Rightarrow> json \<Rightarrow> pystr \<Rightarrow> unit check" where
  "validate_go render fs sdks release_version =
    bindR (lift (package_file sdks ''go'')) (\<lambda>p.
    bindR (parse_regex fs p (word_line_re ''module'') ''Go module'') (\<lambda>go_module.
    bindR (lift (entry_value sdks ''go'' ''module'')) (\<lambda>expected.
    bindR (guard (expected = JStr go_module) (GoModule go_module expected)) (\<lambda>_.
    bindR (lift (bindR (subscript sdks ''go'') (\<lambda>entry. get_default entry ''tag'' (JStr [])))) (\<lambda>t.
    let go_tag = py_strip (py_str render t) in
    (case re_match GO_TAG_RE go_tag of
       None \<Rightarrow> Inl (Fail GoTagForm)
     | Some m \<Rightarrow>
         guard (major_minor (group1 m) = major_minor release_version) (GoTagVersion release_version go_tag)))))))"

fun validate_entries :: "pystr \<Rightarrow> (pystr \<times> json) list \<Rightarrow> unit check" where
  "validate_entries release_version [] = Inr ()"
| "validate_entries release_version ((sdk, entry) # es) =
    bindR (lift (get_value_of entry ''version'')) (\<lambda>version.
    bindR (guard (version = JNull \<or> version = JStr release_version) (EntryVersion sdk version)) (\<lambda>_.
      validate_entries release_version es))"

definition validate_sdk_versions :: "(json \<Rightarrow> pystr) \<Rightarrow> files \<Rightarrow> json \<Rightarrow> pystr \<Rightarrow> unit check" where
  "validate_sdk_versions render fs manifest release_version =
    bindR (lift (get_or_empty manifest ''sdks'')) (\<lambda>sdks.
    bindR (lift (name_set sdks)) (\<lambda>names.
    let missing = filter (\<lambda>k. k \<notin> set names) (sort SDKS) in
    bindR (guard (missing = []) (MissingSdks missing)) (\<lambda>_.
    bindR (validate_node fs sdks release_version) (\<lambda>_.
    bindR (validate_lines fs sdks release_version ''python'' ''Python'' ''Python package name'' ''name'' []) (\<lambda>_.
    bindR (validate_lines fs sdks release_version ''java'' ''Java'' ''Java group'' ''group'' (lit '':ditto-java-client'')) (\<lambda>_.
    bindR (validate_lines fs sdks release_version ''rust'' ''Rust'' ''Rust package name'' ''name'' []) (\<lambda>_.
    bindR (validate_go render fs sdks release_version) (\<lambda>_.
      validate_entries release_version (case sdks of JObj d \<Rightarrow> dict_items d | _ \<Rightarrow> [])))))))))"

definition WORKFLOWS :: "pystr list" where
  "WORKFLOWS = [lit ''.github/workflows/client-matrix.yml'', lit ''.github/workflows/coverage-report.yml'',
    lit ''.github/workflows/release-dry-run.yml'']"

fun validate_workflows :: "files \<Rightarrow> pystr \<Rightarrow> pystr list \<Rightarrow> unit check" where
  "validate_workflows fs expected_go [] = Inr ()"
| "validate_workflows fs expected_go (p # ps) =
    bindR (lift (read_text fs p)) (\<lambda>workflow.
    let versions = re_findall go_version_re workflow;
        mismatches = sort (remdups (filter (\<lambda>v. v \<noteq> expected_go) versions)) in
    bindR (guard (versions \<noteq> []) (NoGoVersion p)) (\<lambda>_.
    bindR (guard (mismatches = []) (GoVersionMismatch p mismatches)) (\<lambda>_.
      validate_workflows fs expected_go ps)))"

definition validate_workflow_toolchains :: "(json \<Rightarrow> pystr) \<Rightarrow> files \<Rightarrow> json \<Rightarrow> unit check" where
  "validate_workflow_toolchains render fs manifest =
    bindR (lift (get_or_empty manifest ''sdks'')) (\<lambda>sdks.
    bindR (lift (get_default sdks ''go'' (JObj []))) (\<lambda>go.
    bindR (lift (get_default go ''runtime'' (JStr []))) (\<lambda>r.
    let go_runtime = py_strip (py_str render r) in
    (case re_fullmatch go_runtime_re go_runtime of
       None \<Rightarrow> Inl (Fail (GoRuntime go_runtime))
     | Some m \<Rightarrow> validate_workflows fs (group1 m) WORKFLOWS))))"

definition manifest_main :: "(json \<Rightarrow> pystr) \<Rightarrow> files \<Rightarrow> pystr \<Rightarrow> pystr option \<Rightarrow> pystr check" where
  "manifest_main render fs manifest_path expected =
    bindR (lift (load_json fs manifest_path)) (\<lambda>manifest.
    bindR (validate_release_version render manifest expected) (\<lambda>release_version.
    bindR (validate_protocol_snapshot render fs manifest) (\<lambda>_.
    bindR (validate_sdk_versions render fs manifest release_version) (\<lambda>_.
    bindR (validate_workflow_toolchains render fs manifest) (\<lambda>_.
      Inr release_version)))))"

section \<open>What a valid release is\<close>

text \<open>The value a pattern finds in a file.\<close>

definition found_in :: "files \<Rightarrow> pystr \<Rightarrow> re \<Rightarrow> pystr \<Rightarrow> bool" where
  "found_in fs p r x \<longleftrightarrow> (\<exists>t m. read_text fs p = Inr t \<and> re_search r t = Some m \<and> group1 m = x)"

definition version_ok :: "(json \<Rightarrow> pystr) \<Rightarrow> json \<Rightarrow> pystr option \<Rightarrow> pystr \<Rightarrow> bool" where
  "version_ok render manifest expected ver \<longleftrightarrow>
    (\<exists>v. get_default manifest ''release_version'' (JStr []) = Inr v \<and> ver = py_strip (py_str render v)) \<and>
    re_match SEMVER_RE ver \<noteq> None \<and> get_value_of manifest ''tag'' = Inr (JStr (lit ''client-v'' @ ver)) \<and>
    expected \<in> {None, Some [], Some ver}"

definition hash_ok :: "(json \<Rightarrow> pystr) \<Rightarrow> files \<Rightarrow> json \<Rightarrow> bool" where
  "hash_ok render fs manifest \<longleftrightarrow>
    (\<exists>proto p h b. get_or_empty manifest ''protocol_snapshot'' = Inr proto \<and> get_value_of proto ''path'' = Inr (JStr p) \<and>
       p \<noteq> [] \<and> get_default proto ''sha256'' (JStr []) = Inr h \<and> read_bytes fs p = Inr b \<and>
       py_lower (py_str render h) = hexdigest b)"

definition node_ok :: "files \<Rightarrow> json \<Rightarrow> pystr \<Rightarrow> bool" where
  "node_ok fs sdks ver \<longleftrightarrow>
    (\<exists>p pkg name expected. package_file sdks ''nodejs'' = Inr p \<and> load_json fs p = Inr pkg \<and>
       get_value_of pkg ''name'' = Inr name \<and> entry_value sdks ''nodejs'' ''package_name'' = Inr expected \<and>
       py_eq name expected \<and> get_value_of pkg ''version'' = Inr (JStr ver))"

definition lines_ok :: "files \<Rightarrow> json \<Rightarrow> pystr \<Rightarrow> string \<Rightarrow> string \<Rightarrow> pystr \<Rightarrow> bool" where
  "lines_ok fs sdks ver k key name_suffix \<longleftrightarrow>
    (\<exists>p name. package_file sdks k = Inr p \<and> found_in fs p (assign_line_re key) name \<and>
       entry_value sdks k ''package_name'' = Inr (JStr (name @ name_suffix)) \<and>
       found_in fs p (assign_line_re ''version'') ver)"

definition go_ok :: "(json \<Rightarrow> pystr) \<Rightarrow> files \<Rightarrow> json \<Rightarrow> pystr \<Rightarrow> bool" where
  "go_ok render fs sdks ver \<longleftrightarrow>
    (\<exists>p md entry t m. package_file sdks ''go'' = Inr p \<and> found_in fs p (word_line_re ''module'') md \<and>
       entry_value sdks ''go'' ''module'' = Inr (JStr md) \<and>
       subscript sdks ''go'' = Inr entry \<and> get_default entry ''tag'' (JStr []) = Inr t \<and>
       re_match GO_TAG_RE (py_strip (py_str render t)) = Some m \<and> major_minor (group1 m) = major_minor ver)"

definition toolchains_ok :: "(json \<Rightarrow> pystr) \<Rightarrow> files \<Rightarrow> json \<Rightarrow> bool" where
  "toolchains_ok render fs sdks \<longleftrightarrow>
    (\<exists>go r m. get_default sdks ''go'' (JObj []) = Inr go \<and> get_default go ''runtime'' (JStr []) = Inr r \<and>
       re_fullmatch go_runtime_re (py_strip (py_str render r)) = Some m \<and>
       list_all (\<lambda>p. \<exists>t. read_text fs p = Inr t \<and> re_findall go_version_re t \<noteq> [] \<and>
         list_all (\<lambda>v. v = group1 m) (re_findall go_version_re t)) WORKFLOWS)"

lemma bind_parse: "bindR (parse_regex fs p r label) f = Inr y \<longleftrightarrow> (\<exists>x. found_in fs p r x \<and> f x = Inr y)"
  unfolding parse_regex_def found_in_def bindR_assoc bindR_eq_Inr lift_Inr some_case by auto

lemmas check_simps = bind_lift bind_guard guard_Inr some_case bind_parse Let_def

lemma release_version_iff: "validate_release_version render manifest expected = Inr ver \<longleftrightarrow> version_ok render manifest expected ver"
  unfolding validate_release_version_def version_ok_def check_simps
  by (cases expected) (auto simp: check_simps)

lemma path_of_iff: "path_of v = Inr p \<longleftrightarrow> v = JStr p"
  by (auto simp: path_of_def split: json.splits)

lemma hexdigest_nonempty: "hexdigest b \<noteq> []"
  using length_hexdigest [of b] by auto

lemma sha256_file_iff: "sha256_file fs p = Inr h \<longleftrightarrow> (\<exists>b. read_bytes fs p = Inr b \<and> h = hexdigest b)"
  by (auto simp: sha256_file_eq bindR_eq_Inr)

lemma snapshot_hash_iff: "validate_protocol_snapshot render fs manifest = Inr () \<longleftrightarrow> hash_ok render fs manifest"
proof -
  have "truthy v \<and> h \<noteq> [] \<and> (\<exists>p. path_of v = Inr p \<and> (\<exists>a. sha256_file fs p = Inr a \<and> a = h)) \<longleftrightarrow>
      (\<exists>p b. v = JStr p \<and> p \<noteq> [] \<and> read_bytes fs p = Inr b \<and> h = hexdigest b)" for v h
    by (auto simp: path_of_iff sha256_file_iff hexdigest_nonempty)
  note core = this
  show ?thesis
    unfolding validate_protocol_snapshot_def hash_ok_def check_simps conj_assoc core by blast
qed

lemma node_iff: "validate_node fs sdks ver = Inr () \<longleftrightarrow> node_ok fs sdks ver"
  unfolding validate_node_def node_ok_def check_simps by blast

lemma lines_iff: "validate_lines fs sdks ver k label nl key sx = Inr () \<longleftrightarrow> lines_ok fs sdks ver k key sx"
  unfolding validate_lines_def lines_ok_def check_simps by blast

lemma go_iff: "validate_go render fs sdks ver = Inr () \<longleftrightarrow> go_ok render fs sdks ver"
  unfolding validate_go_def go_ok_def check_simps by (auto simp: bindR_eq_Inr)

lemma entries_iff:
  "validate_entries ver es = Inr () \<longleftrightarrow> list_all (\<lambda>(k, e). get_value_of e ''version'' \<in> {Inr JNull, Inr (JStr ver)}) es"
  by (induction es) (auto simp: check_simps)

lemma workflows_iff:
  "validate_workflows fs g ps = Inr () \<longleftrightarrow>
    list_all (\<lambda>p. \<exists>t. read_text fs p = Inr t \<and> re_findall go_version_re t \<noteq> [] \<and>
      list_all (\<lambda>v. v = g) (re_findall go_version_re t)) ps"
proof (induction ps)
  case (Cons p ps)
  have "sort (remdups (filter (\<lambda>v. v \<noteq> g) vs)) = [] \<longleftrightarrow> list_all (\<lambda>v. v = g) vs" for vs :: "pystr list"
  proof -
    have "sort (remdups (filter (\<lambda>v. v \<noteq> g) vs)) = [] \<longleftrightarrow> set (filter (\<lambda>v. v \<noteq> g) vs) = {}"
      by (metis set_empty set_remdups set_sort)
    then show ?thesis by (auto simp: list_all_iff filter_empty_conv)
  qed
  then show ?case by (auto simp: check_simps Cons.IH)
qed simp

lemma toolchains_iff:
  "validate_workflow_toolchains render fs manifest = Inr () \<longleftrightarrow>
    (\<exists>sdks. get_or_empty manifest ''sdks'' = Inr sdks \<and> toolchains_ok render fs sdks)"
  unfolding validate_workflow_toolchains_def toolchains_ok_def check_simps workflows_iff by blast

text \<open>What the manifest says of the five clients agrees with their package files.\<close>

definition sdks_ok :: "(json \<Rightarrow> pystr) \<Rightarrow> files \<Rightarrow> json \<Rightarrow> pystr \<Rightarrow> bool" where
  "sdks_ok render fs sdks ver \<longleftrightarrow>
    (\<exists>d. sdks = JObj d \<and> list_all (has_key d) SDKS \<and> node_ok fs sdks ver \<and>
       lines_ok fs sdks ver ''python'' ''name'' [] \<and>
       lines_ok fs sdks ver ''java'' ''group'' (lit '':ditto-java-client'') \<and>
       lines_ok fs sdks ver ''rust'' ''name'' [] \<and> go_ok render fs sdks ver \<and>
       list_all (\<lambda>(k, e). get_value_of e ''version'' \<in> {Inr JNull, Inr (JStr ver)}) (dict_items d))"

lemma node_ok_object: "node_ok fs sdks ver \<Longrightarrow> \<exists>d. sdks = JObj d"
  by (auto simp: node_ok_def package_file_def subscript_def bindR_eq_Inr split: json.splits)

lemma sdk_versions_iff:
  "validate_sdk_versions render fs manifest ver = Inr () \<longleftrightarrow>
    (\<exists>sdks. get_or_empty manifest ''sdks'' = Inr sdks \<and> sdks_ok render fs sdks ver)"
proof -
  have names: "name_set (JObj d) = Inr (map fst d)" for d by (simp add: name_set_def)
  have missing: "filter (\<lambda>k. k \<notin> set (map fst d)) (sort SDKS) = [] \<longleftrightarrow> list_all (has_key d) SDKS" for d :: dict
    by (auto simp: filter_empty_conv list_all_iff has_key_def)
  have unit: "bindR c f = Inr () \<longleftrightarrow> c = Inr () \<and> f () = Inr ()" for c :: "unit check" and f :: "unit \<Rightarrow> unit check"
    by (cases c) simp_all
  have object: "(\<exists>names. name_set sdks = Inr names \<and> filter (\<lambda>k. k \<notin> set names) (sort SDKS) = [] \<and> node_ok fs sdks ver \<and>
      lines_ok fs sdks ver ''python'' ''name'' [] \<and> lines_ok fs sdks ver ''java'' ''group'' (lit '':ditto-java-client'') \<and>
      lines_ok fs sdks ver ''rust'' ''name'' [] \<and> go_ok render fs sdks ver \<and>
      list_all (\<lambda>(k, e). get_value_of e ''version'' \<in> {Inr JNull, Inr (JStr ver)}) (case sdks of JObj d \<Rightarrow> dict_items d | _ \<Rightarrow> []))
    \<longleftrightarrow> sdks_ok render fs sdks ver" for sdks
  proof (cases "\<exists>d. sdks = JObj d")
    case True
    then obtain d where "sdks = JObj d" ..
    then show ?thesis by (simp add: sdks_ok_def names missing del: set_map)
  next
    case False
    then have "\<not> node_ok fs sdks ver" using node_ok_object by blast
    then show ?thesis by (simp add: sdks_ok_def)
  qed
  show ?thesis
    unfolding validate_sdk_versions_def bind_lift Let_def unit guard_Inr node_iff lines_iff go_iff entries_iff object ..
qed

text \<open>
  C25: the release manifest is accepted exactly when its version is semver-like, its tag is the one of that version
  (and the version is the expected one, if one is given), the protocol snapshot has the recorded SHA-256,
  the package files of the Node, Python, Java and Rust clients carry the recorded names and all
  the release version, the Go module has the recorded name and a tag of the same major and minor
  version, no entry records another version, and every Go version in the workflows is the
  recorded one.
\<close>

theorem release_manifest_iff:
  "manifest_main render fs manifest_path expected = Inr ver \<longleftrightarrow>
    (\<exists>manifest sdks. load_json fs manifest_path = Inr manifest \<and> version_ok render manifest expected ver \<and>
       hash_ok render fs manifest \<and> get_or_empty manifest ''sdks'' = Inr sdks \<and>
       sdks_ok render fs sdks ver \<and> toolchains_ok render fs sdks)"
proof -
  have unit: "bindR c f = Inr y \<longleftrightarrow> c = Inr () \<and> f () = Inr y" for c :: "unit check" and f :: "unit \<Rightarrow> pystr check" and y
    by (cases c) simp_all
  have "manifest_main render fs manifest_path expected = Inr ver \<longleftrightarrow>
      (\<exists>manifest. load_json fs manifest_path = Inr manifest \<and> (\<exists>v. version_ok render manifest expected v \<and>
         hash_ok render fs manifest \<and> (\<exists>sdks. get_or_empty manifest ''sdks'' = Inr sdks \<and> sdks_ok render fs sdks v) \<and>
         (\<exists>sdks. get_or_empty manifest ''sdks'' = Inr sdks \<and> toolchains_ok render fs sdks) \<and> v = ver))"
    unfolding manifest_main_def bind_lift bindR_eq_Inr [of "validate_release_version render m expected" for m]
      release_version_iff unit snapshot_hash_iff sdk_versions_iff toolchains_iff by simp
  then show ?thesis by auto
qed

end
