(* ===== verification/Release_Evidence.thy ===== *)
theory Release_Evidence
  imports Release_Manifest Json_Readable
begin

text \<open>
  \<open>scripts/generate_release_evidence.py\<close>: the checksums, the provenance and the list of packages
  (SBOM) of a release of one client. Paths are relative to the repository root, which is the
  working directory; what the environment variables, \<open>git\<close>, the clock and \<open>glob\<close> give is
  in a record.
\<close>

section \<open>The surroundings\<close>

record evidence_env =
  cwd :: pystr
  glob_results :: "pystr \<Rightarrow> pystr list"
  clock :: pystr
  git_head :: "pystr option"
  git_branch :: "pystr option"
  github_sha :: "pystr option"
  github_ref_name :: "pystr option"
  github_repository :: "pystr option"
  github_workflow :: "pystr option"
  github_run_id :: "pystr option"

datatype evidence_message =
    NoArtifacts "pystr list"
  | CouldNotParse string
  | UnsupportedSdk pystr

type_synonym 'a evidence = "(evidence_message, 'a) script"

definition read_json :: "files \<Rightarrow> pystr \<Rightarrow> json result" where
  "read_json fs p = load_json fs p"

definition join_path :: "pystr \<Rightarrow> pystr \<Rightarrow> pystr" where
  "join_path d p = (if ends_with d (lit ''/'') then d @ p else d @ lit ''/'' @ p)"

text \<open>\<open>git_value\<close>: the stripped output of a command, \<open>None\<close> if it fails.\<close>

definition git_value :: "pystr option \<Rightarrow> pystr option" where
  "git_value output = map_option py_strip output"

text \<open>\<open>os.environ.get(k) or v\<close>\<close>

definition env_or :: "pystr option \<Rightarrow> pystr option \<Rightarrow> pystr option" where
  "env_or v other = (case v of Some s \<Rightarrow> if s \<noteq> [] then Some s else other | None \<Rightarrow> other)"


section \<open>Artifacts\<close>

text \<open>Paths are sorted by their parts. A file that two patterns match is listed twice.\<close>

definition collect_artifacts :: "evidence_env \<Rightarrow> files \<Rightarrow> pystr list \<Rightarrow> pystr list evidence" where
  "collect_artifacts env fs patterns =
    (let found = concat (map (glob_results env) patterns);
         artifacts = sort_key (split_on 47) (filter (\<lambda>p. fs p \<noteq> None) found)
     in if artifacts = [] then Inl (Fail (NoArtifacts patterns)) else Inr artifacts)"

record artifact_row =
  row_path :: pystr
  row_size :: int
  row_sha256 :: pystr

definition artifact_row_of :: "files \<Rightarrow> pystr \<Rightarrow> artifact_row result" where
  "artifact_row_of fs p =
    bindR (read_bytes fs p) (\<lambda>b. bindR (sha256_file fs p) (\<lambda>h.
      Inr \<lparr>row_path = p, row_size = int (length b), row_sha256 = h\<rparr>))"

fun artifact_rows :: "files \<Rightarrow> pystr list \<Rightarrow> artifact_row list result" where
  "artifact_rows fs [] = Inr []"
| "artifact_rows fs (p # ps) =
    bindR (artifact_row_of fs p) (\<lambda>r. bindR (artifact_rows fs ps) (\<lambda>rs. Inr (r # rs)))"

definition checksum_line :: "artifact_row \<Rightarrow> pystr" where
  "checksum_line r = row_sha256 r @ lit ''  '' @ row_path r @ [10]"


section \<open>Packages\<close>

record package =
  pkg_name :: json
  pkg_version :: json
  pkg_ecosystem :: pystr
  pkg_relationship :: pystr
  pkg_source :: pystr

definition package_entry :: "json \<Rightarrow> json \<Rightarrow> string \<Rightarrow> pystr \<Rightarrow> string \<Rightarrow> package" where
  "package_entry name version ecosystem source relationship =
    \<lparr>pkg_name = name, pkg_version = version, pkg_ecosystem = lit ecosystem,
     pkg_relationship = lit relationship, pkg_source = source\<rparr>"

definition regex :: "pystr \<Rightarrow> re \<Rightarrow> string \<Rightarrow> pystr evidence" where
  "regex t r label = (case re_search r t of None \<Rightarrow> Inl (Fail (CouldNotParse label)) | Some m \<Rightarrow> Inr (group1 m))"

definition NODE_PACKAGE :: pystr where
  "NODE_PACKAGE = lit ''ditto-nodejs-client/package.json''"

definition NODE_SECTIONS :: "string list" where
  "NODE_SECTIONS = [''dependencies'', ''devDependencies'', ''optionalDependencies'', ''peerDependencies'']"

definition node_section :: "pystr \<Rightarrow> json \<Rightarrow> string \<Rightarrow> package list result" where
  "node_section source pkg section_name =
    bindR (get_or_empty pkg section_name) (\<lambda>v.
      case v of
        JObj d \<Rightarrow> Inr (map (\<lambda>(name, version). package_entry (JStr name) version ''npm'' source section_name)
          (sort_key fst (dict_items d)))
      | _ \<Rightarrow> Inl AttributeError)"

fun node_sections :: "pystr \<Rightarrow> json \<Rightarrow> string list \<Rightarrow> package list result" where
  "node_sections source pkg [] = Inr []"
| "node_sections source pkg (k # ks) =
    bindR (node_section source pkg k) (\<lambda>ps. bindR (node_sections source pkg ks) (\<lambda>qs. Inr (ps @ qs)))"

definition node_packages :: "evidence_env \<Rightarrow> files \<Rightarrow> package list evidence" where
  "node_packages env fs =
    lift (bindR (read_json fs NODE_PACKAGE) (\<lambda>pkg.
      let source = join_path (cwd env) NODE_PACKAGE in
      bindR (subscript pkg ''name'') (\<lambda>name. bindR (subscript pkg ''version'') (\<lambda>version.
      bindR (node_sections source pkg NODE_SECTIONS) (\<lambda>ps.
        Inr (package_entry name version ''npm'' source ''root'' # ps))))))"

definition PYTHON_PACKAGE :: pystr where
  "PYTHON_PACKAGE = lit ''ditto-python-client/pyproject.toml''"

definition dependencies_re :: re where
  "dependencies_re = seq_re [LineStart, lit_re ''dependencies'', Star True space_re, char_re (CHR ''=''), Star True space_re,
    char_re (CHR ''[''), Group (Star False (Chr (\<lambda>c. True))), char_re (CHR '']'')]"

definition python_packages :: "evidence_env \<Rightarrow> files \<Rightarrow> package list evidence" where
  "python_packages env fs =
    bindR (lift (read_text fs PYTHON_PACKAGE)) (\<lambda>pyproject.
    bindR (regex pyproject (assign_line_re ''name'') ''Python package name'') (\<lambda>name.
    bindR (regex pyproject (assign_line_re ''version'') ''Python package version'') (\<lambda>version.
    let source = join_path (cwd env) PYTHON_PACKAGE in
    Inr (package_entry (JStr name) (JStr version) ''pypi'' source ''root'' #
      (case re_search dependencies_re pyproject of
         None \<Rightarrow> []
       | Some m \<Rightarrow>
           map (\<lambda>dep. package_entry (JStr dep) (JStr (lit ''declared'')) ''pypi'' source ''dependencies'')
             (re_findall quoted_re (group1 m)))))))"

definition JAVA_BUILD :: pystr where
  "JAVA_BUILD = lit ''ditto-java-client/build.gradle.kts''"

definition gradle_re :: re where
  "gradle_re = seq_re [Alt (lit_re ''implementation'') (Alt (lit_re ''testImplementation'') (lit_re ''testRuntimeOnly'')),
    char_re (CHR ''(''), quoted_re, char_re (CHR '')'')]"

definition java_packages :: "evidence_env \<Rightarrow> files \<Rightarrow> package list evidence" where
  "java_packages env fs =
    bindR (lift (read_text fs JAVA_BUILD)) (\<lambda>build.
    bindR (regex build (assign_line_re ''group'') ''Java group'') (\<lambda>group_name.
    bindR (regex build (assign_line_re ''version'') ''Java version'') (\<lambda>version.
    let source = join_path (cwd env) JAVA_BUILD in
    Inr (package_entry (JStr (group_name @ lit '':ditto-java-client'')) (JStr version) ''maven'' source ''root'' #
      map (\<lambda>dep. package_entry (JStr dep) (JStr (lit ''declared'')) ''maven'' source ''gradle'')
        (re_findall gradle_re build)))))"

definition CARGO_TOML :: pystr where
  "CARGO_TOML = lit ''ditto-rust-client/Cargo.toml''"

definition CARGO_LOCK :: pystr where
  "CARGO_LOCK = lit ''ditto-rust-client/Cargo.lock''"

text \<open>\<open>s.split(sep)\<close> for a separator of several characters.\<close>

function split_str :: "pystr \<Rightarrow> pystr \<Rightarrow> pystr list" where
  "split_str sep s =
    (case s of
       [] \<Rightarrow> [[]]
     | c # cs \<Rightarrow>
         if sep \<noteq> [] \<and> take (length sep) s = sep then [] # split_str sep (drop (length sep) s)
         else (case split_str sep cs of [] \<Rightarrow> [[c]] | p # ps \<Rightarrow> (c # p) # ps))"
  by pat_completeness auto
termination by (relation "measure (\<lambda>(sep, s). length s)") auto

declare split_str.simps [simp del]

definition lock_line_re :: "string \<Rightarrow> re" where
  "lock_line_re key = seq_re [Chr (\<lambda>c. c = 10), lit_re key, Star True space_re, char_re (CHR ''=''), Star True space_re, quoted_re]"

definition lock_package :: "pystr \<Rightarrow> pystr \<Rightarrow> pystr \<Rightarrow> package list" where
  "lock_package source name block =
    (case (re_search (lock_line_re ''name'') block, re_search (lock_line_re ''version'') block) of
       (Some dep_name, Some dep_version) \<Rightarrow>
         if group1 dep_name \<noteq> name
         then [package_entry (JStr (group1 dep_name)) (JStr (group1 dep_version)) ''cargo'' source ''Cargo.lock'']
         else []
     | _ \<Rightarrow> [])"

definition rust_packages :: "evidence_env \<Rightarrow> files \<Rightarrow> package list evidence" where
  "rust_packages env fs =
    bindR (lift (read_text fs CARGO_TOML)) (\<lambda>cargo.
    bindR (regex cargo (assign_line_re ''name'') ''Rust package name'') (\<lambda>name.
    bindR (regex cargo (assign_line_re ''version'') ''Rust package version'') (\<lambda>version.
    let crate = package_entry (JStr name) (JStr version) ''cargo'' (join_path (cwd env) CARGO_TOML) ''root'' in
    if fs CARGO_LOCK = None then Inr [crate]
    else
      bindR (lift (read_text fs CARGO_LOCK)) (\<lambda>lock.
        Inr (crate # concat (map (lock_package (join_path (cwd env) CARGO_LOCK) name)
          (split_str (lit ''[[package]]'') lock)))))))"

definition GO_MOD :: pystr where
  "GO_MOD = lit ''ditto-go-client/go.mod''"

text \<open>
  The pattern of a requirement has two groups with white space between them. The name has no
  white space, so one group around both is cut at the first one.
\<close>

definition module_char :: "nat \<Rightarrow> bool" where
  "module_char c \<longleftrightarrow> word_char c \<or> c = 46 \<or> c = 47 \<or> c = 58 \<or> c = 45"

definition require_re :: re where
  "require_re = seq_re [LineStart, Star True space_re,
    Group (seq_re [plus_re (Chr module_char), plus_re space_re, char_re (CHR ''v''), plus_re nonspace_re])]"

definition require_entry :: "pystr \<Rightarrow> pystr \<Rightarrow> package" where
  "require_entry source t =
    package_entry (JStr (takeWhile (\<lambda>c. \<not> is_space c) t)) (JStr (dropWhile is_space (dropWhile (\<lambda>c. \<not> is_space c) t)))
      ''go'' source ''require''"

definition go_packages :: "evidence_env \<Rightarrow> files \<Rightarrow> package list evidence" where
  "go_packages env fs =
    bindR (lift (read_text fs GO_MOD)) (\<lambda>gomod.
    bindR (regex gomod (word_line_re ''module'') ''Go module'') (\<lambda>module_name.
    bindR (regex gomod (word_line_re ''go'') ''Go version'') (\<lambda>goversion.
    let source = join_path (cwd env) GO_MOD in
    Inr (package_entry (JStr module_name) (JStr (lit ''go '' @ goversion)) ''go'' source ''root'' #
      map (require_entry source) (re_findall require_re gomod)))))"

definition sbom_packages :: "evidence_env \<Rightarrow> files \<Rightarrow> pystr \<Rightarrow> package list evidence" where
  "sbom_packages env fs sdk =
    (if sdk = lit ''nodejs'' then node_packages env fs
     else if sdk = lit ''python'' then python_packages env fs
     else if sdk = lit ''java'' then java_packages env fs
     else if sdk = lit ''rust'' then rust_packages env fs
     else if sdk = lit ''go'' then go_packages env fs
     else Inl (Fail (UnsupportedSdk sdk)))"

section \<open>Documents\<close>

definition write_json :: "files \<Rightarrow> pystr \<Rightarrow> json \<Rightarrow> files result" where
  "write_json fs p payload = write_text fs p (dumps_sorted payload @ [10])"

definition spdx_char :: "nat \<Rightarrow> bool" where
  "spdx_char c \<longleftrightarrow> upper c \<or> lower c \<or> is_digit c \<or> c = 46 \<or> c = 45"

definition strip_dashes :: "pystr \<Rightarrow> pystr" where
  "strip_dashes s = rev (dropWhile (\<lambda>c. c = 45) (rev (dropWhile (\<lambda>c. c = 45) s)))"

definition spdx_id :: "pystr \<Rightarrow> pystr" where
  "spdx_id v =
    (let clean = re_sub (Chr (\<lambda>c. \<not> spdx_char c)) (lit ''-'') v; s = strip_dashes clean
     in lit ''SPDXRef-Package-'' @ (if s \<noteq> [] then s else lit ''unknown''))"

definition package_to_spdx :: "(json \<Rightarrow> pystr) \<Rightarrow> package \<Rightarrow> json" where
  "package_to_spdx render p = JObj
    [(lit ''SPDXID'', JStr (spdx_id (pkg_ecosystem p @ lit ''-'' @ py_str render (pkg_name p)))),
     (lit ''name'', pkg_name p),
     (lit ''versionInfo'', pkg_version p),
     (lit ''downloadLocation'', JStr (lit ''NOASSERTION'')),
     (lit ''filesAnalyzed'', JBool False),
     (lit ''supplier'', JStr (lit ''NOASSERTION'')),
     (lit ''comment'', JStr (lit ''ecosystem='' @ pkg_ecosystem p @ lit ''; relationship='' @ pkg_relationship p
        @ lit ''; source='' @ pkg_source p))]"

definition row_json :: "artifact_row \<Rightarrow> json" where
  "row_json r = JObj [(lit ''path'', JStr (row_path r)), (lit ''size_bytes'', JInt (row_size r)), (lit ''sha256'', JStr (row_sha256 r))]"

definition opt_json :: "pystr option \<Rightarrow> json" where
  "opt_json v = (case v of None \<Rightarrow> JNull | Some s \<Rightarrow> JStr s)"

definition MANIFEST :: pystr where
  "MANIFEST = lit ''release-manifest.json''"

definition provenance_json ::
  "evidence_env \<Rightarrow> pystr \<Rightarrow> json \<Rightarrow> json \<Rightarrow> pystr \<Rightarrow> json \<Rightarrow> artifact_row list \<Rightarrow> json" where
  "provenance_json env sdk release_version tag manifest_hash protocol_snapshot rows = JObj
    [(lit ''sdk'', JStr sdk),
     (lit ''release_version'', release_version),
     (lit ''tag'', tag),
     (lit ''generated_at'', JStr (clock env)),
     (lit ''source'', JObj
        [(lit ''commit'', opt_json (env_or (github_sha env) (git_value (git_head env)))),
         (lit ''branch'', opt_json (env_or (github_ref_name env) (git_value (git_branch env)))),
         (lit ''repository'', opt_json (github_repository env)),
         (lit ''workflow'', opt_json (github_workflow env)),
         (lit ''run_id'', opt_json (github_run_id env))]),
     (lit ''manifest'', JObj [(lit ''path'', JStr MANIFEST), (lit ''sha256'', JStr manifest_hash)]),
     (lit ''protocol_snapshot'', protocol_snapshot),
     (lit ''artifacts'', JList (map row_json rows))]"

definition provenance_of :: "evidence_env \<Rightarrow> files \<Rightarrow> pystr \<Rightarrow> json \<Rightarrow> artifact_row list \<Rightarrow> json result" where
  "provenance_of env fs sdk manifest rows =
    bindR (subscript manifest ''release_version'') (\<lambda>release_version.
    bindR (subscript manifest ''tag'') (\<lambda>tag.
    bindR (sha256_file fs MANIFEST) (\<lambda>h.
    bindR (subscript manifest ''protocol_snapshot'') (\<lambda>snapshot.
      Inr (provenance_json env sdk release_version tag h snapshot rows)))))"

definition document_namespace :: "pystr \<Rightarrow> pystr \<Rightarrow> bytes \<Rightarrow> pystr" where
  "document_namespace sdk release_version seed =
    lit ''https://github.com/tszick/ditto-client/spdx/'' @ sdk @ lit ''/'' @ release_version @ lit ''/'' @ take 16 (hexdigest seed)"

definition sbom_json ::
  "(json \<Rightarrow> pystr) \<Rightarrow> evidence_env \<Rightarrow> pystr \<Rightarrow> pystr \<Rightarrow> bytes \<Rightarrow> package list \<Rightarrow> json" where
  "sbom_json render env sdk release_version seed packages = JObj
    [(lit ''spdxVersion'', JStr (lit ''SPDX-2.3'')),
     (lit ''dataLicense'', JStr (lit ''CC0-1.0'')),
     (lit ''SPDXID'', JStr (lit ''SPDXRef-DOCUMENT-ditto-client-'' @ sdk)),
     (lit ''name'', JStr (lit ''ditto-client-'' @ sdk @ lit ''-'' @ release_version)),
     (lit ''documentNamespace'', JStr (document_namespace sdk release_version seed)),
     (lit ''creationInfo'', JObj
        [(lit ''created'', JStr (clock env)),
         (lit ''creators'', JList [JStr (lit ''Tool: ditto-client/scripts/generate_release_evidence.py'')])]),
     (lit ''packages'', JList (map (package_to_spdx render) packages))]"

definition sbom_of :: "(json \<Rightarrow> pystr) \<Rightarrow> evidence_env \<Rightarrow> files \<Rightarrow> pystr \<Rightarrow> json \<Rightarrow> json evidence" where
  "sbom_of render env fs sdk manifest =
    bindR (sbom_packages env fs sdk) (\<lambda>packages.
    bindR (lift (subscript manifest ''release_version'')) (\<lambda>v.
    bindR (lift (py_encode (sdk @ clock env))) (\<lambda>seed.
      Inr (sbom_json render env sdk (py_str render v) seed packages))))"


section \<open>\<open>main\<close>\<close>

text \<open>
  The three files are written one after the other; when a later step fails, the earlier files
  stay, and a file whose text cannot be encoded is left empty. The result is the files and the
  outcome.
\<close>

datatype evidence_report = Usage | Generated pystr "artifact_row list"

definition CHOICES :: "pystr list" where
  "CHOICES = [lit ''nodejs'', lit ''python'', lit ''java'', lit ''rust'', lit ''go'']"

definition step :: "files \<Rightarrow> 'a evidence \<Rightarrow> ('a \<Rightarrow> files \<times> 'b evidence) \<Rightarrow> files \<times> 'b evidence" where
  "step fs m k = (case m of Inl s \<Rightarrow> (fs, Inl s) | Inr x \<Rightarrow> k x)"

definition opened :: "files \<Rightarrow> pystr \<Rightarrow> files" where
  "opened fs p = fs(p \<mapsto> [])"

definition out_dir_of :: "pystr \<Rightarrow> pystr option \<Rightarrow> pystr" where
  "out_dir_of sdk output_dir =
    (case output_dir of
       Some d \<Rightarrow> if d \<noteq> [] then d else lit ''release-evidence/'' @ sdk
     | None \<Rightarrow> lit ''release-evidence/'' @ sdk)"

definition evidence_main ::
  "(json \<Rightarrow> pystr) \<Rightarrow> evidence_env \<Rightarrow> files \<Rightarrow> pystr \<Rightarrow> pystr list \<Rightarrow> pystr option \<Rightarrow>
   files \<times> (int \<times> evidence_report) evidence" where
  "evidence_main render env fs sdk patterns output_dir =
    (if sdk \<notin> set CHOICES then (fs, Inr (2, Usage))
     else
       let out_dir = out_dir_of sdk output_dir;
           checksums_path = join_path out_dir (lit ''checksums.sha256'');
           provenance_path = join_path out_dir (lit ''provenance.json'');
           sbom_path = join_path out_dir (lit ''sbom.json'') in
       step fs (lift (read_json fs MANIFEST)) (\<lambda>manifest.
       step fs (if patterns \<noteq> [] then collect_artifacts env fs patterns else Inr []) (\<lambda>artifacts.
       step fs (lift (artifact_rows fs artifacts)) (\<lambda>rows.
       step (opened fs checksums_path) (lift (write_text fs checksums_path (concat (map checksum_line rows)))) (\<lambda>fs1.
       step fs1 (lift (provenance_of env fs1 sdk manifest rows)) (\<lambda>provenance.
       step (opened fs1 provenance_path) (lift (write_json fs1 provenance_path provenance)) (\<lambda>fs2.
       step fs2 (sbom_of render env fs2 sdk manifest) (\<lambda>sbom.
       step (opened fs2 sbom_path) (lift (write_json fs2 sbom_path sbom)) (\<lambda>fs3.
         (fs3, Inr (0, Generated out_dir rows)))))))))))"

section \<open>Identifiers\<close>

text \<open>Replacing a class of characters is a map over the text.\<close>

lemma replace_chr:
  "ahead s = t \<Longrightarrow> grp s = None \<Longrightarrow>
   replace_at [d] t (scan (Chr P) False s) = map (\<lambda>c. if P c then d else c) t"
proof (induction t arbitrary: s)
  case Nil
  then show ?case by (simp add: scan.simps [of _ _ s] allowed_def)
next
  case (Cons c cs)
  have adv: "ahead (advance s) = cs" "grp (advance s) = None" "(advance s)\<lparr>grp := None\<rparr> = advance s"
    using Cons.prems by (simp_all add: advance_def)
  note IH = Cons.IH [OF adv(1,2)]
  show ?case
  proof (cases "P c")
    case True
    then show ?thesis
      using Cons.prems adv(1) IH by (simp add: scan.simps [of _ _ s] allowed_def adv(3))
  next
    case False
    then show ?thesis
      using Cons.prems adv IH replace_advance [of s c cs "[d]" "Chr P"]
      by (simp add: scan.simps [of _ False s] allowed_def)
  qed
qed

lemma re_sub_chr: "re_sub (Chr P) [d] t = map (\<lambda>c. if P c then d else c) t"
  unfolding re_sub_def by (rule replace_chr) (simp_all add: start_def)

lemma strip_dashes_ends:
  assumes "strip_dashes s \<noteq> []"
  shows "hd (strip_dashes s) \<noteq> 45 \<and> last (strip_dashes s) \<noteq> 45"
proof -
  define t where "t = dropWhile (\<lambda>c. c = 45) s"
  define u where "u = dropWhile (\<lambda>c. c = 45) (rev t)"
  have u: "strip_dashes s = rev u" "u \<noteq> []" using assms by (simp_all add: strip_dashes_def t_def u_def)
  have "rev t = takeWhile (\<lambda>c. c = 45) (rev t) @ u" by (simp add: u_def)
  then have "t = rev u @ rev (takeWhile (\<lambda>c. c = 45) (rev t))" by (metis rev_append rev_rev_ident)
  then have "hd t = hd (rev u)" "t \<noteq> []" using u(2) by (metis hd_append2 rev_is_Nil_conv, metis append_is_Nil_conv rev_is_Nil_conv)
  moreover have "hd t \<noteq> 45" using hd_dropWhile [of "\<lambda>c. c = 45" s] \<open>t \<noteq> []\<close> by (simp add: t_def)
  moreover have "hd u \<noteq> 45" using hd_dropWhile [of "\<lambda>c. c = 45" "rev t"] u(2) by (simp add: u_def)
  ultimately show ?thesis using u by (simp add: last_rev)
qed

text \<open>
  C33: an SPDX identifier is the prefix and at least one more character, all of them letters, digits, full
  stops and hyphens, without a hyphen at the start or the end of what follows the prefix.
\<close>

theorem spdx_id_shape:
  "\<exists>s. spdx_id v = lit ''SPDXRef-Package-'' @ s \<and> s \<noteq> [] \<and> list_all spdx_char s \<and> hd s \<noteq> 45 \<and> last s \<noteq> 45"
proof -
  define w where "w = map (\<lambda>c. if \<not> spdx_char c then 45 else c) v"
  have clean: "re_sub (Chr (\<lambda>c. \<not> spdx_char c)) (lit ''-'') v = w" by (simp add: w_def lit_def re_sub_chr)
  have "list_all spdx_char (strip_dashes w)"
    by (auto simp: list_all_iff strip_dashes_def w_def spdx_char_def dest!: set_dropWhileD)
  moreover have "list_all spdx_char (lit ''unknown'') \<and> hd (lit ''unknown'') \<noteq> 45 \<and> last (lit ''unknown'') \<noteq> 45"
    by (simp add: lit_def spdx_char_def upper_def lower_def)
  ultimately show ?thesis
    unfolding spdx_id_def clean Let_def using strip_dashes_ends [of w] by (auto simp: lit_def)
qed

text \<open>
  The identifier of a package does not depend on its version, so the entries of two versions
  of one crate in \<open>Cargo.lock\<close> have the same identifier in the same document.
\<close>

lemma spdx_id_ignores_version:
  "\<exists>d e. package_to_spdx render p = JObj d \<and> package_to_spdx render (p\<lparr>pkg_version := v\<rparr>) = JObj e \<and>
     dict_get e ''SPDXID'' = dict_get d ''SPDXID'' \<and> dict_get e ''versionInfo'' = Some v"
  by (simp add: package_to_spdx_def dict_get_def lit_def)


section \<open>The files\<close>

lemma artifact_rows_iff:
  "artifact_rows fs ps = Inr rows \<longleftrightarrow>
    map row_path rows = ps \<and>
    list_all (\<lambda>r. \<exists>b. fs (row_path r) = Some b \<and> row_size r = int (length b) \<and> row_sha256 r = hexdigest b) rows"
proof (induction ps arbitrary: rows)
  case (Cons p ps)
  have row: "artifact_row_of fs p = Inr r \<longleftrightarrow>
      row_path r = p \<and> (\<exists>b. fs p = Some b \<and> row_size r = int (length b) \<and> row_sha256 r = hexdigest b)" for r
    by (cases r) (auto simp: artifact_row_of_def sha256_file_eq read_bytes_def bindR_eq_Inr split: option.splits)
  show ?case by (cases rows) (auto simp: bindR_eq_Inr row Cons.IH)
qed auto

lemma write_text_iff: "write_text fs p s = Inr fs' \<longleftrightarrow> encodable s \<and> fs' = fs(p \<mapsto> utf8_bytes s)"
  by (auto simp: write_text_def py_encode_def bindR_eq_Inr)

text \<open>What the whole run may change, whether it succeeds or stops in the middle.\<close>

definition evidence_paths :: "pystr \<Rightarrow> pystr set" where
  "evidence_paths out_dir = {join_path out_dir (lit ''checksums.sha256''), join_path out_dir (lit ''provenance.json''), join_path out_dir (lit ''sbom.json'')}"

lemma step_done: "step fs m k = (fs', Inr y) \<longleftrightarrow> (\<exists>x. m = Inr x \<and> k x = (fs', Inr y))"
  by (auto simp: step_def split: sum.split)

text \<open>The files outside a set that a step keeps.\<close>

lemma step_keeps:
  "gs |` P = fs |` P \<Longrightarrow> (\<And>x. m = Inr x \<Longrightarrow> fst (k x) |` P = fs |` P) \<Longrightarrow> fst (step gs m k) |` P = fs |` P"
  by (auto simp: step_def split: sum.split)

lemma step_write:
  assumes "p \<notin> P" "gs |` P = fs |` P" "\<And>gs'. gs' |` P = fs |` P \<Longrightarrow> fst (k gs') |` P = fs |` P"
  shows "fst (step (opened gs p) (lift (write_text gs p t)) k) |` P = fs |` P"
  using assms by (intro step_keeps) (auto simp: opened_def lift_Inr write_text_iff)

lemma collect_artifacts_iff:
  "collect_artifacts env fs ps = Inr as \<longleftrightarrow>
    as = sort_key (split_on 47) (filter (\<lambda>p. fs p \<noteq> None) (concat (map (glob_results env) ps))) \<and> as \<noteq> []"
  unfolding collect_artifacts_def Let_def by auto

lemma evidence_done:
  assumes "evidence_main render env fs sdk patterns output_dir = (fs', Inr (code, Generated d rows))"
  defines "fs1 \<equiv> fs(join_path d (lit ''checksums.sha256'') \<mapsto> utf8_bytes (concat (map checksum_line rows)))"
  shows "code = 0 \<and> d = out_dir_of sdk output_dir \<and>
    (\<exists>manifest artifacts provenance sbom.
       load_json fs MANIFEST = Inr manifest \<and>
       (if patterns \<noteq> [] then collect_artifacts env fs patterns else Inr []) = Inr artifacts \<and>
       artifact_rows fs artifacts = Inr rows \<and>
       provenance_of env fs1 sdk manifest rows = Inr provenance \<and>
       (let fs2 = fs1(join_path d (lit ''provenance.json'') \<mapsto> utf8_bytes (dumps_sorted provenance @ [10])) in
        sbom_of render env fs2 sdk manifest = Inr sbom \<and>
        fs' = fs2(join_path d (lit ''sbom.json'') \<mapsto> utf8_bytes (dumps_sorted sbom @ [10]))))"
  using assms(1) unfolding evidence_main_def Let_def fs1_def
  by (auto simp: step_done lift_Inr read_json_def write_json_def write_text_iff simp del: split_paired_Ex split: if_splits)

lemma evidence_usage:
  "evidence_main render env fs sdk patterns output_dir = (fs', Inr (code, Usage)) \<Longrightarrow> code = 2 \<and> fs' = fs"
  unfolding evidence_main_def Let_def by (auto simp: step_done split: if_splits)

lemma evidence_keeps:
  "fst (evidence_main render env fs sdk patterns output_dir) |` (- evidence_paths (out_dir_of sdk output_dir)) =
   fs |` (- evidence_paths (out_dir_of sdk output_dir))"
proof -
  define P where "P = - evidence_paths (out_dir_of sdk output_dir)"
  have paths: "join_path (out_dir_of sdk output_dir) (lit ''checksums.sha256'') \<notin> P"
    "join_path (out_dir_of sdk output_dir) (lit ''provenance.json'') \<notin> P"
    "join_path (out_dir_of sdk output_dir) (lit ''sbom.json'') \<notin> P"
    by (simp_all add: P_def evidence_paths_def)
  have "fst (evidence_main render env fs sdk patterns output_dir) |` P = fs |` P"
  proof (cases "sdk \<in> set CHOICES")
    case True
    show ?thesis
      unfolding evidence_main_def Let_def write_json_def
      using True by (simp only: not_True_eq_False if_False) (intro step_write [OF paths(1)] step_write [OF paths(2)] step_write [OF paths(3)] step_keeps, simp_all)
  qed (simp add: evidence_main_def)
  then show ?thesis by (simp add: P_def)
qed

text \<open>
  C31: a run that succeeds returns 0 and has written three files and changed no other:
  \<open>checksums.sha256\<close> with a line for each artifact in the order of the rows, and
  \<open>provenance.json\<close> and \<open>sbom.json\<close>, the JSON texts of the two documents. Without patterns there is no
  artifact; with patterns there is at least one, the rows are the files that the patterns match,
  sorted by the parts of their paths, and every row has the size and the SHA-256 digest of the
  file before the run. A run that stops changes nothing outside those three files.
\<close>

theorem evidence_files:
  "case evidence_main render env fs sdk patterns output_dir of
     (fs', Inr (code, Generated d rows)) \<Rightarrow>
       code = 0 \<and> d = out_dir_of sdk output_dir \<and>
       (\<exists>provenance sbom.
          fs' = fs(join_path d (lit ''checksums.sha256'') \<mapsto> utf8_bytes (concat (map checksum_line rows)),
                   join_path d (lit ''provenance.json'') \<mapsto> utf8_bytes (dumps_sorted provenance @ [10]),
                   join_path d (lit ''sbom.json'') \<mapsto> utf8_bytes (dumps_sorted sbom @ [10]))) \<and>
       map row_path rows = sort_key (split_on 47) (filter (\<lambda>p. fs p \<noteq> None) (concat (map (glob_results env) patterns))) \<and>
       (patterns = [] \<longleftrightarrow> rows = []) \<and>
       list_all (\<lambda>r. \<exists>b. fs (row_path r) = Some b \<and> row_size r = int (length b) \<and> row_sha256 r = hexdigest b) rows
   | (fs', Inr (code, Usage)) \<Rightarrow> code = 2 \<and> fs' = fs
   | (fs', Inl stop) \<Rightarrow>
       fs' |` (- evidence_paths (out_dir_of sdk output_dir)) = fs |` (- evidence_paths (out_dir_of sdk output_dir))"
proof (cases "evidence_main render env fs sdk patterns output_dir")
  case (Pair fs' r)
  consider (stopped) s where "r = Inl s" | (usage) code where "r = Inr (code, Usage)"
    | (finished) code d rows where "r = Inr (code, Generated d rows)"
    by (cases r; cases "projr r"; cases "snd (projr r)") auto
  then show ?thesis
  proof cases
    case stopped
    then show ?thesis using evidence_keeps [of render env fs sdk patterns output_dir] by (simp add: Pair)
  next
    case usage
    then show ?thesis using evidence_usage [OF Pair [unfolded usage]] by (simp add: Pair)
  next
    case finished
    note fin = evidence_done [OF Pair [unfolded finished]]
    then obtain artifacts where a: "(if patterns \<noteq> [] then collect_artifacts env fs patterns else Inr []) = Inr artifacts"
      "artifact_rows fs artifacts = Inr rows" by blast
    have "map row_path rows = sort_key (split_on 47) (filter (\<lambda>p. fs p \<noteq> None) (concat (map (glob_results env) patterns)))"
      "patterns = [] \<longleftrightarrow> rows = []"
      using a by (auto simp: artifact_rows_iff collect_artifacts_iff split: if_splits)
    then show ?thesis
      using fin a(2) unfolding Pair finished artifact_rows_iff Let_def by (simp add: Let_def) blast
  qed
qed

section \<open>Reading the documents\<close>

lemma write_json_reads:
  assumes "readable v"
  shows "\<exists>fs'. write_json fs p v = Inr fs' \<and> load_json fs' p = Inr (canon v) \<and> same_data (canon v) v"
  using write_sorted [OF assms, of fs p] written_value(2) [OF assms, of fs p] data.nf_same
  by (simp add: write_json_def)

definition readable_opt :: "pystr option \<Rightarrow> bool" where
  "readable_opt v = (case v of None \<Rightarrow> True | Some s \<Rightarrow> readable_str s)"

definition readable_env :: "evidence_env \<Rightarrow> bool" where
  "readable_env env \<longleftrightarrow> readable_str (clock env) \<and>
    list_all readable_opt [git_value (git_head env), git_value (git_branch env), github_sha env, github_ref_name env,
      github_repository env, github_workflow env, github_run_id env]"

lemma hexdigest_encodable: "encodable (hexdigest b)"
proof -
  have "list_all (\<lambda>c. c < 128) (hexdigest b)"
    by (auto simp: hexdigest_def hex_word_def hex_digit_def list_all_iff)
  then show ?thesis by (auto simp: encodable_def list_all_iff encodable_cp_def is_surrogate_def)
qed

lemma literal_encodable: "encodable (lit w)"
proof -
  have "encodable_cp (of_char c)" for c
    unfolding encodable_cp_def is_surrogate_def using nat_of_char_less_256 [of c] by linarith
  then show ?thesis by (simp add: lit_def encodable_def list_all_iff)
qed

lemmas hexdigest_readable = encodable_readable [OF hexdigest_encodable]

lemmas lit_readable = encodable_readable [OF literal_encodable]

lemma opt_json_readable: "readable_opt v \<Longrightarrow> readable (opt_json v)"
  by (auto simp: readable_opt_def opt_json_def split: option.split)

lemma env_or_readable: "readable_opt v \<Longrightarrow> readable_opt w \<Longrightarrow> readable_opt (env_or v w)"
  by (auto simp: env_or_def split: option.split)

lemma subscript_readable: "subscript v k = Inr x \<Longrightarrow> readable v \<Longrightarrow> readable x"
  by (fastforce simp: subscript_def dict_get_def list_all_iff split: json.splits option.splits dest!: map_of_SomeD)

lemma provenance_readable:
  assumes "provenance_of env fs sdk manifest rows = Inr v" "readable manifest" "readable_env env" "readable_str sdk"
    and "list_all (\<lambda>r. readable_str (row_path r) \<and> readable_str (row_sha256 r)) rows"
  shows "readable v"
  using assms unfolding provenance_of_def readable_env_def
  by (auto simp: bindR_eq_Inr provenance_json_def sha256_file_eq lit_readable hexdigest_readable opt_json_readable
      env_or_readable row_json_def MANIFEST_def list_all_iff dest: subscript_readable)

text \<open>The value at a path of keys in a document, and that writing and reading keeps it.\<close>

fun json_at :: "json \<Rightarrow> string list \<Rightarrow> json option" where
  "json_at v [] = Some v"
| "json_at v (k # ks) =
    (case v of JObj d \<Rightarrow> (case dict_get d k of Some x \<Rightarrow> json_at x ks | None \<Rightarrow> None) | _ \<Rightarrow> None)"

lemma json_at_canon: "json_at (canon v) ks = map_option canon (json_at v ks)"
proof (induction ks arbitrary: v)
  case (Cons k ks)
  show ?case
  proof (cases v)
    case (JObj d)
    then obtain e where e: "canon v = JObj e" by simp
    then have "dict_get e k = map_option canon (dict_get d k)"
      using canon_lookup [of d e "lit k"] JObj by (simp add: dict_get_def)
    with e JObj Cons.IH show ?thesis by (cases "dict_get d k") simp_all
  qed simp_all
qed simp

lemma canon_opt_json: "canon (opt_json v) = opt_json v"
  by (cases v) (simp_all add: opt_json_def)

lemma join_path_eq: "join_path d p = join_path d q \<longleftrightarrow> p = q"
  by (simp add: join_path_def)

lemma join_path_not_manifest: "join_path d (lit ''checksums.sha256'') \<noteq> MANIFEST"
proof -
  have "last (join_path d (lit ''checksums.sha256'')) = 54" "last MANIFEST = 110"
    by (simp_all add: join_path_def MANIFEST_def lit_def)
  then show ?thesis by force
qed

lemma written_reads: "readable v \<Longrightarrow> fs p = Some (utf8_bytes (dumps_sorted v @ [10])) \<Longrightarrow> load_json fs p = Inr (canon v)"
  using written_value(2) [of v Map.empty p] write_sorted [of v Map.empty p]
  by (simp add: load_json_def read_text_def read_bytes_def)

lemma choices_readable: "sdk \<in> set CHOICES \<Longrightarrow> readable_str sdk"
  by (auto simp: CHOICES_def lit_readable)

text \<open>The paths of the rows were written to \<open>checksums.sha256\<close>, so they have a UTF-8 form.\<close>

lemma rows_readable:
  assumes "evidence_main render env fs sdk patterns output_dir = (fs', Inr (code, Generated d rows))"
  shows "list_all (\<lambda>r. readable_str (row_path r)) rows"
proof -
  have "encodable (concat (map checksum_line rows))"
    using assms unfolding evidence_main_def Let_def
    by (auto simp: step_done lift_Inr write_text_iff simp del: split_paired_Ex split: if_splits)
  then have "list_all (\<lambda>r. encodable (row_path r)) rows"
    by (induction rows) (auto simp: checksum_line_def encodable_def)
  then show ?thesis by (auto simp: list_all_iff intro: encodable_readable)
qed

text \<open>What the entries of the document are.\<close>

definition states_source :: "evidence_env \<Rightarrow> json \<Rightarrow> bool" where
  "states_source env data \<longleftrightarrow>
    json_at data [''source'', ''commit''] = Some (opt_json (env_or (github_sha env) (git_value (git_head env)))) \<and>
    json_at data [''source'', ''branch''] = Some (opt_json (env_or (github_ref_name env) (git_value (git_branch env)))) \<and>
    json_at data [''source'', ''repository''] = Some (opt_json (github_repository env)) \<and>
    json_at data [''source'', ''workflow''] = Some (opt_json (github_workflow env)) \<and>
    json_at data [''source'', ''run_id''] = Some (opt_json (github_run_id env))"

definition states_artifacts :: "artifact_row list \<Rightarrow> json \<Rightarrow> bool" where
  "states_artifacts rows data \<longleftrightarrow>
    (\<exists>as. json_at data [''artifacts''] = Some (JList as) \<and>
      list_all2 (\<lambda>a r. json_at a [''path''] = Some (JStr (row_path r)) \<and> json_at a [''size_bytes''] = Some (JInt (row_size r)) \<and>
        json_at a [''sha256''] = Some (JStr (row_sha256 r))) as rows)"

lemma provenance_entries:
  assumes "provenance_of env fs sdk manifest rows = Inr v" "fs MANIFEST = Some mb"
  defines "data \<equiv> canon v"
  shows "json_at data [''sdk''] = Some (JStr sdk)" "json_at data [''generated_at''] = Some (JStr (clock env))"
    "json_at data [''manifest'', ''path''] = Some (JStr MANIFEST)"
    "json_at data [''manifest'', ''sha256''] = Some (JStr (hexdigest mb))"
    "list_all (\<lambda>k. \<exists>x. subscript manifest k = Inr x \<and> json_at data [k] = Some (canon x)) [''release_version'', ''tag'', ''protocol_snapshot'']"
    "states_source env data" "states_artifacts rows data"
proof -
  obtain rv tag snap where v: "v = provenance_json env sdk rv tag (hexdigest mb) snap rows"
    and subs: "subscript manifest ''release_version'' = Inr rv" "subscript manifest ''tag'' = Inr tag"
      "subscript manifest ''protocol_snapshot'' = Inr snap"
    using assms(1,2) by (auto simp: provenance_of_def bindR_eq_Inr sha256_file_eq read_bytes_def)
  note look = dict_get_def lit_def
  show "json_at data [''sdk''] = Some (JStr sdk)" "json_at data [''generated_at''] = Some (JStr (clock env))"
    "json_at data [''manifest'', ''path''] = Some (JStr MANIFEST)"
    "json_at data [''manifest'', ''sha256''] = Some (JStr (hexdigest mb))"
    unfolding data_def json_at_canon v provenance_json_def by (simp_all add: look)
  show "list_all (\<lambda>k. \<exists>x. subscript manifest k = Inr x \<and> json_at data [k] = Some (canon x)) [''release_version'', ''tag'', ''protocol_snapshot'']"
    unfolding data_def json_at_canon v provenance_json_def by (simp add: subs look)
  show "states_source env data"
    unfolding states_source_def data_def json_at_canon v provenance_json_def by (simp add: look canon_opt_json)
  have "list_all2 (\<lambda>a r. json_at a [''path''] = Some (JStr (row_path r)) \<and> json_at a [''size_bytes''] = Some (JInt (row_size r)) \<and>
      json_at a [''sha256''] = Some (JStr (row_sha256 r))) (map (canon \<circ> row_json) rows) rows"
    unfolding list.rel_map list_all2_same comp_def json_at_canon row_json_def by (simp add: look)
  then show "states_artifacts rows data"
    unfolding states_artifacts_def data_def json_at_canon v provenance_json_def by (simp add: look)
qed

text \<open>
  C32: after a successful run, with no high surrogate directly before a low one in what the environment gives, the file
  \<open>provenance.json\<close> is the indented text of a document with its keys in order and a newline at its end. It reads back as
  that document, which states the client, the time, the
  version, tag and protocol snapshot of the manifest as it was read, the commit and the branch from the environment or else from
  \<open>git\<close>, the repository, workflow and run, the name and the SHA-256 digest of the manifest file, and for each artifact, in the
  order of the rows, its path, size and digest.
\<close>

theorem provenance_content:
  assumes "evidence_main render env fs sdk patterns output_dir = (fs', Inr (code, Generated d rows))"
    and "readable_env env"
  shows "\<exists>manifest mb data. load_json fs MANIFEST = Inr manifest \<and> fs MANIFEST = Some mb \<and>
    fs' (join_path d (lit ''provenance.json'')) = Some (utf8_bytes (dumps_sorted data @ [10])) \<and>
    load_json fs' (join_path d (lit ''provenance.json'')) = Inr data \<and>
    json_at data [''sdk''] = Some (JStr sdk) \<and> json_at data [''generated_at''] = Some (JStr (clock env)) \<and>
    list_all (\<lambda>k. \<exists>x y. subscript manifest k = Inr x \<and> json_at data [k] = Some y \<and> same_data y x)
      [''release_version'', ''tag'', ''protocol_snapshot''] \<and>
    states_source env data \<and>
    json_at data [''manifest'', ''path''] = Some (JStr MANIFEST) \<and> json_at data [''manifest'', ''sha256''] = Some (JStr (hexdigest mb)) \<and>
    states_artifacts rows data"
proof -
  let ?fs1 = "fs(join_path d (lit ''checksums.sha256'') \<mapsto> utf8_bytes (concat (map checksum_line rows)))"
  obtain manifest artifacts v sbom where run: "load_json fs MANIFEST = Inr manifest" "artifact_rows fs artifacts = Inr rows"
      "provenance_of env ?fs1 sdk manifest rows = Inr v"
      "fs' = ?fs1(join_path d (lit ''provenance.json'') \<mapsto> utf8_bytes (dumps_sorted v @ [10]),
        join_path d (lit ''sbom.json'') \<mapsto> utf8_bytes (dumps_sorted sbom @ [10]))"
    using evidence_done [OF assms(1)] unfolding Let_def by blast
  have sdk: "sdk \<in> set CHOICES"
    using assms(1) by (auto simp: evidence_main_def split: if_splits)
  obtain mb where mb: "fs MANIFEST = Some mb"
    using run(1) by (auto simp: load_json_def read_text_def read_bytes_def split: option.splits)
  then have mb1: "?fs1 MANIFEST = Some mb" using join_path_not_manifest [of d] by simp
  have "list_all (\<lambda>r. readable_str (row_path r) \<and> readable_str (row_sha256 r)) rows"
    using run(2) rows_readable [OF assms(1)] hexdigest_readable by (auto simp: artifact_rows_iff list_all_iff)
  then have "readable v"
    by (rule provenance_readable [OF run(3) loaded_readable(1) [OF run(1)] assms(2) choices_readable [OF sdk]])
  moreover have written: "fs' (join_path d (lit ''provenance.json'')) = Some (utf8_bytes (dumps_sorted v @ [10]))"
    by (simp add: run(4) join_path_eq lit_def)
  ultimately have "load_json fs' (join_path d (lit ''provenance.json'')) = Inr (canon v)"
    by (rule written_reads)
  moreover have "dumps_sorted (canon v) = dumps_sorted v" by (simp add: dumps_sorted_def canon_idem)
  ultimately show ?thesis
    using written run(1) mb provenance_entries [OF run(3) mb1] data.nf_same by (fastforce simp: list_all_iff)
qed

text \<open>A release of the Node.js client with one artifact.\<close>

lemma evidence_runs:
  assumes "sdk \<in> set CHOICES" "load_json fs MANIFEST = Inr manifest"
    and "(if patterns \<noteq> [] then collect_artifacts env fs patterns else Inr []) = Inr artifacts" "artifact_rows fs artifacts = Inr rows"
    and "write_text fs (join_path (out_dir_of sdk output_dir) (lit ''checksums.sha256'')) (concat (map checksum_line rows)) = Inr fs1"
    and "provenance_of env fs1 sdk manifest rows = Inr v"
    and "write_json fs1 (join_path (out_dir_of sdk output_dir) (lit ''provenance.json'')) v = Inr fs2"
    and "sbom_of render env fs2 sdk manifest = Inr w"
    and "write_json fs2 (join_path (out_dir_of sdk output_dir) (lit ''sbom.json'')) w = Inr fs'"
  shows "evidence_main render env fs sdk patterns output_dir = (fs', Inr (0, Generated (out_dir_of sdk output_dir) rows))"
  using assms by (simp add: evidence_main_def Let_def step_def lift_def read_json_def)

lemma subscript_canon: "subscript v k = Inr x \<Longrightarrow> subscript (canon v) k = Inr (canon x)"
  using json_at_canon [of v "[k]"] by (auto simp: subscript_def split: json.splits option.splits)

definition sample_manifest :: json where
  "sample_manifest = JObj [(lit ''tag'', JStr (lit ''client-v1'')), (lit ''release_version'', JStr (lit ''1'')), (lit ''protocol_snapshot'', JNull)]"

definition sample_package :: json where
  "sample_package = JObj [(lit ''version'', JStr (lit ''1'')), (lit ''name'', JStr (lit ''ditto''))]"

definition sample_release :: files where
  "sample_release =
    [MANIFEST \<mapsto> utf8_bytes (dumps_sorted sample_manifest @ [10]), NODE_PACKAGE \<mapsto> utf8_bytes (dumps_sorted sample_package @ [10]),
     lit ''dist/a'' \<mapsto> [104, 105]]"

definition sample_env :: evidence_env where
  "sample_env = \<lparr>cwd = lit ''/r'', glob_results = (\<lambda>p. [lit ''dist/a'']), clock = lit ''now'', git_head = None, git_branch = Some (lit ''main''),
     github_sha = Some (lit ''c0ffee''), github_ref_name = None, github_repository = None, github_workflow = None, github_run_id = None\<rparr>"

definition sample_row :: artifact_row where
  "sample_row = \<lparr>row_path = lit ''dist/a'', row_size = 2, row_sha256 = hexdigest [104, 105]\<rparr>"

lemma sample_readable: "readable sample_manifest" "readable sample_package" "readable_env sample_env"
  by (simp_all add: sample_manifest_def sample_package_def sample_env_def readable_env_def readable_opt_def git_value_def lit_readable)
    (simp add: lit_def py_strip_def lstrip_def is_space_def high_surrogate_def)

lemma sample_loads:
  "fs MANIFEST = sample_release MANIFEST \<Longrightarrow> load_json fs MANIFEST = Inr (canon sample_manifest)"
  "fs NODE_PACKAGE = sample_release NODE_PACKAGE \<Longrightarrow> load_json fs NODE_PACKAGE = Inr (canon sample_package)"
  by (auto intro!: written_reads sample_readable simp: sample_release_def MANIFEST_def NODE_PACKAGE_def lit_def)

lemma sample_packages:
  assumes "fs NODE_PACKAGE = sample_release NODE_PACKAGE"
  shows "sbom_packages sample_env fs (lit ''nodejs'') =
    Inr [package_entry (JStr (lit ''ditto'')) (JStr (lit ''1'')) ''npm'' (lit ''/r/ditto-nodejs-client/package.json'') ''root'']"
proof -
  note load = sample_loads(2) [of fs, OF assms]
  obtain e where e: "canon sample_package = JObj e" by (simp add: sample_package_def)
  have get: "dict_get e k = map_option canon (map_of [(lit ''name'', JStr (lit ''ditto'')), (lit ''version'', JStr (lit ''1''))] (lit k))" for k
    using canon_lookup [of _ e "lit k"] e by (simp add: sample_package_def dict_get_def)
  have "dict_get e ''name'' = Some (JStr (lit ''ditto''))" "dict_get e ''version'' = Some (JStr (lit ''1''))"
    "list_all (\<lambda>k. dict_get e k = None) NODE_SECTIONS"
    by (simp_all add: get NODE_SECTIONS_def) (simp_all add: lit_def)
  moreover have "join_path (cwd sample_env) NODE_PACKAGE = lit ''/r/ditto-nodejs-client/package.json''"
    by (simp add: sample_env_def join_path_def NODE_PACKAGE_def lit_def ends_with_def)
  ultimately show ?thesis
    by (simp add: sbom_packages_def node_packages_def read_json_def load e subscript_def NODE_SECTIONS_def node_section_def
        get_or_empty_def dot_get_def lift_def dict_items_def dict_keys_def Let_def)
qed

lemma sample_sbom:
  assumes "fs NODE_PACKAGE = sample_release NODE_PACKAGE" "subscript manifest ''release_version'' = Inr (JStr (lit ''1''))"
  shows "\<exists>w. sbom_of render sample_env fs (lit ''nodejs'') manifest = Inr w \<and> readable w"
proof -
  have "clock sample_env = lit ''now''" by (simp add: sample_env_def)
  moreover have "spdx_id (lit ''npm-ditto'') = lit ''SPDXRef-Package-npm-ditto''"
    by (simp add: spdx_id_def lit_def re_sub_chr spdx_char_def upper_def lower_def is_digit_def strip_dashes_def)
  moreover have "lit ''npm'' @ lit ''-'' @ lit ''ditto'' = lit ''npm-ditto''" by (simp add: lit_def)
  moreover have "encodable (take n (hexdigest b))" for n b
    using hexdigest_encodable [of b] by (auto simp: encodable_def list_all_iff dest: in_set_takeD)
  moreover have "encodable (s @ t) \<longleftrightarrow> encodable s \<and> encodable t" for s t by (simp add: encodable_def)
  ultimately show ?thesis
    using assms(2) literal_encodable
    by (simp add: sbom_of_def sample_packages [of fs, OF assms(1)] lift_def py_encode_def sbom_json_def document_namespace_def
        package_to_spdx_def package_entry_def py_str_def encodable_readable)
qed

lemma sample_entries:
  "subscript (canon sample_manifest) ''release_version'' = Inr (JStr (lit ''1''))"
  "subscript (canon sample_manifest) ''tag'' = Inr (JStr (lit ''client-v1''))"
  "subscript (canon sample_manifest) ''protocol_snapshot'' = Inr JNull"
proof -
  have "subscript sample_manifest ''release_version'' = Inr (JStr (lit ''1''))"
    "subscript sample_manifest ''tag'' = Inr (JStr (lit ''client-v1''))" "subscript sample_manifest ''protocol_snapshot'' = Inr JNull"
    by (simp_all add: sample_manifest_def subscript_def dict_get_def lit_def)
  from this [THEN subscript_canon] show "subscript (canon sample_manifest) ''release_version'' = Inr (JStr (lit ''1''))"
    "subscript (canon sample_manifest) ''tag'' = Inr (JStr (lit ''client-v1''))"
    "subscript (canon sample_manifest) ''protocol_snapshot'' = Inr JNull" by simp_all
qed

lemma sample_run:
  "\<exists>fs'. evidence_main (\<lambda>v. []) sample_env sample_release (lit ''nodejs'') [lit ''dist/*''] None =
    (fs', Inr (0, Generated (lit ''release-evidence/nodejs'') [sample_row]))"
proof -
  define d where "d = out_dir_of (lit ''nodejs'') None"
  have d: "d = lit ''release-evidence/nodejs''" by (simp add: d_def out_dir_of_def lit_def)
  define fs1 where "fs1 = sample_release(join_path d (lit ''checksums.sha256'') \<mapsto> utf8_bytes (concat (map checksum_line [sample_row])))"
  have art: "collect_artifacts sample_env sample_release [lit ''dist/*''] = Inr [lit ''dist/a'']"
    by (simp add: collect_artifacts_iff sample_env_def sample_release_def)
  have rows: "artifact_rows sample_release [lit ''dist/a''] = Inr [sample_row]"
    unfolding artifact_rows_iff by (simp add: sample_release_def sample_row_def)
  have sums: "write_text sample_release (join_path d (lit ''checksums.sha256'')) (concat (map checksum_line [sample_row])) = Inr fs1"
    using hexdigest_encodable literal_encodable
    by (simp add: write_text_iff fs1_def checksum_line_def sample_row_def encodable_def encodable_cp_def is_surrogate_def)
  have keeps: "fs1 MANIFEST = sample_release MANIFEST" "fs1 NODE_PACKAGE = sample_release NODE_PACKAGE"
    by (simp_all add: fs1_def d join_path_def ends_with_def MANIFEST_def NODE_PACKAGE_def lit_def)
  obtain mb where mb: "fs1 MANIFEST = Some mb"
    using keeps(1) by (simp add: sample_release_def MANIFEST_def NODE_PACKAGE_def lit_def)
  obtain v where v: "provenance_of sample_env fs1 (lit ''nodejs'') (canon sample_manifest) [sample_row] = Inr v"
    using sample_entries mb by (simp add: provenance_of_def sha256_file_eq read_bytes_def)
  have "readable v"
    by (rule provenance_readable [OF v readable_canon [OF sample_readable(1)] sample_readable(3) lit_readable])
      (simp add: sample_row_def lit_readable hexdigest_readable)
  then obtain fs2 where fs2: "write_json fs1 (join_path d (lit ''provenance.json'')) v = Inr fs2"
    "fs2 = fs1(join_path d (lit ''provenance.json'') \<mapsto> utf8_bytes (dumps_sorted v @ [10]))"
    by (simp add: write_json_def write_sorted)
  have keeps2: "fs2 NODE_PACKAGE = sample_release NODE_PACKAGE"
    using keeps by (simp add: fs2(2) d join_path_def ends_with_def NODE_PACKAGE_def lit_def)
  obtain w where w: "sbom_of (\<lambda>v. []) sample_env fs2 (lit ''nodejs'') (canon sample_manifest) = Inr w" "readable w"
    using sample_sbom [of fs2, OF keeps2 sample_entries(1)] by blast
  then obtain fs3 where "write_json fs2 (join_path d (lit ''sbom.json'')) w = Inr fs3"
    by (simp add: write_json_def write_sorted)
  then have "evidence_main (\<lambda>v. []) sample_env sample_release (lit ''nodejs'') [lit ''dist/*''] None = (fs3, Inr (0, Generated d [sample_row]))"
    using sums v fs2(1) w(1) unfolding d_def
    by (intro evidence_runs [OF _ sample_loads(1) _ rows]) (simp_all add: CHOICES_def art)
  then show ?thesis using d by blast
qed

theorem provenance_content_witness:
  "\<exists>fs' data. evidence_main (\<lambda>v. []) sample_env sample_release (lit ''nodejs'') [lit ''dist/*''] None =
      (fs', Inr (0, Generated (lit ''release-evidence/nodejs'') [sample_row])) \<and>
    load_json fs' (lit ''release-evidence/nodejs/provenance.json'') = Inr data \<and>
    json_at data [''source'', ''commit''] = Some (JStr (lit ''c0ffee'')) \<and> json_at data [''source'', ''branch''] = Some (JStr (lit ''main'')) \<and>
    states_artifacts [sample_row] data"
proof -
  obtain fs' where run: "evidence_main (\<lambda>v. []) sample_env sample_release (lit ''nodejs'') [lit ''dist/*''] None =
      (fs', Inr (0, Generated (lit ''release-evidence/nodejs'') [sample_row]))"
    using sample_run by blast
  moreover have "join_path (lit ''release-evidence/nodejs'') (lit ''provenance.json'') = lit ''release-evidence/nodejs/provenance.json''"
    by (simp add: join_path_def ends_with_def lit_def)
  moreover have "states_source sample_env data \<Longrightarrow> json_at data [''source'', ''commit''] = Some (JStr (lit ''c0ffee'')) \<and>
      json_at data [''source'', ''branch''] = Some (JStr (lit ''main''))" for data
    by (simp add: states_source_def sample_env_def env_or_def opt_json_def git_value_def lit_def py_strip_def lstrip_def is_space_def)
  ultimately show ?thesis
    using provenance_content [OF run sample_readable(3)] by auto
qed

section \<open>Evidence for an accepted release\<close>

text \<open>
  The manifest validator runs before the evidence is generated. A manifest it accepts has every
  entry the provenance asks for, and the provenance names the tag that was validated, the
  digest of the file that was read and a version that is the validated one but for blanks around it.
\<close>

lemma dot_get_subscript: "dot_get m k = Inr (Some v) \<longleftrightarrow> subscript m k = Inr v"
  by (auto simp: dot_get_def subscript_def split: json.splits option.splits)

lemma get_found:
  "get_default m k d = Inr v \<Longrightarrow> v \<noteq> d \<Longrightarrow> subscript m k = Inr v"
  "get_value_of m k = Inr v \<Longrightarrow> v \<noteq> JNull \<Longrightarrow> subscript m k = Inr v"
  by (auto simp: get_default_def get_value_of_def bindR_eq_Inr dot_get_subscript [symmetric] split: option.splits)

lemma get_or_empty_found: "get_or_empty m k = Inr v \<Longrightarrow> v \<noteq> JObj [] \<Longrightarrow> subscript m k = Inr v"
  by (auto simp: get_or_empty_def bindR_eq_Inr dot_get_subscript [symmetric] split: option.splits if_splits)

lemma empty_no_version: "re_match SEMVER_RE (py_strip (py_str render (JStr []))) = None"
  by code_simp

lemma provenance_of_accepted:
  assumes "manifest_main render fs MANIFEST expected = Inr ver"
  shows "\<exists>manifest b v snapshot. load_json fs MANIFEST = Inr manifest \<and> read_bytes fs MANIFEST = Inr b
    \<and> py_strip (py_str render v) = ver
    \<and> provenance_of env fs sdk manifest rows =
        Inr (provenance_json env sdk v (JStr (lit ''client-v'' @ ver)) (hexdigest b) snapshot rows)"
proof -
  obtain manifest where m: "load_json fs MANIFEST = Inr manifest"
    "validate_release_version render manifest expected = Inr ver" "validate_protocol_snapshot render fs manifest = Inr ()"
    using assms unfolding manifest_main_def bind_lift by (auto simp: bindR_eq_Inr)
  obtain v where v: "get_default manifest ''release_version'' (JStr []) = Inr v" "ver = py_strip (py_str render v)"
    "re_match SEMVER_RE ver \<noteq> None"
    using m(2) unfolding release_version_iff version_ok_def by blast
  have "v \<noteq> JStr []"
    using v(2,3) empty_no_version [of render] by blast
  note version = get_found(1) [OF v(1) this]
  have tag: "subscript manifest ''tag'' = Inr (JStr (lit ''client-v'' @ ver))"
    using m(2) get_found(2) unfolding release_version_iff version_ok_def by blast
  obtain proto p where "get_or_empty manifest ''protocol_snapshot'' = Inr proto" "get_value_of proto ''path'' = Inr (JStr p)"
    using m(3) unfolding snapshot_hash_iff hash_ok_def by blast
  moreover have "get_value_of (JObj []) ''path'' = Inr JNull"
    by (simp add: get_value_of_def dot_get_def dict_get_def)
  ultimately have "subscript manifest ''protocol_snapshot'' = Inr proto"
    using get_or_empty_found by fastforce
  moreover obtain b where "read_bytes fs MANIFEST = Inr b"
    using m(1) by (auto simp: load_json_def read_text_def bindR_eq_Inr)
  ultimately show ?thesis
    using m(1) v(2) version tag by (auto simp: provenance_of_def sha256_file_eq)
qed

end
