(* ===== verification/Spec2Isabelle.thy ===== *)
theory Spec2Isabelle
  imports Tcp_Threads Http_Api Snapshot_Sync Sdk_Parity Coverage_Check Release_Evidence
begin

text \<open>
  Verification of the Python client of the Ditto cache and of the scripts that guard its
  releases.

  \<^bold>\<open>The program.\<close> \<open>ditto-python-client\<close> talks to a cache server over two transports.
  \<open>tcp_client.py\<close> keeps one socket, optionally with TLS and a token, and exchanges frames: a
  big-endian length of four bytes and a protobuf envelope, written and read by hand in \<open>wire.py\<close>.
  \<open>http_client.py\<close> on \<open>http_client_base.py\<close> sends one HTTP request per call and reads JSON.
  Both check their inputs with \<open>validation.py\<close> and return the classes of \<open>types.py\<close>;
  \<open>client_internal.py\<close> holds the helpers of the atomic operations. Beside the client,
  \<open>contracts/\<close> and \<open>scripts/\<close> check the contracts shared by five clients, the protocol snapshot, the
  policies, the coverage and the release manifest, copy the snapshot from its source and write the
  evidence of a release.

  \<^bold>\<open>Theories.\<close>
  \<^item> \<open>Ditto_Prelude\<close>: results as sums with \<open>bindR\<close>, bit operations as arithmetic, decimal digits,
    the locale \<open>codec\<close>. \<open>Py_Text\<close>: Python strings as code points, \<open>strip\<close>, \<open>in\<close>, UTF-8.
    \<open>Py_Float\<close>: the doubles, rounding and comparison.
    \<open>Py_Json\<close>: \<open>json.loads\<close> (a parser with fuel) and \<open>json.dumps\<close> of flat objects. \<open>Py_Codec\<close>:
    base64, percent-encoding, \<open>int\<close> of a string. \<open>Ditto_Types\<close>: the result classes, error
    codes and exceptions, and methods as functions from a state to a result and a state.
  \<^item> \<open>Wire_Const\<close>, \<open>Wire_Encode\<close>, \<open>Wire_Reader\<close>, \<open>Wire_Decode\<close> are \<open>wire.py\<close> from top to
    bottom: constants, encoders, the cursor class \<open>_Reader\<close> (record \<open>reader\<close>), decoders. \<open>Wire_Layout\<close> states
    the message layouts as data, \<open>Wire_Parse\<close> a parser on lists of bytes that the cursor loops
    refine (locales \<open>reader_op\<close> for the operations of the cursor, \<open>msg_handler\<close> for the decoders), \<open>Wire_Response\<close> and \<open>Wire_Request\<close> the round trips of both directions.
  \<^item> \<open>Validation\<close>: the validators, with the locale \<open>validator\<close> for their contract.
  \<^item> \<open>Tcp_Client\<close>: the whole of \<open>tcp_client.py\<close>. The record \<open>tcp_config\<close> holds what
    \<open>__init__\<close> sets, \<open>tcp_state\<close> the socket attribute, the script of what the network will do and
    the trace of frames sent, sockets opened and closed. \<open>Tcp_Stream\<close>: receiving in any pieces.
    \<open>Tcp_Calls\<close>: the shape of all methods as the locale \<open>client_call\<close>. \<open>Tcp_Api\<close>: calls as
    data. \<open>Tcp_Lifecycle\<close>: the step relation \<open>client_step\<close>, its reachable states, and the locale
    \<open>client_invariant\<close> for what every step keeps; the client as a context manager.
  \<^item> \<open>Py_Thread\<close>: threads that share an object under a \<open>threading.Lock\<close>. A method is a \<open>prog\<close>, whose
    steps are single accesses and the two ends of \<open>with self._lock\<close>; \<open>interleave\<close> lets threads take steps in any
    order. The locale \<open>locked_methods\<close> is the discipline that makes this safe. \<open>Tcp_Threads\<close>: the
    methods of the TCP client as such programs, equal to those of \<open>Tcp_Client\<close> when run alone, and
    the interpretation of the locale.
  \<^item> \<open>Http_Client\<close>: \<open>http_client_base.py\<close>, \<open>client_internal.py\<close> and \<open>http_client.py\<close>. The
    state is the script of replies and the log of requests. \<open>Http_Calls\<close>: the locale \<open>http_call\<close>,
    interpreted for every method. \<open>Http_Wire\<close>: a server's reading of requests. \<open>Http_Api\<close>: properties.
  \<^item> \<open>Script_Base\<close>: files, dictionaries, strings. \<open>Py_Re\<close>: regular expressions as \<open>re\<close>
    matches them. \<open>Sha256\<close>. \<open>Contract_Check\<close>: \<open>validate_contracts.py\<close> and
    \<open>validate_protocol_snapshot.py\<close>. \<open>Sdk_Parity\<close>: \<open>check_sdk_protocol_parity.py\<close>.
    \<open>Repo_Checks\<close>: \<open>validate_repo_hygiene.py\<close>, \<open>validate_client_security_policy.py\<close>,
    \<open>validate_sdk_consistency.py\<close>. \<open>Release_Manifest\<close>: \<open>validate_release_manifest.py\<close>.
  \<^item> \<open>Py_Dumps\<close>: \<open>json.dumps\<close> of any value with sorted keys, \<open>repr\<close> of a float, and the locale
    \<open>canonical\<close> for the normal form that writing produces. \<open>Json_Readable\<close>: every value of a file is
    written so that it reads back. \<open>Snapshot_Sync\<close>: \<open>sync_protocol_snapshot.py\<close>. \<open>Py_Date\<close>:
    \<open>date.fromisoformat\<close>. \<open>Coverage_Check\<close>: \<open>validate_coverage_thresholds.py\<close>, with
    \<open>float\<close> of a string. \<open>Release_Evidence\<close>: \<open>generate_release_evidence.py\<close>, with the files it
    leaves when it stops.
  \<^item> This theory: what spans the components, from a method call through the wire to its result, and the
    agreement of the two transports.

  \<^bold>\<open>What is shown.\<close> On the wire: every valid request is read by the protobuf schema as the request meant; every
  response in range is decoded unchanged; encoders raise exactly on texts without
  UTF-8 form and on frames too long; decoders raise only \<open>ValueError\<close>, skip unknown fields and compute what
  a parser on byte lists computes. On the TCP client: a call sends one frame
  and returns what its response says, however the network cuts the stream; calls that change data are
  sent at most once, \<open>ping\<close> and \<open>get\<close> at most twice; events and responses keep their order; no socket
  is used after it was closed; TLS sessions are verified; a token is presented before anything else; calls of
  several threads have the effects and results of the same calls one after the other, in an order that keeps the order in
  time of calls that do not overlap, with no deadlock and one thread at a time on the socket; the
  behaviours that do not hold are stated as they are (a failed authentication keeps
  the socket, an event shifts the responses). On the HTTP client: one request per call that
  reads back as the call, values and errors of the server returned as sent, verification
  of TLS gated by the environment, credentials sent unchanged. On the scripts: each
  check accepts exactly what a declarative specification accepts; the snapshot check compares
  data, not texts, and succeeds after a synchronisation; the evidence of a release is three files with the sizes
  and digests of the artifacts, its provenance reads back as a document that states the source, the manifest and the artifacts, and its package identifiers are
  well formed (though not unique).

  \<^bold>\<open>Bounds and fuel.\<close> Loops are recursive functions with termination proofs; the cursor loops measure
  what remains of the buffer, and \<open>decoder_loop_ends\<close> states their bound. The JSON parser has fuel \<open>2 * length + 1\<close>, which
  \<open>json_fuel_enough\<close> shows to be as good as more. The network and the replies are
  finite scripts; an exhausted one is a failed connection. A schedule is a finite list of threads; that runs end
  is the well-foundedness of the steps, by a multiset order on what the threads have left. Integers are unbounded as in
  Python, bytes are 8-bit words, SHA-256 works on 32-bit words; the 64-bit
  masking of the encoders is written out.

  \<^bold>\<open>Not modelled.\<close> Time: time-outs are failures of the script, \<open>settimeout\<close> and socket options have
  no effect. Threads: a step of a thread is a whole access to the socket, the fairness of the scheduler and of the
  lock is not assumed, and killed threads are not represented. \<open>ssl\<close>, \<open>socket\<close> and \<open>urllib\<close> beyond the calls the
  clients make: the handshake, redirects and proxies are part of what the scripts of the network
  say. TLS over a socket fails only with an \<open>OSError\<close>, whose subclass \<open>ssl.SSLError\<close> is; the \<open>ValueError\<close> or \<open>TypeError\<close> that \<open>ssl\<close> raises for a host name or
  file name it cannot take is not represented, and a session has no field for the verification mode, which
  \<open>create_default_context\<close> sets and the TCP client leaves as it is. The recursion limit and the limit on the digits of integers of the interpreter. \<open>lower\<close>,
  \<open>upper\<close> and \<open>capitalize\<close> outside ASCII. The texts that scripts print are constructors with the same
  arguments; the rendering of floats and containers by \<open>str\<close> is a parameter.
  \<open>argparse\<close> beyond the values it passes on. The clock, \<open>git\<close>, the environment variables and \<open>glob\<close> are inputs
  of the evidence; paths are joined as they are written, without \<open>resolve\<close>, and directories are not
  represented, so \<open>mkdir\<close> has no effect. The package interface \<open>__init__.py\<close> only names exports. The clients in other languages are other programs.
\<close>

section \<open>A call from end to end\<close>

lemma call_end_to_end_lemma:
  assumes "call_check cfg a = Inr ()" "call_request a = Inr q" "valid_request q"
    and "valid_response resp" "int (length (response_envelope resp)) \<le> max_frame_bytes cfg"
    and "sock s = Some c" "can_send c" "delivers c (frame (response_envelope resp) @ ys) tail"
  obtains fr c' where "perform cfg a s = (call_branch a resp, s\<lparr>sock := Some c', trace := trace s @ [Sent (cid c) fr]\<rparr>)"
    "server_view fr = Inr (as_sent q)" "can_send c'" "delivers c' ys tail" "cid c' = cid c"
proof -
  have enc: "bindR (call_request a) encode_request = Inr (frame (request_envelope q))"
    using server_view_encode(1) [OF assms(3)] by (simp add: assms(2))
  have fits: "fits_frame (response_envelope resp)"
    using assms(4) by (simp add: valid_response_def)
  show ?thesis
    using api.answered [OF assms(1) enc assms(6-8) fits assms(5)] decode_server_response [OF assms(4)]
      server_view_encode(2) [OF assms(3)] that
    by auto
qed

text \<open>
  C1: end to end. When the inputs pass the checks, the client is connected and the server
  answers with any response, in any pieces, then each public method sends exactly one frame,
  which the server reads as the request that was asked for (a delta outside 64 bits wrapped), and returns (or raises) what the
  method makes of exactly that response, leaving the client connected and the stream at the
  next frame.
\<close>

theorem call_end_to_end:
  assumes "call_check cfg a = Inr ()" "call_request a = Inr q" "valid_request q"
    and "valid_response resp" "int (length (response_envelope resp)) \<le> max_frame_bytes cfg"
    and "sock s = Some c" "can_send c" "delivers c (frame (response_envelope resp) @ ys) tail"
  shows "\<exists>fr c'. perform cfg a s = (call_branch a resp, s\<lparr>sock := Some c', trace := trace s @ [Sent (cid c) fr]\<rparr>) \<and>
    server_view fr = Inr (as_sent q) \<and> delivers c' ys tail \<and> cid c' = cid c"
  using call_end_to_end_lemma [OF assms] by metis

text \<open>The sequence of calls of a program, each run whether or not the one before it raised.\<close>

fun perform_all :: "tcp_config \<Rightarrow> api_call list \<Rightarrow> tcp_state \<Rightarrow> api_result result list \<times> tcp_state" where
  "perform_all cfg [] s = ([], s)"
| "perform_all cfg (a # as) s =
    (case perform cfg a s of (r, s1) \<Rightarrow> (case perform_all cfg as s1 of (rs, s2) \<Rightarrow> (r # rs, s2)))"

definition answerable :: "tcp_config \<Rightarrow> api_call \<Rightarrow> ClientResponse \<Rightarrow> bool" where
  "answerable cfg a resp \<longleftrightarrow> call_check cfg a = Inr () \<and> (\<exists>q. call_request a = Inr q \<and> valid_request q) \<and>
    valid_response resp \<and> int (length (response_envelope resp)) \<le> max_frame_bytes cfg"

abbreviation response_stream :: "ClientResponse list \<Rightarrow> bytes" where
  "response_stream resps \<equiv> concat (map (\<lambda>r. frame (response_envelope r)) resps)"

definition asked :: "api_call \<Rightarrow> request result" where
  "asked a = map_result as_sent (call_request a)"

lemma perform_all_lemma:
  "list_all2 (answerable cfg) as resps \<Longrightarrow> sock s = Some c \<Longrightarrow> can_send c \<Longrightarrow>
   delivers c (response_stream resps @ ys) tail \<Longrightarrow>
   \<exists>s' c' evs. perform_all cfg as s = (map2 call_branch as resps, s') \<and> sock s' = Some c' \<and> cid c' = cid c \<and>
     delivers c' ys tail \<and> trace s' = trace s @ evs \<and> map server_view (sent_frames evs) = map asked as"
proof (induction as resps arbitrary: s c rule: list_all2_induct)
  case Nil
  then show ?case by auto
next
  case (Cons a as resp resps)
  obtain q where q: "call_request a = Inr q" "valid_request q" "call_check cfg a = Inr ()" "valid_response resp"
      "int (length (response_envelope resp)) \<le> max_frame_bytes cfg"
    using Cons.hyps by (auto simp: answerable_def)
  have d: "delivers c (frame (response_envelope resp) @ response_stream resps @ ys) tail"
    using Cons.prems(3) by simp
  obtain fr c1 where c1: "perform cfg a s = (call_branch a resp, s\<lparr>sock := Some c1, trace := trace s @ [Sent (cid c) fr]\<rparr>)"
      "server_view fr = Inr (as_sent q)" "can_send c1" "delivers c1 (response_stream resps @ ys) tail" "cid c1 = cid c"
    by (rule call_end_to_end_lemma [OF q(3,1,2,4,5) Cons.prems(1,2) d])
  let ?s = "s\<lparr>sock := Some c1, trace := trace s @ [Sent (cid c) fr]\<rparr>"
  obtain s' c' evs where "perform_all cfg as ?s = (map2 call_branch as resps, s')" "sock s' = Some c'" "cid c' = cid c1"
      "delivers c' ys tail" "trace s' = trace ?s @ evs" "map server_view (sent_frames evs) = map asked as"
    using Cons.IH [of ?s c1] c1(3,4) by auto
  with c1 q(1) show ?case
    by (intro exI [of _ s'] exI [of _ c'] exI [of _ "Sent (cid c) fr # evs"]) (simp add: asked_def map_result_def)
qed

text \<open>
  A program of any number of calls, answered by the server one response each, gets the
  responses in the order of its calls, every one from the call that asked for it, over the one
  connection; the server sees the requests in the order of the calls.
\<close>

theorem calls_in_order:
  assumes "list_all2 (answerable cfg) as resps" "sock s = Some c" "can_send c"
    and "delivers c (response_stream resps @ ys) tail"
  shows "\<exists>s' c' evs. perform_all cfg as s = (map2 call_branch as resps, s') \<and> sock s' = Some c' \<and> cid c' = cid c \<and>
    delivers c' ys tail \<and> trace s' = trace s @ evs \<and> map server_view (sent_frames evs) = map asked as"
  using perform_all_lemma [OF assms] .

lemma exec_requests:
  "exec (method_spec cfg) (map CallRequest as) s =
    (map (map_result Answer) (fst (perform_all cfg as s)), snd (perform_all cfg as s))"
proof (induction as arbitrary: s)
  case (Cons a as)
  have "method_spec cfg (CallRequest a) s = (map_result Answer (fst (perform cfg a s)), snd (perform cfg a s))"
    by (auto simp: mapS_def thenS_def returnS_def map_result_def split: prod.split sum.split)
  with Cons show ?case by (simp add: split_beta)
qed simp

text \<open>Every call of a history of request methods is one.\<close>

lemma history_requests:
  assumes "explains spec s (map (map CallRequest) calls) S h" and "finished S" and "length (threads S) = length calls"
  shows "\<exists>order. map (fst \<circ> snd) h = map (CallRequest \<circ> snd) order \<and> map fst h = map fst order
    \<and> list_all (\<lambda>i. own i order = calls ! i) [0..<length calls]"
proof -
  define a_of where "a_of m = (case m of CallRequest a \<Rightarrow> a | _ \<Rightarrow> Ping)" for m
  define order where "order = map (\<lambda>e. (fst e, a_of (fst (snd e)))) h"
  have own: "map fst (own i h) = map CallRequest (calls ! i)" if "i < length calls" for i
    using explains_finished(1) [OF assms(1,2)] assms(3) that by simp
  have "fst (snd e) = CallRequest (a_of (fst (snd e)))" if "e \<in> set h" for e
  proof -
    have "fst e < length calls" using assms(1) that by (auto simp: explains_def list_all_iff)
    moreover have "fst (snd e) \<in> set (map fst (own (fst e) h))" using that by (force simp: own_def)
    ultimately show ?thesis by (auto simp: own a_of_def)
  qed
  then have "map (fst \<circ> snd) h = map (CallRequest \<circ> snd) order" "map fst h = map fst order"
    by (simp_all add: order_def comp_def)
  moreover have "own i order = calls ! i" if "i < length calls" for i
  proof -
    have "own i order = map a_of (map fst (own i h))"
      using own_map [of i "a_of \<circ> fst" h] by (simp add: order_def comp_def)
    then show ?thesis by (simp add: own [OF that] a_of_def comp_def)
  qed
  ultimately show ?thesis by (intro exI [of _ order]) (simp add: list_all_iff)
qed

lemma order_answerable:
  assumes "list_all (list_all (\<lambda>a. list_all (answerable cfg a) resps)) calls"
    and "list_all (\<lambda>i. own i order = calls ! i) [0..<length calls]"
    and "list_all (\<lambda>k. k < length calls) (map fst order)"
    and "e \<in> set order" "resp \<in> set resps"
  shows "answerable cfg (snd e) resp"
proof -
  have i: "fst e < length calls" using assms(3,4) by (auto simp: list_all_iff)
  have "snd e \<in> set (own (fst e) order)" using assms(4) by (auto simp: own_def)
  also have "own (fst e) order = calls ! fst e" using assms(2) i by (simp add: list_all_iff)
  finally show ?thesis using assms(1,5) i by (meson list_all_iff nth_mem)
qed

text \<open>
  C5: threads and the wire together. Any number of threads make calls on one connected client,
  and the server sends one response to each request, whichever comes. When all have returned, there is
  an order of all calls, and of no others, in which the server has seen the requests; the k-th call of it got the
  k-th response and nothing of another; each thread has its calls in the order it made them, with
  those results.
\<close>

theorem threads_in_order:
  assumes "list_all (list_all (\<lambda>a. list_all (answerable cfg a) resps)) calls" "length resps = length (concat calls)"
    and "sock s = Some c" "can_send c" "delivers c (response_stream resps @ ys) tail"
    and "S = interleave (method_prog cfg) is (launch s (map (map CallRequest) calls))" "finished S"
  shows "\<exists>order evs. length order = length resps \<and> list_all (\<lambda>i. own i order = calls ! i
        \<and> own i (zip (map fst order) (map (map_result Answer) (map2 call_branch (map snd order) resps))) = outcomes (threads S ! i))
      [0..<length calls]
    \<and> trace (shared S) = trace s @ evs \<and> map server_view (sent_frames evs) = map asked (map snd order)"
proof -
  let ?jobs = "map (map CallRequest) calls"
  have n: "length (threads S) = length ?jobs"
    using assms(6) client.thread_count by simp
  have free: "\<not> locked S"
    using client.excludes [of cfg "is" s ?jobs] finished_outside [OF assms(7)] by (auto simp: assms(6) split: if_splits)
  obtain h where h: "explains (method_spec cfg) s ?jobs S h"
    unfolding assms(6) using client.linearises by blast
  obtain order where order: "map (fst \<circ> snd) h = map (CallRequest \<circ> snd) order" "map fst h = map fst order"
      "list_all (\<lambda>i. own i order = calls ! i) [0..<length calls]"
    using history_requests [OF h assms(7)] n by auto
  have len: "length order = length resps"
    using explains_all [OF h assms(7) n] assms(2) arg_cong [OF order(2), of length] by (simp add: length_concat comp_def)
  have "list_all (\<lambda>k. k < length calls) (map fst order)"
    using h by (simp add: explains_def order(2) [symmetric] list.pred_map comp_def)
  then have ans: "list_all2 (answerable cfg) (map snd order) resps"
    using order_answerable [OF assms(1) order(3)] len by (simp add: list_all2_conv_all_nth list_all_iff)
  obtain s' c' evs where run: "perform_all cfg (map snd order) s = (map2 call_branch (map snd order) resps, s')"
      "trace s' = trace s @ evs" "map server_view (sent_frames evs) = map asked (map snd order)"
    using perform_all_lemma [OF ans assms(3-5)] by blast
  have "exec (method_spec cfg) (map CallRequest (map snd order)) s = (map (snd \<circ> snd) h, shared S)"
    using h free by (auto simp: explains_def order(1) [symmetric])
  then have results: "map (snd \<circ> snd) h = map (map_result Answer) (map2 call_branch (map snd order) resps)" "shared S = s'"
    unfolding exec_requests run(1) by simp_all
  have "own i (zip (map fst order) (map (map_result Answer) (map2 call_branch (map snd order) resps))) = outcomes (threads S ! i)"
    if "i < length calls" for i
  proof -
    have "own i (zip (map fst h) (map (snd \<circ> snd) h)) = map snd (own i h)"
      using own_map [of i snd h] by (simp add: zip_map_map zip_same_conv_map comp_def)
    with explains_finished(2) [OF h assms(7) n] that show ?thesis
      unfolding results(1) [symmetric] order(2) [symmetric] by simp
  qed
  with order(3) run results(2) len show ?thesis
    by (intro exI [of _ order] exI [of _ evs]) (simp add: list_all_iff)
qed

text \<open>
  C4: what the server does not get an answer out for is not sent again: a call that is not
  \<open>ping\<close> or \<open>get\<close> puts its frame on the wire at most once, on the connection it found, and
  opens no other, whatever fails and whether or not the client reconnects on its own.
\<close>

theorem mutation_at_most_once:
  assumes "\<not> read_only a"
  shows "\<exists>evs. trace (snd (perform cfg a s)) = trace s @ evs \<and>
    (evs = [] \<or> (\<exists>c fr. sock s = Some c \<and> bindR (call_request a) encode_request = Inr fr \<and>
      (evs = [Sent (cid c) fr] \<or> evs = [Sent (cid c) fr, Closed (cid c)])))"
  using assms by (rule api.once)

theorem mutation_at_most_once_witness:
  "\<exists>evs. trace (snd (perform sample_config (Incr (lit ''n'') 1 0 None) (sample_state []))) = [Opened 0] @ evs \<and>
    length (sent_frames evs) \<le> 1"
proof -
  have "\<not> read_only (Incr (lit ''n'') 1 0 None)" by simp
  from mutation_at_most_once [OF this, of sample_config "sample_state []"] show ?thesis
    by (auto simp: sample_state_def)
qed

text \<open>
  C15: \<open>ping\<close> and \<open>get\<close> are retried at most once, and only by a client configured to
  reconnect: the frames of any call are none, the request, or, for those two on such a
  client, the request, the authentication of the new connection, and the request again.
\<close>

theorem retry_bounded:
  "\<exists>evs. trace (snd (perform cfg a s)) = trace s @ evs \<and>
    (sent_frames evs = [] \<or> (\<exists>fr. bindR (call_request a) encode_request = Inr fr \<and>
      (sent_frames evs = [fr] \<or> read_only a \<and> auto_reconnect cfg \<and>
        (sent_frames evs = fr # auth_frames cfg \<or> sent_frames evs = fr # auth_frames cfg @ [fr]))))"
  by (rule api.transmissions [of cfg a s]) blast

text \<open>
  Inputs the strict checks refuse reach neither the encoder nor the network: the call
  raises the \<open>ValueError\<close> of the check and the client is exactly as before.
\<close>

theorem refused_touches_nothing:
  assumes "call_check cfg a = Inl e"
  shows "perform cfg a s = (Inl e, s) \<and> (\<exists>m. e = ValueError m)"
  using assms api.refused [OF assms]
  by (cases a) (auto dest: core.refusal pattern.refusal)

theorem refused_touches_nothing_witness:
  "\<exists>e. perform (sample_config\<lparr>strict_mode := True\<rparr>) (Get [] None) (sample_state []) = (Inl e, sample_state []) \<and>
    (\<exists>m. e = ValueError m)"
proof -
  have "call_check (sample_config\<lparr>strict_mode := True\<rparr>) (Get [] None) =
      Inl (ValueError (lit ''Invalid get request: key must not be empty.''))"
    by (simp add: validate_core_inputs_def)
  from refused_touches_nothing [OF this] show ?thesis by blast
qed

text \<open>
  In strict mode the checks leave the encoder nothing to refuse: the texts of any
  request that passes them have a UTF-8 form, so encoding cannot raise
  \<open>UnicodeEncodeError\<close>.
\<close>

theorem strict_inputs_encode:
  assumes "strict_mode cfg" "call_check cfg a = Inr ()" "call_request a = Inr q"
  shows "encode_request q \<noteq> Inl UnicodeEncodeError"
proof -
  have "request_texts_ok q"
    using assms
    by (cases a)
       (auto simp: core.strict_iff pattern.strict_iff bindR_eq_Inr strict_ns_encodable
          dest: core.subject_encodable pattern.subject_encodable)
  then show ?thesis by (simp add: encode_request_eq)
qed

theorem strict_inputs_encode_witness:
  "encode_request (GetReq (lit ''k'') None) \<noteq> Inl UnicodeEncodeError"
proof (rule strict_inputs_encode)
  show "call_check (sample_config\<lparr>strict_mode := True\<rparr>) (Get (lit ''k'') None) = Inr ()"
    by (simp add: core.strict_iff strict_key_def strict_ns_def lit_def token_char_def)
qed simp_all

section \<open>Losing and regaining the connection\<close>

lemma call_branch_no_os_error: "call_branch a resp = Inl e \<Longrightarrow> \<not> is_os_error e"
  by (cases a; cases resp)
     (auto simp: map_result_def bindR_eq_Inl get_branch_def set_branch_def set_nx_branch_def incr_branch_def
        delete_branch_def delete_by_pattern_branch_def set_ttl_by_pattern_branch_def ack_branch_def unexpected_def
        split: if_splits)

lemma encode_no_os_error: "bindR (call_request a) encode_request = Inl e \<Longrightarrow> \<not> is_os_error e"
proof -
  have "\<not> is_os_error e" if "encode_request q = Inl e" for q
    using that by (cases "request_texts_ok q") (auto simp: encode_request_eq encode_request_bad_text split: if_splits)
  moreover have "\<not> is_os_error e" if "call_request a = Inl e"
    using that by (cases a) (auto simp: bindR_eq_Inl raw_value_def py_encode_def split: py_value.splits if_splits)
  moreover assume "bindR (call_request a) encode_request = Inl e"
  ultimately show ?thesis by (auto simp: bindR_eq_Inl)
qed

lemma check_no_os_error: "call_check cfg a = Inl e \<Longrightarrow> \<not> is_os_error e"
  by (cases a) (auto dest: core.refusal pattern.refusal)

text \<open>
  C16: a mutating call on a connected client ends in one of three ways: the connection is kept and the call
  returns or raises something that is not a connection error; or the connection is lost, the
  socket is closed, and the call says that the outcome is unknown; or, after the frame was sent, shutting the
  socket down fails for another reason than that it is gone already, and the call raises that error and
  keeps the socket.
\<close>

theorem mutation_outcome:
  assumes "\<not> read_only a" "sock s = Some c" "perform cfg a s = (r, s')"
  shows "sock s' = None \<and> r = Inl outcome_unknown \<and> (\<exists>fr. trace s' = trace s @ [Sent (cid c) fr, Closed (cid c)]) \<or>
    (\<exists>c'. sock s' = Some c' \<and> cid c' = cid c \<and>
      ((\<forall>e. r = Inl e \<longrightarrow> \<not> is_os_error e) \<or>
       (\<exists>n evs fr. shut c = Failed n # evs \<and> \<not> already_gone n \<and> r = Inl (OSError n) \<and> trace s' = trace s @ [Sent (cid c) fr])))"
proof (cases "bindR (call_check cfg a) (\<lambda>_. bindR (call_request a) encode_request)")
  case (Inl e)
  then have "s' = s" "r = Inl e" using assms(3) by (simp_all add: api.call_steps)
  moreover have "\<not> is_os_error e"
    using Inl by (cases "call_check cfg a") (auto dest: check_no_os_error encode_no_os_error)
  ultimately show ?thesis using assms(2) by auto
next
  case (Inr fr)
  obtain x where x: "send cfg fr False s = (x, s')" "r = bindR x (call_branch a)"
    using assms(1,3) Inr by (cases "send cfg fr False s") (simp add: api.call_steps)
  from x(1) assms(2) show ?thesis
  proof (cases rule: send_once_cases)
    case (kept c')
    show ?thesis
    proof (cases x)
      case (Inl e)
      with kept(3) [OF Inl] x(2) show ?thesis using kept(1,2) by auto
    next
      case (Inr resp)
      with x(2) have "r = Inl e \<Longrightarrow> \<not> is_os_error e" for e by (auto dest: call_branch_no_os_error)
      with kept(1,2) show ?thesis by auto
    qed
  next
    case lost
    with x(2) show ?thesis by auto
  qed
qed

text \<open>What the server sends before the first response of a new connection.\<close>

definition auth_stream :: "tcp_config \<Rightarrow> bytes" where
  "auth_stream cfg = (if auth_token cfg = None then [] else frame (response_envelope (RSimple ''AuthOk'')))"

lemma auth_accepted:
  assumes "sock s = Some c" "can_send c" "delivers c (auth_stream cfg @ ys) tail"
    and "\<forall>token. auth_token cfg = Some token \<longrightarrow> valid_request (AuthReq token)"
    and "int (length (response_envelope (RSimple ''AuthOk''))) \<le> max_frame_bytes cfg"
  obtains c' where "authenticate cfg s = (Inr (), s\<lparr>sock := Some c', trace := trace s @ map (Sent (cid c)) (auth_frames cfg)\<rparr>)"
    "can_send c'" "delivers c' ys tail" "cid c' = cid c"
proof (cases "auth_token cfg")
  case None
  with assms show ?thesis
    by (intro that [of c]) (simp_all add: authenticate_eq auth_frames_def auth_stream_def returnS_def)
next
  case (Some token)
  let ?ok = "RSimple ''AuthOk''"
  have enc: "encode_auth token = Inr (frame (request_envelope (AuthReq token)))"
    using server_view_encode(1) [of "AuthReq token"] assms(4) Some by simp
  have fits: "fits_frame (response_envelope ?ok)"
    using sample_responses_valid(1) by (simp add: valid_response_def)
  obtain c' where c': "exchange cfg (frame (request_envelope (AuthReq token))) s = (Inr ?ok,
      s\<lparr>sock := Some c', trace := trace s @ [Sent (cid c) (frame (request_envelope (AuthReq token)))]\<rparr>)"
      "can_send c'" "delivers c' ys tail" "cid c' = cid c"
    using exchange_ok [OF assms(1,2) assms(3) [unfolded auth_stream_def Some, simplified] fits assms(5)]
      decode_server_response [OF sample_responses_valid(1)] by metis
  with Some enc show ?thesis
    by (intro that [of c']) (simp_all add: authenticate_eq auth_frames_def thenS_def liftR_def auth_branch_def returnS_def)
qed

text \<open>
  C19: a lost connection is regained: when the server has closed the connection of a client
  that reconnects on its own, and the old socket can be shut down or is gone, \<open>ping\<close> and \<open>get\<close> close it, open the next
  one, with TLS if configured, present the token if there is one and have it accepted, send the request there and return what they
  make of the response that arrives on it.
\<close>

theorem reconnect_recovers:
  assumes "read_only a" "auto_reconnect cfg" "call_check cfg a = Inr ()" "call_request a = Inr q" "valid_request q"
    and "sock s = Some c" "can_send c" "inbound c = RecvData [] # evs" "shut_ok c"
    and "dials s = Accepted p # ds" "wrap_tls cfg p = Inr sess"
    and "\<forall>token. auth_token cfg = Some token \<longrightarrow> valid_request (AuthReq token)"
    and "int (length (response_envelope (RSimple ''AuthOk''))) \<le> max_frame_bytes cfg"
    and "can_send (new_conn s p sess)"
    and "delivers (new_conn s p sess) (auth_stream cfg @ frame (response_envelope resp) @ ys) tail"
    and "valid_response resp" "int (length (response_envelope resp)) \<le> max_frame_bytes cfg"
  shows "\<exists>fr s'. perform cfg a s = (call_branch a resp, s') \<and> server_view fr = Inr (as_sent q) \<and>
    trace s' = trace s @ [Sent (cid c) fr, Closed (cid c), Opened (next_cid s)]
      @ map (Sent (next_cid s)) (auth_frames cfg) @ [Sent (next_cid s) fr]"
proof -
  let ?fr = "frame (request_envelope q)" and ?c3 = "new_conn s p sess"
  obtain c1 where ex1: "exchange cfg ?fr s = (Inl (ConnectionError (lit ''Connection closed by server.'')),
      s\<lparr>sock := Some c1, trace := trace s @ [Sent (cid c) ?fr]\<rparr>)" and c1: "cid c1 = cid c" "shut c1 = shut c"
    by (rule exchange_eof [OF assms(6-8)])
  define s1 where "s1 = s\<lparr>sock := Some c1, trace := trace s @ [Sent (cid c) ?fr]\<rparr>"
  define s2 where "s2 = drop_sock c1 s1"
  define s3 where "s3 = (dialled s2 ds)\<lparr>sock := Some ?c3\<rparr>"
  have close: "close_locked s1 = (Inr (), s2)"
    using assms(9) c1(2) unfolding s2_def by (intro close_locked_ok) (simp_all add: shut_ok_def s1_def)
  have conn: "connect_locked cfg s2 = authenticate cfg s3" "sock s3 = Some ?c3"
    using assms(10,11)
    by (simp_all add: connect_locked_def s3_def s2_def s1_def drop_sock_def new_conn_def)
  have tr: "trace s3 = trace s @ [Sent (cid c) ?fr, Closed (cid c), Opened (next_cid s)]" "cid ?c3 = next_cid s"
    using c1 by (simp_all add: s3_def s2_def s1_def drop_sock_def dialled_def new_conn_def)
  obtain c4 where c4: "authenticate cfg s3 = (Inr (), s3\<lparr>sock := Some c4, trace := trace s3 @ map (Sent (cid ?c3)) (auth_frames cfg)\<rparr>)"
      "can_send c4" "delivers c4 (frame (response_envelope resp) @ ys) tail" "cid c4 = cid ?c3"
    by (rule auth_accepted [OF conn(2) assms(14,15,12,13)])
  define s4 where "s4 = s3\<lparr>sock := Some c4, trace := trace s3 @ map (Sent (cid ?c3)) (auth_frames cfg)\<rparr>"
  have s4: "sock s4 = Some c4" by (simp add: s4_def)
  have fits: "fits_frame (response_envelope resp)" using assms(16) by (simp add: valid_response_def)
  obtain c5 where ex2: "exchange cfg ?fr s4 = (Inr resp, s4\<lparr>sock := Some c5, trace := trace s4 @ [Sent (cid c4) ?fr]\<rparr>)"
    using exchange_ok [OF s4 c4(2,3) fits assms(17)] decode_server_response [OF assms(16)] by metis
  have "send cfg ?fr True s = exchange cfg ?fr s4"
    by (rule send_retried [OF assms(6) ex1 [folded s1_def] _ close assms(2)]) (simp_all add: conn(1) c4(1) s4 s4_def [symmetric])
  then have "perform cfg a s = (call_branch a resp, s4\<lparr>sock := Some c5, trace := trace s4 @ [Sent (cid c4) ?fr]\<rparr>)"
    using assms(1,3,4) server_view_encode(1) [OF assms(5)] ex2 by (simp add: api.call_steps)
  then show ?thesis
    using server_view_encode(2) [OF assms(5)] tr c4(4) by (auto simp: s4_def)
qed

section \<open>Responses and events\<close>

text \<open>The response types each call accepts; \<open>ping\<close> only compares the type.\<close>

fun expects :: "api_call \<Rightarrow> string set" where
  "expects Ping = UNIV"
| "expects (Get k ns) = {''NotFound'', ''Value''}"
| "expects (Set k v ttl ns) = {''Ok''}"
| "expects (SetNx k v ttl ns) = {''SetNx''}"
| "expects (Incr k d ttl ns) = {''Counter''}"
| "expects (Delete k ns) = {''Deleted'', ''NotFound''}"
| "expects (DeleteByPattern p ns) = {''PatternDeleted''}"
| "expects (SetTtlByPattern p ttl ns) = {''PatternTtlUpdated''}"
| "expects (Watch k ns) = {''Watching''}"
| "expects (Unwatch k ns) = {''Unwatched''}"

lemmas branch_defs = map_result_def get_branch_def set_branch_def set_nx_branch_def incr_branch_def
  delete_branch_def delete_by_pattern_branch_def set_ttl_by_pattern_branch_def ack_branch_def

lemma branch_unexpected:
  "response_range resp \<Longrightarrow> resp_type resp \<notin> expects a \<Longrightarrow> resp_type resp \<noteq> ''Error'' \<Longrightarrow>
   call_branch a resp = Inl (unexpected resp)"
  by (cases a; cases resp) (auto simp: branch_defs)

text \<open>
  What a call makes of a response is decided by its type alone: a type the call
  expects gives a result; a server error raises \<open>DittoError\<close> with the server's code; any
  other type raises the \<open>RuntimeError\<close> that names it.
\<close>

theorem responses_classified:
  assumes "response_range resp"
  shows "if resp_type resp \<in> expects a then \<exists>x. call_branch a resp = Inr x
    else if resp_type resp = ''Error'' then \<exists>code m. resp = RError code m \<and> call_branch a resp = Inl (DittoError (Code code) (StrOf resp))
    else call_branch a resp = Inl (unexpected resp)"
proof (cases "resp_type resp \<in> expects a \<or> resp_type resp = ''Error''")
  case True
  with assms show ?thesis
    by (cases a; cases resp) (auto simp: branch_defs)
qed (use assms branch_unexpected in auto)

theorem responses_classified_witness:
  "call_branch (Get (lit ''k'') None) (RError RATE_LIMITED []) = Inl (DittoError (Code RATE_LIMITED) (StrOf (RError RATE_LIMITED [])))"
  using responses_classified [of "RError RATE_LIMITED []" "Get (lit ''k'') None"] by (simp add: encodable_def)

text \<open>Waiting for a number of watch events.\<close>

fun wait_events :: "tcp_config \<Rightarrow> nat \<Rightarrow> DittoWatchEvent list op" where
  "wait_events cfg 0 = returnS []"
| "wait_events cfg (Suc n) = thenS (tcp_wait_watch_event cfg) (\<lambda>ev. thenS (wait_events cfg n) (\<lambda>evs. returnS (ev # evs)))"

definition event_response :: "DittoWatchEvent \<Rightarrow> ClientResponse" where
  "event_response ev = RWatchEvent (we_key ev) (we_value ev) (we_version ev)"

definition deliverable :: "tcp_config \<Rightarrow> ClientResponse \<Rightarrow> bool" where
  "deliverable cfg resp \<longleftrightarrow> valid_response resp \<and> int (length (response_envelope resp)) \<le> max_frame_bytes cfg"

lemma wait_one:
  assumes "sock s = Some c" "delivers c (frame (response_envelope (event_response ev)) @ ys) tail"
    and "deliverable cfg (event_response ev)"
  obtains c' where "tcp_wait_watch_event cfg s = (Inr ev, s\<lparr>sock := Some c'\<rparr>)" "delivers c' ys tail"
proof -
  have ok: "fits_frame (response_envelope (event_response ev))"
      "decode_response (response_envelope (event_response ev)) = Inr (event_response ev)"
      "int (length (response_envelope (event_response ev))) \<le> max_frame_bytes cfg"
    using assms(3) decode_server_response by (auto simp: deliverable_def valid_response_def)
  obtain c' where "recv_response cfg s = (Inr (event_response ev), s\<lparr>sock := Some c'\<rparr>)" "delivers c' ys tail"
    using recv_response_frame [OF assms(1,2) ok(1,3)] ok(2) by auto
  with assms(1) that show ?thesis
    by (simp add: tcp_wait_watch_event_def thenS_def liftR_def event_response_def watch_event_branch_def)
qed

lemma wait_events_lemma:
  "list_all (\<lambda>ev. deliverable cfg (event_response ev)) evs \<Longrightarrow> sock s = Some c \<Longrightarrow>
   delivers c (response_stream (map event_response evs) @ ys) tail \<Longrightarrow>
   \<exists>c'. wait_events cfg (length evs) s = (Inr evs, s\<lparr>sock := Some c'\<rparr>) \<and> delivers c' ys tail"
proof (induction evs arbitrary: s c)
  case Nil
  then show ?case by (intro exI [of _ c]) (simp add: returnS_def)
next
  case (Cons ev evs)
  have d: "delivers c (frame (response_envelope (event_response ev)) @ response_stream (map event_response evs) @ ys) tail"
    using Cons.prems(3) by simp
  obtain c1 where c1: "tcp_wait_watch_event cfg s = (Inr ev, s\<lparr>sock := Some c1\<rparr>)"
      "delivers c1 (response_stream (map event_response evs) @ ys) tail"
    using wait_one [OF Cons.prems(2) d] Cons.prems(1) by auto
  obtain c' where "wait_events cfg (length evs) (s\<lparr>sock := Some c1\<rparr>) = (Inr evs, s\<lparr>sock := Some c'\<rparr>)" "delivers c' ys tail"
    using Cons.IH [of "s\<lparr>sock := Some c1\<rparr>" c1] Cons.prems(1) c1(2) by auto
  with c1(1) show ?case by (intro exI [of _ c']) (simp add: thenS_def returnS_def)
qed

text \<open>
  C38: watch events that the server sends one after the other, in any pieces, are returned
  by as many calls of \<open>wait_watch_event\<close> in the order they were sent, with the key, the
  value (or its absence) and the version they were sent with, and nothing is sent.
\<close>

theorem events_in_order:
  assumes "list_all (\<lambda>ev. deliverable cfg (event_response ev)) evs" "sock s = Some c"
    and "delivers c (response_stream (map event_response evs) @ ys) tail"
  shows "\<exists>c'. wait_events cfg (length evs) s = (Inr evs, s\<lparr>sock := Some c'\<rparr>) \<and> delivers c' ys tail"
  using wait_events_lemma [OF assms] .

text \<open>
  C40: a watch event that arrives before the response to a call is taken for that response:
  the call raises \<open>RuntimeError\<close>, the connection stays open, and the next call is
  answered with the response that belongs to the call before it.
\<close>

theorem event_shifts_responses:
  assumes "list_all2 (answerable cfg) [a, a'] [RWatchEvent k v n, resp]" "a \<noteq> Ping"
    and "sock s = Some c" "can_send c"
    and "delivers c (response_stream [RWatchEvent k v n, resp] @ ys) tail"
  shows "\<exists>s'. perform_all cfg [a, a'] s = ([Inl (unexpected (RWatchEvent k v n)), call_branch a' resp], s') \<and> sock s' \<noteq> None"
proof -
  have "call_branch a (RWatchEvent k v n) = Inl (unexpected (RWatchEvent k v n))"
    using assms(1,2) by (intro branch_unexpected; cases a) (auto simp: answerable_def valid_response_def)
  with perform_all_lemma [OF assms(1,3-5)] show ?thesis by auto
qed

section \<open>A sample exchange\<close>

definition sample_get :: api_call where
  "sample_get = Get (lit ''k'') None"

definition sample_value :: ClientResponse where
  "sample_value = RValue (lit ''k'') [1] 3"

definition sample_event :: DittoWatchEvent where
  "sample_event = \<lparr>we_key = lit ''k'', we_value = Some [2], we_version = 4\<rparr>"

text \<open>The frames of the responses, header and payload in two pieces each.\<close>

definition sample_link :: "ClientResponse list \<Rightarrow> tcp_state" where
  "sample_link resps = sample_state (concat (map (\<lambda>r. [be32 (int (length (response_envelope r))), response_envelope r]) resps))"

lemmas sample_eval = encodable_def encodable_cp_def is_surrogate_def lit_def fits_frame_def
  envelope_def str_part_def num_part_def raw_part_def ns_part_def has_namespace_def varint.simps
  utf8_bytes_def utf8_cp_def u64_def wire_const

lemma sample_request_valid: "valid_request (GetReq (lit ''k'') None)"
  by (simp add: valid_request_def request_envelope_def key_namespace_msg_def sample_eval)

lemma sample_deliverable: "deliverable sample_config sample_value" "deliverable sample_config (event_response sample_event)"
  by (simp_all add: deliverable_def valid_response_def sample_value_def event_response_def sample_event_def
      response_envelope_def sample_eval)

lemma sample_answerable: "deliverable sample_config resp \<Longrightarrow> answerable sample_config sample_get resp"
  using sample_request_valid by (simp add: answerable_def deliverable_def sample_get_def core.lenient)

lemma envelope_nonempty: "response_envelope r \<noteq> []" "be32 n \<noteq> []"
  by (simp_all add: response_envelope_def envelope_def be32_def)

lemma sample_link_delivers:
  "\<exists>c. sock (sample_link resps) = Some c \<and> can_send c \<and> cid c = 0 \<and> delivers c (response_stream resps) []"
proof -
  let ?bs = "concat (map (\<lambda>r. [be32 (int (length (response_envelope r))), response_envelope r]) resps)"
  have "[] \<notin> set ?bs" using envelope_nonempty by (auto dest: sym)
  moreover have "concat ?bs = response_stream resps" by (induction resps) (simp_all add: frame_def)
  ultimately show ?thesis using sample_delivers [of ?bs] by (simp add: sample_link_def)
qed

theorem call_end_to_end_witness:
  "\<exists>fr s'. perform sample_config sample_get (sample_link [sample_value]) =
      (Inr (Found (Some \<lparr>get_value = [1], get_version = 3\<rparr>)), s') \<and>
    server_view fr = Inr (GetReq (lit ''k'') None) \<and> trace s' = [Opened 0, Sent 0 fr]"
proof -
  obtain c where c: "sock (sample_link [sample_value]) = Some c" "can_send c" "cid c = 0"
      "delivers c (frame (response_envelope sample_value) @ []) []"
    using sample_link_delivers [of "[sample_value]"] by auto
  have "call_check sample_config sample_get = Inr ()" "call_request sample_get = Inr (GetReq (lit ''k'') None)"
    by (simp_all add: sample_get_def core.lenient)
  from call_end_to_end [OF this sample_request_valid _ _ c(1,2,4)] sample_deliverable(1) c(3) show ?thesis
    by (auto simp: deliverable_def sample_get_def sample_value_def branch_defs sent_ns_def has_namespace_def
        sample_link_def sample_state_def)
qed

theorem calls_in_order_witness:
  "\<exists>s'. perform_all sample_config [sample_get, sample_get] (sample_link [sample_value, sample_value]) =
    (replicate 2 (Inr (Found (Some \<lparr>get_value = [1], get_version = 3\<rparr>))), s')"
proof -
  obtain c where c: "sock (sample_link [sample_value, sample_value]) = Some c" "can_send c"
      "delivers c (response_stream [sample_value, sample_value] @ []) []"
    using sample_link_delivers [of "[sample_value, sample_value]"] by auto
  have "list_all2 (answerable sample_config) [sample_get, sample_get] [sample_value, sample_value]"
    by (simp add: sample_answerable sample_deliverable)
  from calls_in_order [OF this c] show ?thesis
    by (auto simp: sample_get_def sample_value_def branch_defs numeral_2_eq_2)
qed

theorem threads_in_order_witness:
  "\<exists>is S order evs. S = interleave (method_prog sample_config) is
      (launch (sample_link [sample_value, sample_value]) [[CallRequest sample_get], [CallRequest sample_get]])
    \<and> finished S \<and> length order = 2 \<and> own 0 order = [sample_get] \<and> own 1 order = [sample_get]
    \<and> map server_view (sent_frames evs) = map asked (map snd order)
    \<and> trace (shared S) = trace (sample_link [sample_value, sample_value]) @ evs"
proof -
  let ?v = "[sample_value, sample_value]" and ?calls = "[[sample_get], [sample_get]]"
  obtain c where c: "sock (sample_link ?v) = Some c" "can_send c" "delivers c (response_stream ?v @ []) []"
    using sample_link_delivers [of ?v] by auto
  obtain "is" where fin: "finished (interleave (method_prog sample_config) is (launch (sample_link ?v) (map (map CallRequest) ?calls)))"
    using client.can_finish [of sample_config "[]"] by auto
  have "list_all (list_all (\<lambda>a. list_all (answerable sample_config a) ?v)) ?calls"
    by (simp add: sample_answerable sample_deliverable)
  from threads_in_order [OF this _ c refl fin] obtain order evs where
      "length order = 2" "own 0 order = [sample_get]" "own 1 order = [sample_get]"
      "map server_view (sent_frames evs) = map asked (map snd order)"
      "trace (shared (interleave (method_prog sample_config) is (launch (sample_link ?v) (map (map CallRequest) ?calls))))
        = trace (sample_link ?v) @ evs"
    by (auto simp: upt_rec numeral_2_eq_2)
  with fin show ?thesis by (intro exI [of _ "is"] exI [of _ order] exI [of _ evs] exI) auto
qed

theorem events_in_order_witness:
  "\<exists>s'. wait_events sample_config 2 (sample_link [event_response sample_event, event_response sample_event]) =
    (Inr [sample_event, sample_event], s')"
proof -
  obtain c where c: "sock (sample_link (map event_response [sample_event, sample_event])) = Some c"
      "delivers c (response_stream (map event_response [sample_event, sample_event]) @ []) []"
    using sample_link_delivers [of "map event_response [sample_event, sample_event]"] by auto
  have "list_all (\<lambda>ev. deliverable sample_config (event_response ev)) [sample_event, sample_event]"
    by (simp add: sample_deliverable)
  from events_in_order [OF this c] show ?thesis by (auto simp: numeral_2_eq_2)
qed

theorem event_shifts_responses_witness:
  "\<exists>s'. perform_all sample_config [sample_get, sample_get] (sample_link [event_response sample_event, sample_value]) =
    ([Inl (RuntimeError (lit ''Unexpected response: WatchEvent'')),
      Inr (Found (Some \<lparr>get_value = [1], get_version = 3\<rparr>))], s') \<and> sock s' \<noteq> None"
proof -
  obtain c where c: "sock (sample_link [event_response sample_event, sample_value]) = Some c" "can_send c"
      "delivers c (response_stream [event_response sample_event, sample_value] @ []) []"
    using sample_link_delivers [of "[event_response sample_event, sample_value]"] by auto
  have "list_all2 (answerable sample_config) [sample_get, sample_get] [event_response sample_event, sample_value]"
    by (simp add: sample_answerable sample_deliverable)
  from event_shifts_responses [OF this [unfolded event_response_def] _ c(1,2) c(3) [unfolded event_response_def]] show ?thesis
    by (simp add: sample_get_def sample_value_def branch_defs unexpected_def event_response_def lit_def)
qed

text \<open>A connection the server has closed, and the next one with the response on it.\<close>

definition sample_lost :: tcp_state where
  "sample_lost = \<lparr>sock = Some ((sample_conn [])\<lparr>inbound := [RecvData []]\<rparr>),
    dials = [Accepted (easy_peer [frame (response_envelope sample_value)])], next_cid = 1, trace = [Opened 0]\<rparr>"

theorem mutation_outcome_witness:
  "\<exists>s'. perform sample_config (Delete (lit ''k'') None) sample_lost = (Inl outcome_unknown, s') \<and> sock s' = None"
proof -
  let ?c = "(sample_conn [])\<lparr>inbound := [RecvData []]\<rparr>" and ?a = "Delete (lit ''k'') None"
  have c: "sock sample_lost = Some ?c" "shut_ok ?c" "can_send ?c" "inbound ?c = RecvData [] # []"
    by (simp_all add: sample_lost_def shut_ok_def sample_conn_def can_send_def)
  obtain r s' where r: "perform sample_config ?a sample_lost = (r, s')" by fastforce
  have enc: "encode_delete (lit ''k'') None = Inr (frame (request_envelope (DeleteReq (lit ''k'') None)))"
    using encode_request_eq [of "DeleteReq (lit ''k'') None"]
    by (simp add: request_envelope_def key_namespace_msg_def sample_eval)
  obtain c1 where ex: "exchange sample_config (frame (request_envelope (DeleteReq (lit ''k'') None))) sample_lost =
      (Inl (ConnectionError (lit ''Connection closed by server.'')), sample_lost\<lparr>sock := Some c1,
        trace := trace sample_lost @ [Sent (cid ?c) (frame (request_envelope (DeleteReq (lit ''k'') None)))]\<rparr>)"
      "shut c1 = shut ?c"
    using exchange_eof [OF c(1,3,4)] by metis
  then have "sock s' = None"
    using r c(1) by (auto simp: api.call_steps core.lenient enc send_def close_locked_def sample_conn_def drop_sock_def
        simp del: perform.simps)
  moreover have "\<not> read_only ?a" by simp
  ultimately show ?thesis
    using mutation_outcome [OF _ c(1) r] r by auto
qed

text \<open>The same for a client with a token, which the server accepts.\<close>

definition sample_lost_auth :: tcp_state where
  "sample_lost_auth = sample_lost\<lparr>dials := [Accepted (easy_peer [frame (response_envelope (RSimple ''AuthOk'')),
     frame (response_envelope sample_value)])]\<rparr>"

theorem reconnect_recovers_witness:
  "\<exists>fr s'. perform (sample_auth_config\<lparr>auto_reconnect := True\<rparr>) sample_get sample_lost_auth =
      (Inr (Found (Some \<lparr>get_value = [1], get_version = 3\<rparr>)), s') \<and>
    trace s' = [Opened 0, Sent 0 fr, Closed 0, Opened 1, Sent 1 (frame (request_envelope (AuthReq (lit ''s3cret'')))), Sent 1 fr]"
proof -
  let ?c = "(sample_conn [])\<lparr>inbound := [RecvData []]\<rparr>" and ?cfg = "sample_auth_config\<lparr>auto_reconnect := True\<rparr>"
    and ?p = "easy_peer [frame (response_envelope (RSimple ''AuthOk'')), frame (response_envelope sample_value)]"
  have cfg: "auth_token ?cfg = Some (lit ''s3cret'')" "max_frame_bytes ?cfg = 8388608" "strict_mode ?cfg = False"
    by (simp_all add: sample_auth_config_def sample_config_def init_client_def)
  have token: "valid_request (AuthReq (lit ''s3cret''))"
    by (simp add: valid_request_def request_envelope_def sample_eval)
  have d: "delivers (new_conn sample_lost_auth ?p None) (auth_stream ?cfg @ frame (response_envelope sample_value) @ []) []"
    by (auto simp: delivers_def new_conn_def easy_peer_def frame_def be32_def auth_stream_def cfg intro!: exI [of _ "[_, _]"])
  have "\<exists>fr s'. perform ?cfg sample_get sample_lost_auth = (call_branch sample_get sample_value, s') \<and>
      server_view fr = Inr (as_sent (GetReq (lit ''k'') None)) \<and>
      trace s' = trace sample_lost_auth @ [Sent (cid ?c) fr, Closed (cid ?c), Opened (next_cid sample_lost_auth)]
        @ map (Sent (next_cid sample_lost_auth)) (auth_frames ?cfg) @ [Sent (next_cid sample_lost_auth) fr]"
    by (rule reconnect_recovers [OF _ _ _ _ sample_request_valid _ _ _ _ _ _ _ _ _ d, where evs = "[]" and ds = "[]"])
       (use sample_deliverable(1) token sample_responses_valid(2) cfg in \<open>simp_all add: sample_get_def core.lenient sample_lost_auth_def sample_lost_def
          can_send_def sample_conn_def shut_ok_def wrap_tls_def new_conn_def easy_peer_def deliverable_def
          sample_auth_config_def sample_config_def init_client_def\<close>)
  then show ?thesis
    by (auto simp: sample_get_def sample_value_def branch_defs auth_frames_def cfg sample_auth_frame sample_lost_auth_def sample_lost_def sample_conn_def)
qed

section \<open>The two transports\<close>

text \<open>The HTTP form of a call, and what a request of the binary protocol asks for.\<close>

fun http_form :: "api_call \<Rightarrow> http_api option" where
  "http_form Ping = Some HPing"
| "http_form (Get k ns) = Some (HGet k ns)"
| "http_form (Set k v ttl ns) = (case v of StrVal t \<Rightarrow> Some (HSet k t ttl ns) | BytesVal b \<Rightarrow> None)"
| "http_form (SetNx k v ttl ns) = Some (HSetNx k v ttl ns)"
| "http_form (Incr k d ttl ns) = Some (HIncr k d ttl ns)"
| "http_form (Delete k ns) = Some (HDelete k ns)"
| "http_form (DeleteByPattern p ns) = Some (HDeleteByPattern p ns)"
| "http_form (SetTtlByPattern p ttl ns) = Some (HSetTtlByPattern p ttl ns)"
| "http_form (Watch k ns) = None"
| "http_form (Unwatch k ns) = None"

fun tcp_view :: "request \<Rightarrow> request_view option" where
  "tcp_view PingReq = Some ViewPing"
| "tcp_view (GetReq k ns) = Some (ViewGet k ns)"
| "tcp_view (SetReq k v ttl ns) = Some (ViewPut k v (ttl_view ttl) ns)"
| "tcp_view (SetNxReq k v ttl ns) = Some (ViewCreate k v (ttl_view ttl) ns)"
| "tcp_view (IncrReq k d ttl ns) = Some (ViewIncr k d (ttl_view ttl) ns)"
| "tcp_view (DeleteReq k ns) = Some (ViewDelete k ns)"
| "tcp_view (DeleteByPatternReq p ns) = Some (ViewDeletePattern p ns)"
| "tcp_view (SetTtlByPatternReq p ttl ns) = Some (ViewTtlPattern p (ttl_view ttl) ns)"
| "tcp_view _ = None"

fun call_ns :: "api_call \<Rightarrow> pystr option" where
  "call_ns Ping = None"
| "call_ns (Get k ns) = ns"
| "call_ns (Set k v ttl ns) = ns"
| "call_ns (SetNx k v ttl ns) = ns"
| "call_ns (Incr k d ttl ns) = ns"
| "call_ns (Delete k ns) = ns"
| "call_ns (DeleteByPattern p ns) = ns"
| "call_ns (SetTtlByPattern p ttl ns) = ns"
| "call_ns (Watch k ns) = ns"
| "call_ns (Unwatch k ns) = ns"

fun delta_range :: "api_call \<Rightarrow> bool" where
  "delta_range (Incr k d ttl ns) \<longleftrightarrow> - (2 ^ 63) \<le> d \<and> d < 2 ^ 63"
| "delta_range _ \<longleftrightarrow> True"

lemma sent_ns_trimmed: "map_option py_strip ns = ns \<Longrightarrow> sent_ns ns = ns_view ns"
  by (cases ns) (auto simp: sent_ns_def has_namespace_def ns_view_def)

lemma ttl_view_max: "ttl_view (max 0 n) = ttl_view n"
  by (auto simp: ttl_view_def)

lemma tcp_view_sent:
  assumes "http_form a = Some h" "call_request a = Inr q" "map_option py_strip (call_ns a) = call_ns a" "delta_range a"
  shows "tcp_view (as_sent q) = Some (http_view h)"
  using assms
  by (cases a) (auto simp: sent_ns_trimmed ttl_view_max signed64_mod [simplified] raw_value_def py_encode_def
      elim!: bind_elim split: py_value.splits if_splits)

lemma pattern_text_sent: "http_form a = Some h \<Longrightarrow> call_request a = Inr q \<Longrightarrow> valid_request q \<Longrightarrow> pattern_text h"
  by (cases a) (auto simp: valid_request_def split: py_value.splits)

lemma tcp_sends:
  assumes "call_check cfg a = Inr ()" "call_request a = Inr q" "valid_request q" "sock s = Some c"
  obtains evs rest where "trace (snd (perform cfg a s)) = trace s @ evs" "sent_frames evs = frame (request_envelope q) # rest"
proof -
  let ?fr = "frame (request_envelope q)"
  obtain r s' where r: "send cfg ?fr (read_only a) s = (r, s')" by fastforce
  have "snd (perform cfg a s) = s'"
    using r assms(1,2) server_view_encode(1) [OF assms(3)] by (simp add: api.call_steps)
  moreover obtain evs where "trace s' = trace s @ evs" "\<exists>rest. sent_frames evs = ?fr # rest"
    by (rule send_trace [OF r]) (use assms(4) in auto)
  ultimately show ?thesis using that by auto
qed

text \<open>
  C8: the two transports are interchangeable, for calls whose texts have a UTF-8 form and whose request fits a frame, whose namespace
  has no surrounding space and whose delta is a signed 64-bit number: both clients, in the same mode, make the same checks; and
  when a call passes them, the frame that a connected TCP client sends first and the request that an HTTP client sends, its headers
  being such that it can be sent, each read by the rules of its own format, ask the server for the same operation on the same key
  with the same value, delta, time to live and namespace.
\<close>

theorem transports_agree:
  assumes "http_form a = Some h" "strict_mode tcfg = http_strict cfg"
    and "call_request a = Inr q" "valid_request q" "http_args h = Inr x"
    and "map_option py_strip (call_ns a) = call_ns a" "delta_range a"
    and "sock s = Some c" "header_error (req_headers (build_request cfg x)) = None"
  shows "call_check tcfg a = http_check cfg h \<and>
    (call_check tcfg a = Inr () \<longrightarrow>
      (\<exists>evs fr rest q'. trace (snd (perform tcfg a s)) = trace s @ evs \<and> sent_frames evs = fr # rest \<and> server_view fr = Inr q' \<and>
         sent_requests (snd (http_perform cfg h t)) = sent_requests t @ [build_request cfg x] \<and>
         tcp_view q' = Some (http_view h) \<and> read_request (base_url cfg) (build_request cfg x) = Some (http_view h)))"
proof -
  have same: "call_check tcfg a = http_check cfg h"
    using assms(1,2) by (cases a) (auto split: py_value.splits)
  show ?thesis
  proof (intro conjI same impI)
    assume check: "call_check tcfg a = Inr ()"
    obtain evs rest where "trace (snd (perform tcfg a s)) = trace s @ evs" "sent_frames evs = frame (request_envelope q) # rest"
      by (rule tcp_sends [OF check assms(3,4,8)])
    moreover have "sent_requests (snd (http_perform cfg h t)) = sent_requests t @ [build_request cfg x]"
      using http_sends [OF _ assms(5,9)] check same by simp
    ultimately show "\<exists>evs fr rest q'. trace (snd (perform tcfg a s)) = trace s @ evs \<and> sent_frames evs = fr # rest \<and>
        server_view fr = Inr q' \<and> sent_requests (snd (http_perform cfg h t)) = sent_requests t @ [build_request cfg x] \<and>
        tcp_view q' = Some (http_view h) \<and> read_request (base_url cfg) (build_request cfg x) = Some (http_view h)"
      using server_view_encode(2) [OF assms(4)] tcp_view_sent [OF assms(1,3,6,7)]
        args_read [OF assms(5) pattern_text_sent [OF assms(1,3,4)], of cfg] by blast
  qed
qed

theorem transports_agree_witness:
  "\<exists>evs fr rest q' x. trace (snd (perform (sample_config\<lparr>strict_mode := True\<rparr>) (Delete (lit ''k'') (Some (lit ''t''))) (sample_state []))) =
      trace (sample_state []) @ evs \<and> sent_frames evs = fr # rest \<and> server_view fr = Inr q' \<and>
    sent_requests (snd (http_perform sample_http (HDelete (lit ''k'') (Some (lit ''t''))) \<lparr>replies = [], sent_requests = []\<rparr>)) =
      [build_request sample_http x] \<and>
    tcp_view q' = Some (ViewDelete (lit ''k'') (Some (lit ''t''))) \<and>
    read_request (lit ''http://h:7778'') (build_request sample_http x) = Some (ViewDelete (lit ''k'') (Some (lit ''t'')))"
proof -
  let ?q = "DeleteReq (lit ''k'') (Some (lit ''t''))" and ?a = "Delete (lit ''k'') (Some (lit ''t''))" and ?h = "HDelete (lit ''k'') (Some (lit ''t''))"
  have v: "valid_request ?q"
    by (simp add: valid_request_def encodable_def encodable_ns_def encodable_cp_def is_surrogate_def lit_def
        fits_frame_def request_envelope_def envelope_def key_namespace_msg_def str_part_def
        ns_part_def wire_const varint.simps utf8_bytes_def utf8_cp_def)
  have strip: "py_strip (lit ''t'') = lit ''t''"
    by (simp add: lit_def py_strip_def lstrip_def is_space_def)
  obtain x where x: "http_args ?h = Inr x" "extra_headers x = Some [(''X-Ditto-Namespace'', lit ''t'')]" "content_type x = None"
    using lit_encodable [of "''k''"] strip
    by (auto simp: key_path_def url_encode_def namespace_headers_def lit_def get_args_def)
  have hdr: "header_error (req_headers (build_request sample_http x)) = None"
    using x(2,3) by (simp add: build_request_def lit_def)
  have check: "call_check (sample_config\<lparr>strict_mode := True\<rparr>) ?a = Inr ()"
    using strip by (simp add: core.strict_iff strict_ns_def) (simp add: strict_key_def token_char_def lit_def sublist_Cons_right)
  have ns: "lit ''t'' \<noteq> []" by (simp add: lit_def)
  have conn: "sock (sample_state []) = Some (sample_conn [])" "base_url sample_http = lit ''http://h:7778''"
    by (simp_all add: sample_state_def sample_http_def)
  obtain evs fr rest q' where "trace (snd (perform (sample_config\<lparr>strict_mode := True\<rparr>) ?a (sample_state []))) = trace (sample_state []) @ evs"
      "sent_frames evs = fr # rest" "server_view fr = Inr q'"
      "sent_requests (snd (http_perform sample_http ?h \<lparr>replies = [], sent_requests = []\<rparr>)) = [build_request sample_http x]"
      "tcp_view q' = Some (http_view ?h)" "read_request (base_url sample_http) (build_request sample_http x) = Some (http_view ?h)"
    using transports_agree [of ?a ?h "sample_config\<lparr>strict_mode := True\<rparr>" sample_http ?q x "sample_state []" "sample_conn []"
        "\<lparr>replies = [], sent_requests = []\<rparr>"] v x(1) hdr check strip conn(1)
    by (auto simp: sample_http_def sample_config_def)
  moreover have "http_view ?h = ViewDelete (lit ''k'') (Some (lit ''t''))"
    using ns strip by (simp add: ns_view_def)
  ultimately show ?thesis using conn(2) by metis
qed

end
